theory Spec2Isabelle
  imports Complex_Main "HOL-Library.List_Lexorder" "HOL-Library.Char_ord" "HOL-Library.AList"
    "HOL-Library.Sublist"
begin

section \<open>Python values and errors\<close>

text \<open>
  The exceptions the pipeline of \<^verbatim>\<open>base_kam_model.py\<close> can raise, as values.  A function
  that can raise returns \<open>error + 'a\<close>, \<open>Inl\<close> being the exception.
\<close>

datatype error =
    KeyError | ValueError | IndexError | AttributeError | NotFittedError
  | RuntimeError | ZeroDivisionError

section \<open>Floating-point values\<close>

text \<open>
  A numpy \<^verbatim>\<open>float64\<close> is modelled as a real number, one of the two infinities or NaN.
  Rounding, overflow and the sign of zero are not modelled: arithmetic on finite values is
  exact, and a finite non-zero value divided by zero is the infinity of the dividend's sign.
\<close>

datatype float = Fin real | PInf | NInf | NaN

fun isnan :: "float \<Rightarrow> bool" where
  "isnan NaN = True"
| "isnan _ = False"

fun isfinite :: "float \<Rightarrow> bool" where
  "isfinite (Fin _) = True"
| "isfinite _ = False"

fun fadd :: "float \<Rightarrow> float \<Rightarrow> float" where
  "fadd (Fin a) (Fin b) = Fin (a + b)"
| "fadd NaN _ = NaN"
| "fadd _ NaN = NaN"
| "fadd PInf NInf = NaN"
| "fadd NInf PInf = NaN"
| "fadd PInf _ = PInf"
| "fadd _ PInf = PInf"
| "fadd NInf _ = NInf"
| "fadd _ NInf = NInf"

fun fneg :: "float \<Rightarrow> float" where
  "fneg (Fin a) = Fin (- a)"
| "fneg PInf = NInf"
| "fneg NInf = PInf"
| "fneg NaN = NaN"

definition fsub :: "float \<Rightarrow> float \<Rightarrow> float" where
  "fsub a b = fadd a (fneg b)"

text \<open>An infinity with the sign of a finite value flipped or kept.\<close>

definition signed_inf :: "bool \<Rightarrow> float" where
  "signed_inf positive = (if positive then PInf else NInf)"

fun fmul :: "float \<Rightarrow> float \<Rightarrow> float" where
  "fmul (Fin a) (Fin b) = Fin (a * b)"
| "fmul NaN _ = NaN"
| "fmul _ NaN = NaN"
| "fmul (Fin a) PInf = (if a = 0 then NaN else signed_inf (0 < a))"
| "fmul (Fin a) NInf = (if a = 0 then NaN else signed_inf (a < 0))"
| "fmul PInf (Fin b) = (if b = 0 then NaN else signed_inf (0 < b))"
| "fmul NInf (Fin b) = (if b = 0 then NaN else signed_inf (b < 0))"
| "fmul PInf PInf = PInf"
| "fmul NInf NInf = PInf"
| "fmul PInf NInf = NInf"
| "fmul NInf PInf = NInf"

fun fdiv :: "float \<Rightarrow> float \<Rightarrow> float" where
  "fdiv (Fin a) (Fin b) =
     (if b = 0 then (if a = 0 then NaN else signed_inf (0 < a)) else Fin (a / b))"
| "fdiv NaN _ = NaN"
| "fdiv _ NaN = NaN"
| "fdiv (Fin a) PInf = Fin 0"
| "fdiv (Fin a) NInf = Fin 0"
| "fdiv PInf (Fin b) = signed_inf (0 \<le> b)"
| "fdiv NInf (Fin b) = signed_inf (b < 0)"
| "fdiv PInf PInf = NaN"
| "fdiv PInf NInf = NaN"
| "fdiv NInf PInf = NaN"
| "fdiv NInf NInf = NaN"

text \<open>The finite values of a list, in order (what the NaN-ignoring reductions read).\<close>

fun finite_values :: "float list \<Rightarrow> real list" where
  "finite_values [] = []"
| "finite_values (Fin a # xs) = a # finite_values xs"
| "finite_values (_ # xs) = finite_values xs"

text \<open>Sequencing of computations that may raise: the first exception wins.\<close>

definition and_then :: "error + 'a \<Rightarrow> ('a \<Rightarrow> error + 'b) \<Rightarrow> error + 'b" where
  "and_then m f = (case m of Inl e \<Rightarrow> Inl e | Inr x \<Rightarrow> f x)"

text \<open>A loop that maps a raising function over a list, stopping at the first exception.\<close>

fun map_err :: "('a \<Rightarrow> error + 'b) \<Rightarrow> 'a list \<Rightarrow> error + 'b list" where
  "map_err f [] = Inr []"
| "map_err f (x # xs) =
     (case f x of Inl e \<Rightarrow> Inl e
      | Inr y \<Rightarrow> (case map_err f xs of Inl e \<Rightarrow> Inl e | Inr ys \<Rightarrow> Inr (y # ys)))"

section \<open>Synchronising the two streams (generate\_combined\_data.py)\<close>

text \<open>
  A pandas data frame: its column names and its rows.  The frames of this module carry the
  default integer index, so row \<open>i\<close> of \<open>rows\<close> is the row labelled \<open>i\<close>.
\<close>

record data_frame =
  columns :: "string list"
  rows :: "float list list"

text \<open>
  Modelled from the spec: \<^verbatim>\<open>crop\<close> of the stream readers of \<^verbatim>\<open>wearable_toolkit\<close>, which is not
  among the source files.  The spec: \<^verbatim>\<open>crop(stream, lag)\<close> removes the leading \<open>lag\<close> samples
  (a negative lag means that the other stream is cropped instead), so that both streams
  reference the same instant zero; the remaining rows are labelled from \<open>0\<close> again.
\<close>

definition crop :: "data_frame \<Rightarrow> int \<Rightarrow> data_frame" where
  "crop df delay = df\<lparr>rows := drop (nat delay) (rows df)\<rparr>"

text \<open>
  \<^verbatim>\<open>pd.concat([a, b], axis=1)\<close> on two frames with the default index: the index of the
  result is the union of the two, and a frame that has no row of some label contributes NaN.
\<close>

definition row_or_nan :: "data_frame \<Rightarrow> nat \<Rightarrow> float list" where
  "row_or_nan df i =
     (if i < length (rows df) then rows df ! i else replicate (length (columns df)) NaN)"

definition pd_concat_axis1 :: "data_frame \<Rightarrow> data_frame \<Rightarrow> data_frame" where
  "pd_concat_axis1 a b =
     \<lparr>columns = columns a @ columns b,
      rows = map (\<lambda>i. row_or_nan a i @ row_or_nan b i)
               [0 ..< max (length (rows a)) (length (rows b))]\<rparr>"

text \<open>
  \<^verbatim>\<open>df.loc[:stop]\<close> slices by label, and a label slice includes its end point: the rows
  labelled \<open>0, \<dots>, stop\<close>.
\<close>

definition loc_upto :: "data_frame \<Rightarrow> nat \<Rightarrow> data_frame" where
  "loc_upto df stop = df\<lparr>rows := take (stop + 1) (rows df)\<rparr>"

text \<open>\<^verbatim>\<open>df[name] = value\<close> with a column name the frame does not have yet.\<close>

definition set_column :: "data_frame \<Rightarrow> string \<Rightarrow> float \<Rightarrow> data_frame" where
  "set_column df name v =
     \<lparr>columns = columns df @ [name], rows = map (\<lambda>r. r @ [v]) (rows df)\<rparr>"

fun index_of :: "'a list \<Rightarrow> 'a \<Rightarrow> error + nat" where
  "index_of [] x = Inl ValueError"
| "index_of (y # ys) x =
     (if y = x then Inr 0 else (case index_of ys x of Inl e \<Rightarrow> Inl e | Inr i \<Rightarrow> Inr (Suc i)))"

definition TRIALS :: "string list" where
  "TRIALS = [''baseline'', ''fpa'', ''step_width'', ''trunk_sway'']"

definition SUBJECTS :: "string list" where
  "SUBJECTS = [''s002_wangdianxin'', ''s004_ouyangjue'', ''s005_tangansheng'', ''s006_xusen'',
     ''s007_zuogangao'', ''s008_liyu'', ''s009_sunyubo'', ''s010_handai'', ''s011_wuxingze'',
     ''s012_likaixiang'', ''s013_zhangxiaohan'', ''s014_maqichao'', ''s015_weihuan'',
     ''s017_tantian'', ''s018_wangmian'', ''s019_chenhongyuan'', ''s020_houjikang'']"

definition SUBJECT_WEIGHT :: string where "SUBJECT_WEIGHT = ''body weight''"
definition SUBJECT_HEIGHT :: string where "SUBJECT_HEIGHT = ''body height''"

text \<open>
  \<^verbatim>\<open>sync_and_crop_data_frame\<close> from the point where the two readers and the synchronisation
  delay exist: \<open>imu_data\<close> and \<open>vicon_data\<close> are the frames of the two readers,
  \<open>first_event_index\<close> is \<^verbatim>\<open>imu_data.get_first_event_index()\<close>, \<open>vicon_imu_sync_delay\<close> is the
  result of \<^verbatim>\<open>sync_via_correlation\<close>, \<open>height\<close> and \<open>weight\<close> are the two entries of the
  subject's row of \<^verbatim>\<open>subject_info.csv\<close>.  The column names \<open>SUBJECT_ID\<close> and \<open>TRIAL_ID\<close>
  are imported from \<^verbatim>\<open>const\<close>, which does not define them; they are parameters here.  The
  result is the frame written to the combined file.
\<close>

definition sync_and_crop_data_frame ::
  "string \<Rightarrow> string \<Rightarrow> string \<Rightarrow> string \<Rightarrow> data_frame \<Rightarrow> data_frame \<Rightarrow> int \<Rightarrow> int
     \<Rightarrow> float \<Rightarrow> float \<Rightarrow> error + data_frame" where
  "sync_and_crop_data_frame SUBJECT_ID TRIAL_ID subject trial imu_data vicon_data first_event_index
       vicon_imu_sync_delay height weight =
     (let minimum_delay = min (- first_event_index) vicon_imu_sync_delay;
          vicon_delay = 0 - minimum_delay;
          imu_delay = vicon_imu_sync_delay - minimum_delay;
          imu_frame = crop imu_data imu_delay;
          vicon_frame = crop vicon_data vicon_delay;
          min_length = min (length (rows imu_frame)) (length (rows vicon_frame));
          middle_data = pd_concat_axis1 imu_frame vicon_frame;
          middle_data = loc_upto middle_data min_length;
          middle_data = set_column middle_data SUBJECT_HEIGHT height;
          middle_data = set_column middle_data SUBJECT_WEIGHT weight
      in and_then (index_of SUBJECTS subject) (\<lambda>subject_id.
           (let middle_data = set_column middle_data SUBJECT_ID (Fin (real subject_id))
            in and_then (index_of TRIALS trial) (\<lambda>trial_id.
                 Inr (set_column middle_data TRIAL_ID (Fin (real trial_id)))))))"

section \<open>Cross-validation folds\<close>

text \<open>Python's \<^verbatim>\<open>xs[lo:hi]\<close> for \<open>0 \<le> lo\<close>, \<open>0 \<le> hi\<close>.\<close>

definition py_slice :: "'a list \<Rightarrow> nat \<Rightarrow> nat \<Rightarrow> 'a list" where
  "py_slice xs lo hi = take (hi - lo) (drop lo xs)"

text \<open>\<^verbatim>\<open>np.unique\<close>: the sorted distinct elements.\<close>

definition np_unique :: "'a::linorder list \<Rightarrow> 'a list" where
  "np_unique xs = sort (remdups xs)"

text \<open>\<^verbatim>\<open>np.setdiff1d(ar1, ar2)\<close>: the sorted distinct elements of \<open>ar1\<close> that are not in
  \<open>ar2\<close>.\<close>

definition setdiff1d :: "'a::linorder list \<Rightarrow> 'a list \<Rightarrow> 'a list" where
  "setdiff1d ar1 ar2 = filter (\<lambda>x. x \<notin> set ar2) (np_unique ar1)"

text \<open>\<^verbatim>\<open>folder_num = int(np.ceil(len(sub_ids) / test_set_sub_num))\<close>\<close>

definition folder_num :: "string list \<Rightarrow> nat \<Rightarrow> nat" where
  "folder_num sub_ids test_set_sub_num =
     nat \<lceil>real (length sub_ids) / real test_set_sub_num\<rceil>"

text \<open>
  The subject lists of fold \<open>i_folder\<close> of \<^verbatim>\<open>cross_validation\<close>, in the order in which they are
  handed to \<^verbatim>\<open>preprocess_train_evaluation(train_sub_ids, test_sub_ids, test_sub_ids)\<close>:
  training subjects, validation subjects, test subjects.
\<close>

definition cv_fold :: "string list \<Rightarrow> nat \<Rightarrow> nat \<Rightarrow> string list \<times> string list \<times> string list" where
  "cv_fold sub_ids test_set_sub_num i_folder =
     (let test_sub_ids = py_slice sub_ids (test_set_sub_num * i_folder) (test_set_sub_num * (i_folder + 1));
          train_sub_ids = setdiff1d sub_ids test_sub_ids
      in (train_sub_ids, test_sub_ids, test_sub_ids))"

definition cv_folds :: "string list \<Rightarrow> nat \<Rightarrow> (string list \<times> string list \<times> string list) list" where
  "cv_folds sub_ids test_set_sub_num =
     map (cv_fold sub_ids test_set_sub_num) [0 ..< folder_num sub_ids test_set_sub_num]"

definition fold_train :: "string list \<times> string list \<times> string list \<Rightarrow> string list" where
  "fold_train f = fst f"

definition fold_test :: "string list \<times> string list \<times> string list \<Rightarrow> string list" where
  "fold_test f = snd (snd f)"

section \<open>Scoring (BaseModel.get\_all\_scores)\<close>

text \<open>
  The library functions the scorer calls are not part of the repository; they are modelled
  from their documented behaviour.

  \<^verbatim>\<open>check_array\<close> of scikit-learn, as the metrics apply it to a one-dimensional input: a
  \<^verbatim>\<open>ValueError\<close> for an input with a NaN or an infinity and for an empty input; otherwise the
  values.
\<close>

fun the_reals :: "float list \<Rightarrow> error + real list" where
  "the_reals [] = Inr []"
| "the_reals (Fin a # xs) = (case the_reals xs of Inl e \<Rightarrow> Inl e | Inr rs \<Rightarrow> Inr (a # rs))"
| "the_reals (_ # xs) = Inl ValueError"

definition check_targets :: "float list \<Rightarrow> float list \<Rightarrow> error + (real list \<times> real list)" where
  "check_targets y_true y_pred =
     (if length y_true \<noteq> length y_pred then Inl ValueError
      else and_then (the_reals y_true) (\<lambda>ts.
           and_then (the_reals y_pred) (\<lambda>ps.
             if ts = [] then Inl ValueError else Inr (ts, ps))))"

text \<open>\<^verbatim>\<open>np.sqrt\<close> on a non-negative number.  The square root has no code equation.\<close>

definition np_sqrt :: "real \<Rightarrow> real" where
  "np_sqrt x = sqrt x"

declare np_sqrt_def [code del]

definition mean :: "real list \<Rightarrow> real" where
  "mean xs = sum_list xs / real (length xs)"

text \<open>
  \<^verbatim>\<open>sklearn.metrics.r2_score\<close>: NaN (with a warning) for fewer than two samples; otherwise
  \<open>1 - SS_res / SS_tot\<close>, and for a constant \<open>y_true\<close> the score is \<open>1\<close> for a perfect
  prediction and \<open>0\<close> otherwise.
\<close>

definition r2_score :: "float list \<Rightarrow> float list \<Rightarrow> error + float" where
  "r2_score y_true y_pred =
     and_then (check_targets y_true y_pred) (\<lambda>(ts, ps).
       if length ts < 2 then Inr NaN
       else (let numerator = sum_list (map (\<lambda>(t, p). (t - p)\<^sup>2) (zip ts ps));
                 denominator = sum_list (map (\<lambda>t. (t - mean ts)\<^sup>2) ts)
             in if denominator \<noteq> 0 then Inr (Fin (1 - numerator / denominator))
                else if numerator \<noteq> 0 then Inr (Fin 0)
                else Inr (Fin 1)))"

text \<open>\<^verbatim>\<open>sklearn.metrics.mean_squared_error\<close>\<close>

definition mse :: "float list \<Rightarrow> float list \<Rightarrow> error + real" where
  "mse y_true y_pred =
     and_then (check_targets y_true y_pred) (\<lambda>(ts, ps).
       Inr (mean (map (\<lambda>(t, p). (t - p)\<^sup>2) (zip ts ps))))"

text \<open>
  \<^verbatim>\<open>scipy.stats.pearsonr(x, y)[0]\<close>: a \<^verbatim>\<open>ValueError\<close> for inputs of different lengths or of
  fewer than two elements; NaN (with a warning) when one input is constant; otherwise the
  correlation coefficient, clipped to \<open>[-1, 1]\<close>.  It is called after the two scikit-learn
  metrics have accepted the same inputs, so the values are finite when it is reached; on
  other values the model raises like them.
\<close>

definition pearsonr :: "float list \<Rightarrow> float list \<Rightarrow> error + float" where
  "pearsonr x y =
     (if length x \<noteq> length y then Inl ValueError
      else if length x < 2 then Inl ValueError
      else and_then (the_reals x) (\<lambda>xs.
           and_then (the_reals y) (\<lambda>ys.
             if (\<forall>v \<in> set xs. v = hd xs) \<or> (\<forall>v \<in> set ys. v = hd ys) then Inr NaN
             else (let xm = map (\<lambda>v. v - mean xs) xs;
                       ym = map (\<lambda>v. v - mean ys) ys;
                       r = sum_list (map (\<lambda>(a, b). a * b) (zip xm ym))
                             / (np_sqrt (sum_list (map (\<lambda>a. a\<^sup>2) xm)) * np_sqrt (sum_list (map (\<lambda>b. b\<^sup>2) ym)))
                   in Inr (Fin (max (min r 1) (- 1)))))))"

text \<open>
  Indexing a row with a boolean mask, \<^verbatim>\<open>arr[i, w[i, :]]\<close>: the elements at the \<open>True\<close>
  positions; an \<^verbatim>\<open>IndexError\<close> when the mask and the row differ in length.
\<close>

definition np_mask :: "'a list \<Rightarrow> bool list \<Rightarrow> error + 'a list" where
  "np_mask xs ws =
     (if length ws \<noteq> length xs then Inl IndexError
      else Inr (map fst (filter snd (zip xs ws))))"

text \<open>\<^verbatim>\<open>ndarray.max()\<close> and \<^verbatim>\<open>ndarray.min()\<close>: a \<^verbatim>\<open>ValueError\<close> on an empty array.\<close>

definition np_max :: "real list \<Rightarrow> error + real" where
  "np_max xs = (case xs of [] \<Rightarrow> Inl ValueError | x # rest \<Rightarrow> Inr (fold max rest x))"

definition np_min :: "real list \<Rightarrow> error + real" where
  "np_min xs = (case xs of [] \<Rightarrow> Inl ValueError | x # rest \<Rightarrow> Inr (fold min rest x))"

text \<open>The five metrics of one step, in the order in which the loop body computes them.\<close>

record step_score =
  s_r2 :: float
  s_rmse :: float
  s_mae :: float
  s_r_rmse :: float
  s_cor_value :: float

definition step_scores :: "float list \<Rightarrow> float list \<Rightarrow> bool list \<Rightarrow> error + step_score" where
  "step_scores arr_true_row arr_pred_row w_row =
     and_then (np_mask arr_true_row w_row) (\<lambda>arr_true_i.
     and_then (np_mask arr_pred_row w_row) (\<lambda>arr_pred_i.
     and_then (r2_score arr_true_i arr_pred_i) (\<lambda>r2.
     and_then (mse arr_true_i arr_pred_i) (\<lambda>m.
     and_then (the_reals arr_true_i) (\<lambda>ts.
     and_then (the_reals arr_pred_i) (\<lambda>ps.
       (let rmse = np_sqrt m;
            mae = mean (map (\<lambda>(t, p). \<bar>t - p\<bar>) (zip ts ps))
        in and_then (np_max ts) (\<lambda>true_max.
           and_then (np_max ps) (\<lambda>pred_max.
           and_then (np_min ts) (\<lambda>true_min.
           and_then (np_min ps) (\<lambda>pred_min.
             (let r_rmse = fdiv (fdiv (Fin rmse) (Fin (true_max + pred_max - true_min - pred_min))) (Fin 2)
              in and_then (pearsonr arr_true_i arr_pred_i) (\<lambda>cor_value.
                   Inr \<lparr>s_r2 = r2, s_rmse = Fin rmse, s_mae = Fin mae, s_r_rmse = r_rmse,
                        s_cor_value = cor_value\<rparr>)))))))))))))"

text \<open>
  The loop \<^verbatim>\<open>for i in range(arr_true.shape[0])\<close>: row \<open>i\<close> of the prediction and of the mask is
  read for every row of \<open>arr_true\<close>, an \<^verbatim>\<open>IndexError\<close> if there is none.
\<close>

fun column_steps :: "float list list \<Rightarrow> float list list \<Rightarrow> bool list list \<Rightarrow> error + step_score list" where
  "column_steps [] arr_pred w = Inr []"
| "column_steps (t # ts) (p # ps) (m # ms) =
     (case step_scores t p m of Inl e \<Rightarrow> Inl e
      | Inr s \<Rightarrow> (case column_steps ts ps ms of Inl e \<Rightarrow> Inl e | Inr ss \<Rightarrow> Inr (s # ss)))"
| "column_steps (t # ts) arr_pred w = Inl IndexError"

text \<open>\<^verbatim>\<open>np.where(w.ravel())[0]\<close> and the integer indexing \<^verbatim>\<open>arr.ravel()[locs]\<close>.\<close>

definition np_where :: "bool list \<Rightarrow> nat list" where
  "np_where ws = filter (\<lambda>i. ws ! i) [0 ..< length ws]"

definition np_take :: "'a list \<Rightarrow> nat list \<Rightarrow> error + 'a list" where
  "np_take xs locs =
     (if \<forall>l \<in> set locs. l < length xs then Inr (map (\<lambda>l. xs ! l) locs) else Inl IndexError)"

record column_score =
  r2 :: "float list"
  r2_all :: "float list"
  rmse :: "float list"
  mae :: "float list"
  r_rmse :: "float list"
  cor_value :: "float list"

definition get_column_score ::
  "float list list \<Rightarrow> float list list \<Rightarrow> bool list list \<Rightarrow> error + column_score" where
  "get_column_score arr_true arr_pred w =
     and_then (column_steps arr_true arr_pred w) (\<lambda>steps.
       (let locs = np_where (concat w)
        in and_then (np_take (concat arr_true) locs) (\<lambda>true_all.
           and_then (np_take (concat arr_pred) locs) (\<lambda>pred_all.
           and_then (r2_score true_all pred_all) (\<lambda>r2_all_value.
             Inr \<lparr>r2 = map s_r2 steps,
                  r2_all = replicate (length steps) r2_all_value,
                  rmse = map s_rmse steps,
                  mae = map s_mae steps,
                  r_rmse = map s_r_rmse steps,
                  cor_value = map s_cor_value steps\<rparr>)))))"

text \<open>
  A three-dimensional array \<open>[step, sample, field]\<close> as nested lists.  The arrays of a store are
  rectangular with the same number of samples per step and of fields; the trailing dimensions
  of an array without steps or without samples are not represented.  A Python dictionary is
  an association list in insertion order.
\<close>

type_synonym tensor = "float list list list"

type_synonym 'a dict = "(string \<times> 'a) list"

definition lookup :: "'a dict \<Rightarrow> string \<Rightarrow> error + 'a" where
  "lookup d k = (case map_of d k of None \<Rightarrow> Inl KeyError | Some v \<Rightarrow> Inr v)"

text \<open>\<^verbatim>\<open>arr[:, :, col]\<close>: an \<^verbatim>\<open>IndexError\<close> when the array has no such column.\<close>

definition np_col :: "tensor \<Rightarrow> nat \<Rightarrow> error + float list list" where
  "np_col arr col =
     (if \<forall>s \<in> set arr. \<forall>r \<in> set s. col < length r
      then Inr (map (map (\<lambda>r. r ! col)) arr) else Inl IndexError)"

record score = column_score +
  "output" :: string
  field :: string

record result = score +
  subject :: string

text \<open>
  The body of the two loops of \<^verbatim>\<open>get_all_scores\<close> for one output name and one of its fields.
  Only the \<^verbatim>\<open>KeyError\<close> of \<^verbatim>\<open>weights[output_name]\<close> is caught, and replaced by the all-true
  mask.
\<close>

definition score_one_field ::
  "tensor dict \<Rightarrow> tensor dict \<Rightarrow> tensor dict \<Rightarrow> string \<Rightarrow> nat \<Rightarrow> string \<Rightarrow> error + score" where
  "score_one_field y_true y_pred weights output_name col field_name =
     and_then (lookup y_true output_name) (\<lambda>yt.
     and_then (np_col yt col) (\<lambda>y_true_one_field.
     and_then (lookup y_pred output_name) (\<lambda>yp.
     and_then (np_col yp col) (\<lambda>y_pred_one_field.
     and_then (case map_of weights output_name of
                 None \<Rightarrow> Inr (map (map (\<lambda>_. True)) y_true_one_field)
               | Some wt \<Rightarrow> and_then (np_col wt col) (\<lambda>wc. Inr (map (map (\<lambda>v. v = Fin 1)) wc)))
       (\<lambda>weight_one_field.
     and_then (get_column_score y_true_one_field y_pred_one_field weight_one_field) (\<lambda>cs.
       Inr \<lparr>r2 = r2 cs, r2_all = r2_all cs, rmse = rmse cs, mae = mae cs, r_rmse = r_rmse cs,
            cor_value = cor_value cs, output = output_name, field = field_name\<rparr>))))))"

text \<open>The pairs the two nested loops over \<^verbatim>\<open>self._y_fields\<close> visit, in order.\<close>

definition field_columns :: "string list dict \<Rightarrow> (string \<times> nat \<times> string) list" where
  "field_columns fields_dict =
     concat (map (\<lambda>(output_name, fields). map (\<lambda>(col, f). (output_name, col, f)) (enumerate 0 fields))
               fields_dict)"

definition get_all_scores ::
  "string list dict \<Rightarrow> tensor dict \<Rightarrow> tensor dict \<Rightarrow> tensor dict \<Rightarrow> error + score list" where
  "get_all_scores y_fields_of_self y_true y_pred weights =
     map_err (\<lambda>(output_name, col, field_name).
                score_one_field y_true y_pred weights output_name col field_name)
       (field_columns y_fields_of_self)"

section \<open>The mean results of cross-validation\<close>

text \<open>\<^verbatim>\<open>np.mean\<close> of a one-dimensional array: the sum over the count, NaN for an empty array.\<close>

definition np_mean :: "float list \<Rightarrow> float" where
  "np_mean xs = fdiv (foldl fadd (Fin 0) xs) (Fin (real (length xs)))"

text \<open>Rounding to the nearest integer, a tie to the even one, as \<^verbatim>\<open>np.rint\<close> does.\<close>

definition rint :: "real \<Rightarrow> real" where
  "rint x =
     (let f = \<lfloor>x\<rfloor>; d = x - of_int f
      in if d < 1 / 2 then of_int f
         else if 1 / 2 < d then of_int (f + 1)
         else if even f then of_int f else of_int (f + 1))"

text \<open>\<^verbatim>\<open>np.round(x, 3)\<close>\<close>

definition np_round3 :: "float \<Rightarrow> float" where
  "np_round3 x = (case x of Fin a \<Rightarrow> Fin (rint (a * 1000) / 1000) | _ \<Rightarrow> x)"

text \<open>\<^verbatim>\<open>np.concatenate\<close> of one-dimensional arrays: a \<^verbatim>\<open>ValueError\<close> without any array.\<close>

definition np_concatenate1 :: "float list list \<Rightarrow> error + float list" where
  "np_concatenate1 arrs = (if arrs = [] then Inl ValueError else Inr (concat arrs))"

definition mean_metric :: "(result \<Rightarrow> float list) \<Rightarrow> result list \<Rightarrow> error + float" where
  "mean_metric metric field_results =
     and_then (np_concatenate1 (map metric field_results)) (\<lambda>values. Inr (np_round3 (np_mean values)))"

record mean_result =
  m_output :: string
  m_field :: string
  m_r2 :: float
  m_rmse :: float
  m_mae :: float
  m_r_rmse :: float
  m_cor_value :: float

definition field_pairs :: "string list dict \<Rightarrow> (string \<times> string) list" where
  "field_pairs fields_dict =
     concat (map (\<lambda>(output_name, fields). map (\<lambda>f. (output_name, f)) fields) fields_dict)"

text \<open>The second half of \<^verbatim>\<open>cross_validation\<close>: the table of mean results.\<close>

definition mean_results :: "string list dict \<Rightarrow> result list \<Rightarrow> error + mean_result list" where
  "mean_results y_fields_of_self results =
     map_err (\<lambda>(output_name, field_name).
        (let field_results = filter (\<lambda>x. output x = output_name \<and> field x = field_name) results
         in and_then (mean_metric r2 field_results) (\<lambda>v_r2.
            and_then (mean_metric rmse field_results) (\<lambda>v_rmse.
            and_then (mean_metric mae field_results) (\<lambda>v_mae.
            and_then (mean_metric r_rmse field_results) (\<lambda>v_r_rmse.
            and_then (mean_metric cor_value field_results) (\<lambda>v_cor_value.
              Inr \<lparr>m_output = output_name, m_field = field_name, m_r2 = v_r2, m_rmse = v_rmse,
                   m_mae = v_mae, m_r_rmse = v_r_rmse, m_cor_value = v_cor_value\<rparr>)))))))
       (field_pairs y_fields_of_self)"

section \<open>The scaler (sklearn.preprocessing.MinMaxScaler)\<close>

text \<open>
  The default \<^verbatim>\<open>base_scalar\<close> is scikit-learn's \<^verbatim>\<open>MinMaxScaler\<close> with its default feature
  range \<open>(0, 1)\<close>; it is not part of the repository and is modelled from its documented
  behaviour.  It works on a matrix of samples (rows) by features (columns).  Its input check
  accepts NaN and raises a \<^verbatim>\<open>ValueError\<close> for an infinity, for a matrix without samples and
  for one without features.  Fitting ignores NaN (\<^verbatim>\<open>nanmin\<close>, \<^verbatim>\<open>nanmax\<close>), a column of NaN
  only having NaN as its minimum and maximum, and a range of zero is replaced by one.
\<close>

type_synonym matrix = "float list list"

text \<open>
  A fitted scaler holds the attributes \<^verbatim>\<open>data_min_\<close>, \<^verbatim>\<open>data_max_\<close>, \<^verbatim>\<open>scale_\<close> and \<^verbatim>\<open>min_\<close>,
  arrays with one entry per feature; the model keeps the four entries of a feature together.
\<close>

type_synonym feature_params = "float \<times> float \<times> float \<times> float"

datatype scaler =
    Unfitted
  | Fitted "feature_params list"

definition matrix_ok :: "matrix \<Rightarrow> bool" where
  "matrix_ok X \<longleftrightarrow>
     (case X of [] \<Rightarrow> False | r # _ \<Rightarrow> r \<noteq> []) \<and> (\<forall>r \<in> set X. \<forall>v \<in> set r. v \<noteq> PInf \<and> v \<noteq> NInf)"

definition n_features :: "matrix \<Rightarrow> nat" where
  "n_features X = (case X of [] \<Rightarrow> 0 | r # _ \<Rightarrow> length r)"

definition column :: "matrix \<Rightarrow> nat \<Rightarrow> float list" where
  "column X j = map (\<lambda>r. r ! j) X"

definition nanmin :: "float list \<Rightarrow> float" where
  "nanmin xs = (case finite_values xs of [] \<Rightarrow> NaN | v # vs \<Rightarrow> Fin (fold min vs v))"

definition nanmax :: "float list \<Rightarrow> float" where
  "nanmax xs = (case finite_values xs of [] \<Rightarrow> NaN | v # vs \<Rightarrow> Fin (fold max vs v))"

definition handle_zeros_in_scale :: "float \<Rightarrow> float" where
  "handle_zeros_in_scale r = (if r = Fin 0 then Fin 1 else r)"

definition fit_feature :: "float list \<Rightarrow> feature_params" where
  "fit_feature col =
     (let data_min = nanmin col;
          data_max = nanmax col;
          data_range = fsub data_max data_min;
          scale = fdiv (Fin 1) (handle_zeros_in_scale data_range);
          mn = fsub (Fin 0) (fmul data_min scale)
      in (data_min, data_max, scale, mn))"

definition minmax_fit :: "matrix \<Rightarrow> error + scaler" where
  "minmax_fit X =
     (if \<not> matrix_ok X then Inl ValueError
      else Inr (Fitted (map (\<lambda>j. fit_feature (column X j)) [0 ..< n_features X])))"

definition transform_value :: "float \<times> feature_params \<Rightarrow> float" where
  "transform_value xp = (case xp of (x, data_min, data_max, scale, mn) \<Rightarrow> fadd (fmul x scale) mn)"

definition minmax_transform :: "scaler \<Rightarrow> matrix \<Rightarrow> error + matrix" where
  "minmax_transform sc X =
     (case sc of
        Unfitted \<Rightarrow> Inl NotFittedError
      | Fitted params \<Rightarrow>
          if \<not> matrix_ok X \<or> n_features X \<noteq> length params then Inl ValueError
          else Inr (map (\<lambda>r. map transform_value (zip r params)) X))"

text \<open>
  The three methods \<^verbatim>\<open>normalize_data\<close> is documented to dispatch to by name.  \<^verbatim>\<open>fit\<close> returns
  the scaler itself, the other two a new array.
\<close>

datatype scaler_method = Fit | Transform | Fit_transform

datatype method_result = Self | Array matrix

definition call_method :: "scaler \<Rightarrow> scaler_method \<Rightarrow> matrix \<Rightarrow> error + (method_result \<times> scaler)" where
  "call_method sc meth X =
     (case meth of
        Fit \<Rightarrow> and_then (minmax_fit X) (\<lambda>sc'. Inr (Self, sc'))
      | Transform \<Rightarrow> and_then (minmax_transform sc X) (\<lambda>Y. Inr (Array Y, sc))
      | Fit_transform \<Rightarrow>
          and_then (minmax_fit X) (\<lambda>sc'.
          and_then (minmax_transform sc' X) (\<lambda>Y. Inr (Array Y, sc'))))"

section \<open>Array operations of the normalizer\<close>

definition shape3 :: "tensor \<Rightarrow> nat \<times> nat \<times> nat" where
  "shape3 t =
     (length t,
      (case t of [] \<Rightarrow> 0 | s # _ \<Rightarrow> length s),
      (case t of [] \<Rightarrow> 0 | s # _ \<Rightarrow> (case s of [] \<Rightarrow> 0 | r # _ \<Rightarrow> length r)))"

text \<open>An array of shape \<open>(N, S, F)\<close>: \<open>N\<close> steps of \<open>S\<close> samples of \<open>F\<close> fields each.\<close>

definition rectangular :: "tensor \<Rightarrow> bool" where
  "rectangular t \<longleftrightarrow>
     (\<forall>s \<in> set t. length s = fst (snd (shape3 t)) \<and> (\<forall>r \<in> set s. length r = snd (snd (shape3 t))))"

definition ravel :: "tensor \<Rightarrow> float list" where
  "ravel t = concat (concat t)"

text \<open>\<^verbatim>\<open>arr.reshape([-1, C])\<close> of the elements in row-major order.\<close>

definition reshape2 :: "nat \<Rightarrow> float list \<Rightarrow> error + matrix" where
  "reshape2 C flat =
     (if C = 0 \<or> length flat mod C \<noteq> 0 then Inl ValueError
      else Inr (map (\<lambda>r. map (\<lambda>c. flat ! (r * C + c)) [0 ..< C]) [0 ..< length flat div C]))"

text \<open>\<^verbatim>\<open>arr.reshape(original_shape)\<close>\<close>

definition reshape3 :: "nat \<times> nat \<times> nat \<Rightarrow> float list \<Rightarrow> error + tensor" where
  "reshape3 shp flat =
     (case shp of (N, S, F) \<Rightarrow>
        if length flat \<noteq> N * S * F then Inl ValueError
        else Inr (map (\<lambda>i. map (\<lambda>j. map (\<lambda>k. flat ! ((i * S + j) * F + k)) [0 ..< F]) [0 ..< S])
                    [0 ..< N]))"

text \<open>\<^verbatim>\<open>input_data[(input_data == 0.).all(axis=2), :] = np.nan\<close>\<close>

definition sentinel :: "float list \<Rightarrow> bool" where
  "sentinel sample \<longleftrightarrow> (\<forall>v \<in> set sample. v = Fin 0)"

definition mask_sentinel :: "tensor \<Rightarrow> tensor" where
  "mask_sentinel t = map (map (\<lambda>sample. if sentinel sample then map (\<lambda>_. NaN) sample else sample)) t"

text \<open>\<^verbatim>\<open>input_data[np.isnan(input_data)] = 0.\<close>\<close>

definition nan_to_zero :: "tensor \<Rightarrow> tensor" where
  "nan_to_zero t = map (map (map (\<lambda>v. if isnan v then Fin 0 else v))) t"

section \<open>The pipeline on a store of arrays (BaseModel)\<close>

text \<open>
  Arrays are objects: two names can refer to one array, and an assignment through an index
  changes the array for both.  The arrays live in a store, a list of their contents, and an
  array is referred to by its position there; a new array goes to the end.  Python never
  holds a reference to an array that does not exist, so a position read from a dictionary of
  the pipeline is a position of the store.

  The mutable state of a \<^verbatim>\<open>BaseModel\<close> is the contents of \<^verbatim>\<open>self._data_scalar\<close>, the scaler
  object of each field group, and the arrays.  Its other attributes are never assigned after
  \<^verbatim>\<open>__init__\<close>.
\<close>

type_synonym addr = nat

record state =
  data_scalar :: "scaler dict"
  heap :: "tensor list"

record BaseModel =
  x_fields :: "string list dict"
  y_fields :: "string list dict"
  weights :: "string list dict"
  data_all_sub :: "addr dict"
  data_fields :: "string list"

text \<open>
  \<^verbatim>\<open>self._data_scalar\<close> as \<^verbatim>\<open>__init__\<close> builds it: a fresh scaler for every name of
  \<open>x_fields\<close> and of \<open>y_fields\<close>.
\<close>

definition init_data_scalar :: "string list dict \<Rightarrow> string list dict \<Rightarrow> scaler dict" where
  "init_data_scalar xf yf = foldl (\<lambda>d name. AList.update name Unfitted d) [] (map fst xf @ map fst yf)"

definition new_array :: "tensor \<Rightarrow> state \<Rightarrow> addr \<times> state" where
  "new_array t st = (length (heap st), st\<lparr>heap := heap st @ [t]\<rparr>)"

text \<open>The contents of the arrays a dictionary refers to.\<close>

definition deref :: "tensor list \<Rightarrow> addr dict \<Rightarrow> tensor dict" where
  "deref h d = map (\<lambda>(name, a). (name, h ! a)) d"

text \<open>\<^verbatim>\<open>data[:, :, locs]\<close> with a list of column positions: a new array.\<close>

definition take_cols :: "tensor \<Rightarrow> nat list \<Rightarrow> error + tensor" where
  "take_cols data locs =
     (if \<forall>s \<in> set data. \<forall>r \<in> set s. \<forall>l \<in> set locs. l < length r
      then Inr (map (map (\<lambda>r. map (\<lambda>l. r ! l) locs)) data) else Inl IndexError)"

text \<open>
  \<^verbatim>\<open>_get_raw_data_dict\<close>: for every group, the positions of its fields in \<^verbatim>\<open>self._data_fields\<close>
  (\<^verbatim>\<open>list.index\<close> raises a \<^verbatim>\<open>ValueError\<close> for an unknown field), the array of these columns,
  and a copy of that array.
\<close>

fun get_raw_loop ::
  "string list \<Rightarrow> addr \<Rightarrow> string list dict \<Rightarrow> addr dict \<Rightarrow> state \<Rightarrow> error + (addr dict \<times> state)" where
  "get_raw_loop fields_of_data data [] data_dict st = Inr (data_dict, st)"
| "get_raw_loop fields_of_data data ((input_name, input_fields) # rest) data_dict st =
     and_then (map_err (index_of fields_of_data) input_fields) (\<lambda>x_field_col_loc.
     and_then (take_cols (heap st ! data) x_field_col_loc) (\<lambda>columns_of_data.
       (let (sliced, st) = new_array columns_of_data st;
            (copied, st) = new_array (heap st ! sliced) st
        in get_raw_loop fields_of_data data rest (AList.update input_name copied data_dict) st)))"

definition get_raw_data_dict ::
  "BaseModel \<Rightarrow> addr \<Rightarrow> string list dict \<Rightarrow> state \<Rightarrow> error + (addr dict \<times> state)" where
  "get_raw_data_dict self data fields_dict st = get_raw_loop (data_fields self) data fields_dict [] st"

datatype scalar_mode = By_each_column | By_all_columns

text \<open>
  The body of the loop of \<^verbatim>\<open>normalize_data\<close> for one group.  The group's array is copied, the
  copy gets NaN in its all-zero samples, the scaler's method is called on the reshaped copy,
  and what the method returns is reshaped back and gets zero in place of NaN.  Reshaping does
  not copy.  \<^verbatim>\<open>fit\<close> returns the scaler, which has no \<^verbatim>\<open>reshape\<close>: an \<^verbatim>\<open>AttributeError\<close>.
  The dictionary \<open>scalars\<close> of the source is \<^verbatim>\<open>self._data_scalar\<close> at every call.  A state
  is returned only when nothing is raised; no caller catches an exception.
\<close>

definition normalize_one ::
  "scaler_method \<Rightarrow> scalar_mode \<Rightarrow> string \<Rightarrow> addr \<Rightarrow> state \<Rightarrow> error + (addr \<times> state)" where
  "normalize_one meth mode input_name input_data st =
     (let (input_data, st) = new_array (heap st ! input_data) st;
          original_shape = shape3 (heap st ! input_data);
          target_columns = (case mode of By_each_column \<Rightarrow> snd (snd original_shape) | By_all_columns \<Rightarrow> 1);
          st = st\<lparr>heap := (heap st)[input_data := mask_sentinel (heap st ! input_data)]\<rparr>
      in and_then (reshape2 target_columns (ravel (heap st ! input_data))) (\<lambda>X.
         and_then (lookup (data_scalar st) input_name) (\<lambda>sc.
         and_then (call_method sc meth X) (\<lambda>(returned, sc).
           (let st = st\<lparr>data_scalar := AList.update input_name sc (data_scalar st)\<rparr>
            in case returned of
                 Self \<Rightarrow> Inl AttributeError
               | Array Y \<Rightarrow>
                   and_then (reshape3 original_shape (concat Y)) (\<lambda>reshaped.
                     (let (input_data, st) = new_array reshaped st;
                          st = st\<lparr>heap := (heap st)[input_data := nan_to_zero (heap st ! input_data)]\<rparr>
                      in Inr (input_data, st))))))))"

fun normalize_loop ::
  "scaler_method \<Rightarrow> scalar_mode \<Rightarrow> addr dict \<Rightarrow> addr dict \<Rightarrow> state \<Rightarrow> error + (addr dict \<times> state)" where
  "normalize_loop meth mode [] scaled_date st = Inr (scaled_date, st)"
| "normalize_loop meth mode ((input_name, input_data) # rest) scaled_date st =
     and_then (normalize_one meth mode input_name input_data st) (\<lambda>(scaled, st).
       normalize_loop meth mode rest (AList.update input_name scaled scaled_date) st)"

definition normalize_data ::
  "addr dict \<Rightarrow> scaler_method \<Rightarrow> scalar_mode \<Rightarrow> state \<Rightarrow> error + (addr dict \<times> state)" where
  "normalize_data data meth mode st = normalize_loop meth mode data [] st"

text \<open>
  \<^verbatim>\<open>preprocess_train_data\<close> and \<^verbatim>\<open>preprocess_validation_test_data\<close> call \<^verbatim>\<open>normalize_data\<close>,
  do not use what it returns, and return their arguments.
\<close>

definition preprocess_train_data ::
  "addr dict \<Rightarrow> addr dict \<Rightarrow> state \<Rightarrow> error + ((addr dict \<times> addr dict) \<times> state)" where
  "preprocess_train_data x y st =
     and_then (normalize_data x Fit_transform By_each_column st) (\<lambda>(unused, st). Inr ((x, y), st))"

definition preprocess_validation_test_data ::
  "addr dict \<Rightarrow> addr dict \<Rightarrow> state \<Rightarrow> error + ((addr dict \<times> addr dict) \<times> state)" where
  "preprocess_validation_test_data x y st =
     and_then (normalize_data x Transform By_each_column st) (\<lambda>(unused, st). Inr ((x, y), st))"

text \<open>
  The pluggable model: \<^verbatim>\<open>train_model\<close> and \<^verbatim>\<open>predict\<close> of a subclass.  Both get references to
  arrays and may read and write the store; \<open>None\<close> stands for Python's \<^verbatim>\<open>None\<close>.  The methods
  of \<^verbatim>\<open>BaseModel\<close> itself raise \<^verbatim>\<open>RuntimeError('Method not implemented')\<close>.
\<close>

record train_args =
  x_train :: "addr dict"
  y_train :: "addr dict"
  x_validation :: "addr dict option"
  y_validation :: "addr dict option"
  validation_weight :: "addr dict option"

record 'm capability =
  train_model :: "train_args \<Rightarrow> tensor list \<Rightarrow> error + ('m \<times> tensor list)"
  predict :: "'m \<Rightarrow> addr dict \<Rightarrow> tensor list \<Rightarrow> error + (addr dict \<times> tensor list)"

definition base_capability :: "'m capability" where
  "base_capability = \<lparr>train_model = (\<lambda>args h. Inl RuntimeError), predict = (\<lambda>m x h. Inl RuntimeError)\<rparr>"

text \<open>\<^verbatim>\<open>np.concatenate(arrays, axis=0)\<close>: a new array; a \<^verbatim>\<open>ValueError\<close> without any array.\<close>

definition np_concatenate :: "addr list \<Rightarrow> state \<Rightarrow> error + (addr \<times> state)" where
  "np_concatenate arrays st =
     (if arrays = [] then Inl ValueError
      else Inr (new_array (concat (map (\<lambda>a. heap st ! a) arrays)) st))"

text \<open>
  \<^verbatim>\<open>preprocess_and_train\<close>.  \<open>shuffle\<close> is \<^verbatim>\<open>sklearn.utils.shuffle\<close> with \<^verbatim>\<open>random_state=0\<close>, a
  fixed rearrangement of the steps that returns a new array.
\<close>

definition validation_data_of ::
  "BaseModel \<Rightarrow> addr list \<Rightarrow> state
     \<Rightarrow> error + ((addr dict option \<times> addr dict option \<times> addr dict option) \<times> state)" where
  "validation_data_of self validation_data_list st =
     (if validation_data_list = [] then Inr ((None, None, None), st)
      else and_then (np_concatenate validation_data_list st) (\<lambda>(validation_data, st).
           and_then (get_raw_data_dict self validation_data (x_fields self) st) (\<lambda>(x_val, st).
           and_then (get_raw_data_dict self validation_data (y_fields self) st) (\<lambda>(y_val, st).
           and_then (get_raw_data_dict self validation_data (weights self) st) (\<lambda>(val_weight, st).
           and_then (preprocess_validation_test_data x_val y_val st) (\<lambda>((x_val, y_val), st).
             Inr ((Some x_val, Some y_val, Some val_weight), st)))))))"

definition train_arguments ::
  "(tensor \<Rightarrow> tensor) \<Rightarrow> BaseModel \<Rightarrow> string list \<Rightarrow> string list \<Rightarrow> state
     \<Rightarrow> error + (train_args \<times> state)" where
  "train_arguments shuffle self train_sub_ids validate_sub_ids st =
     and_then (map_err (lookup (data_all_sub self)) train_sub_ids) (\<lambda>train_data_list.
     and_then (np_concatenate train_data_list st) (\<lambda>(train_data, st).
       (let (train_data, st) = new_array (shuffle (heap st ! train_data)) st
        in and_then (get_raw_data_dict self train_data (x_fields self) st) (\<lambda>(x_tr, st).
           and_then (get_raw_data_dict self train_data (y_fields self) st) (\<lambda>(y_tr, st).
           and_then (preprocess_train_data x_tr y_tr st) (\<lambda>((x_tr, y_tr), st).
           and_then (map_err (lookup (data_all_sub self)) validate_sub_ids) (\<lambda>validation_data_list.
           and_then (validation_data_of self validation_data_list st) (\<lambda>((x_val, y_val, val_weight), st).
             Inr (\<lparr>x_train = x_tr, y_train = y_tr, x_validation = x_val, y_validation = y_val,
                   validation_weight = val_weight\<rparr>, st)))))))))"

definition preprocess_and_train ::
  "'m capability \<Rightarrow> (tensor \<Rightarrow> tensor) \<Rightarrow> BaseModel \<Rightarrow> string list \<Rightarrow> string list \<Rightarrow> state
     \<Rightarrow> error + ('m \<times> state)" where
  "preprocess_and_train cap shuffle self train_sub_ids validate_sub_ids st =
     and_then (train_arguments shuffle self train_sub_ids validate_sub_ids st) (\<lambda>(args, st).
     and_then (train_model cap args (heap st)) (\<lambda>(model, h).
       Inr (model, st\<lparr>heap := h\<rparr>)))"

text \<open>
  The body of the loop of \<^verbatim>\<open>model_evaluation\<close> for one test subject.  \<^verbatim>\<open>customized_analysis\<close>
  only draws and is left out.
\<close>

definition evaluate_subject ::
  "'m capability \<Rightarrow> BaseModel \<Rightarrow> 'm \<Rightarrow> string \<Rightarrow> addr \<Rightarrow> state \<Rightarrow> error + (result list \<times> state)" where
  "evaluate_subject cap self model test_sub_name test_sub_data st =
     and_then (get_raw_data_dict self test_sub_data (x_fields self) st) (\<lambda>(test_sub_x, st).
     and_then (get_raw_data_dict self test_sub_data (y_fields self) st) (\<lambda>(test_sub_y, st).
     and_then (get_raw_data_dict self test_sub_data (weights self) st) (\<lambda>(test_sub_weight, st).
     and_then (preprocess_validation_test_data test_sub_x test_sub_y st) (\<lambda>((test_sub_x, test_sub_y), st).
     and_then (predict cap model test_sub_x (heap st)) (\<lambda>(pred_sub_y, h).
       (let st = st\<lparr>heap := h\<rparr>
        in and_then (get_all_scores (y_fields self) (deref (heap st) test_sub_y)
                       (deref (heap st) pred_sub_y) (deref (heap st) test_sub_weight)) (\<lambda>all_scores.
             Inr (map (\<lambda>scores. \<lparr>r2 = r2 scores, r2_all = r2_all scores, rmse = rmse scores,
                                  mae = mae scores, r_rmse = r_rmse scores,
                                  cor_value = cor_value scores, output = output scores,
                                  field = field scores, subject = test_sub_name\<rparr>) all_scores,
                  st))))))))"

fun evaluation_loop ::
  "'m capability \<Rightarrow> BaseModel \<Rightarrow> 'm \<Rightarrow> (string \<times> addr) list \<Rightarrow> result list \<Rightarrow> state
     \<Rightarrow> error + (result list \<times> state)" where
  "evaluation_loop cap self model [] test_results st = Inr (test_results, st)"
| "evaluation_loop cap self model ((test_sub_name, test_sub_data) # rest) test_results st =
     and_then (evaluate_subject cap self model test_sub_name test_sub_data st) (\<lambda>(all_scores, st).
       evaluation_loop cap self model rest (test_results @ all_scores) st)"

definition model_evaluation ::
  "'m capability \<Rightarrow> BaseModel \<Rightarrow> 'm \<Rightarrow> string list \<Rightarrow> state \<Rightarrow> error + (result list \<times> state)" where
  "model_evaluation cap self model test_sub_ids st =
     and_then (map_err (lookup (data_all_sub self)) test_sub_ids) (\<lambda>test_data_list.
       evaluation_loop cap self model (zip test_sub_ids test_data_list) [] st)"

definition preprocess_train_evaluation ::
  "'m capability \<Rightarrow> (tensor \<Rightarrow> tensor) \<Rightarrow> BaseModel \<Rightarrow> string list \<Rightarrow> string list \<Rightarrow> string list
     \<Rightarrow> state \<Rightarrow> error + (result list \<times> state)" where
  "preprocess_train_evaluation cap shuffle self train_sub_ids validate_sub_ids test_sub_ids st =
     and_then (preprocess_and_train cap shuffle self train_sub_ids validate_sub_ids st) (\<lambda>(model, st).
       model_evaluation cap self model test_sub_ids st)"

text \<open>
  \<^verbatim>\<open>cross_validation\<close>: the loop over the folds, every fold evaluated with its test subjects
  as the validation subjects too, and the table of mean results.  The source prints the two
  tables; the model returns them.
\<close>

fun cross_validation_loop ::
  "'m capability \<Rightarrow> (tensor \<Rightarrow> tensor) \<Rightarrow> BaseModel
     \<Rightarrow> (string list \<times> string list \<times> string list) list \<Rightarrow> result list \<Rightarrow> state
     \<Rightarrow> error + (result list \<times> state)" where
  "cross_validation_loop cap shuffle self [] results st = Inr (results, st)"
| "cross_validation_loop cap shuffle self ((train_sub_ids, validate_sub_ids, test_sub_ids) # rest) results st =
     and_then (preprocess_train_evaluation cap shuffle self train_sub_ids validate_sub_ids test_sub_ids st)
       (\<lambda>(test_results, st).
          cross_validation_loop cap shuffle self rest (results @ test_results) st)"

definition cross_validation ::
  "'m capability \<Rightarrow> (tensor \<Rightarrow> tensor) \<Rightarrow> BaseModel \<Rightarrow> string list \<Rightarrow> nat \<Rightarrow> state
     \<Rightarrow> error + ((result list \<times> mean_result list) \<times> state)" where
  "cross_validation cap shuffle self sub_ids test_set_sub_num st =
     (if test_set_sub_num = 0 then Inl ZeroDivisionError
      else and_then (cross_validation_loop cap shuffle self (cv_folds sub_ids test_set_sub_num) [] st)
             (\<lambda>(results, st).
           and_then (mean_results (y_fields self) results) (\<lambda>means. Inr ((results, means), st))))"

section \<open>Value-level descriptions of what the pipeline builds\<close>

text \<open>The array extracted for one group: the columns of its fields.\<close>

definition raw_group :: "string list \<Rightarrow> tensor \<Rightarrow> string list \<Rightarrow> error + tensor" where
  "raw_group fields_of_data t input_fields =
     and_then (map_err (index_of fields_of_data) input_fields) (take_cols t)"

definition raw_arrays :: "string list \<Rightarrow> tensor \<Rightarrow> string list dict \<Rightarrow> error + tensor list" where
  "raw_arrays fields_of_data t fields_dict =
     map_err (\<lambda>(input_name, input_fields). raw_group fields_of_data t input_fields) fields_dict"

text \<open>
  The positions \<^verbatim>\<open>_get_raw_data_dict\<close> stores its arrays at, when the store holds \<open>n\<close> arrays
  before: two new arrays per group, the second one entered in the dictionary.
\<close>

fun raw_addrs :: "nat \<Rightarrow> string list dict \<Rightarrow> addr dict \<Rightarrow> addr dict" where
  "raw_addrs n [] data_dict = data_dict"
| "raw_addrs n ((input_name, input_fields) # rest) data_dict =
     raw_addrs (n + 2) rest (AList.update input_name (n + 1) data_dict)"

text \<open>A dictionary of arrays built from the groups' names and their arrays.\<close>

fun value_dict :: "string list dict \<Rightarrow> tensor list \<Rightarrow> tensor dict \<Rightarrow> tensor dict" where
  "value_dict ((input_name, input_fields) # rest) (v # vs) d =
     value_dict rest vs (AList.update input_name v d)"
| "value_dict fields_dict vs d = d"

text \<open>
  What the pluggable model may do to the store: write to the arrays it was handed and create
  new ones.
\<close>

definition writes_only :: "addr set \<Rightarrow> tensor list \<Rightarrow> tensor list \<Rightarrow> bool" where
  "writes_only A h h' \<longleftrightarrow> length h \<le> length h' \<and> (\<forall>a < length h. a \<notin> A \<longrightarrow> h' ! a = h ! a)"

definition dict_addrs :: "addr dict option \<Rightarrow> addr set" where
  "dict_addrs d = (case d of None \<Rightarrow> {} | Some xs \<Rightarrow> snd ` set xs)"

definition args_addrs :: "train_args \<Rightarrow> addr set" where
  "args_addrs args =
     snd ` set (x_train args) \<union> snd ` set (y_train args) \<union> dict_addrs (x_validation args)
       \<union> dict_addrs (y_validation args) \<union> dict_addrs (validation_weight args)"

definition well_behaved :: "'m capability \<Rightarrow> bool" where
  "well_behaved cap \<longleftrightarrow>
     (\<forall>args h m h'. train_model cap args h = Inr (m, h') \<longrightarrow> writes_only (args_addrs args) h h')
   \<and> (\<forall>m x h y h'. predict cap m x h = Inr (y, h') \<longrightarrow> writes_only (snd ` set x) h h')"

text \<open>The number of columns \<^verbatim>\<open>normalize_data\<close> reshapes a group's array to.\<close>

definition target_columns :: "scalar_mode \<Rightarrow> tensor \<Rightarrow> nat" where
  "target_columns mode t =
     (case mode of By_each_column \<Rightarrow> snd (snd (shape3 t)) | By_all_columns \<Rightarrow> 1)"

text \<open>
  What the body of the loop of \<^verbatim>\<open>normalize_data\<close> computes for a group with array \<open>t\<close> and
  scaler \<open>sc\<close>: the array \<open>out\<close> it enters in the result and the scaler \<open>sc'\<close> it leaves.
\<close>

definition group_output :: "scaler_method \<Rightarrow> scalar_mode \<Rightarrow> tensor \<Rightarrow> scaler \<Rightarrow> tensor \<Rightarrow> scaler \<Rightarrow> bool" where
  "group_output meth mode t sc out sc' \<longleftrightarrow>
     (\<exists>X Y r. reshape2 (target_columns mode t) (ravel (mask_sentinel t)) = Inr X
        \<and> call_method sc meth X = Inr (Array Y, sc')
        \<and> reshape3 (shape3 t) (concat Y) = Inr r \<and> out = nan_to_zero r)"

text \<open>
  The matrix the scaler sees for a list of samples: the samples as rows, or every value as a
  row of its own.
\<close>

definition rows_of :: "scalar_mode \<Rightarrow> float list list \<Rightarrow> matrix" where
  "rows_of mode samples =
     (case mode of By_each_column \<Rightarrow> samples | By_all_columns \<Rightarrow> map (\<lambda>v. [v]) (concat samples))"

definition mask_sample :: "float list \<Rightarrow> float list" where
  "mask_sample s = (if sentinel s then map (\<lambda>_. NaN) s else s)"

text \<open>
  A sequence of calls of the pipeline's operations on a model, from one state to another.
  Every call returns; an array handed to field extraction is an array of the store.
\<close>

inductive pipeline_run ::
  "'m capability \<Rightarrow> (tensor \<Rightarrow> tensor) \<Rightarrow> BaseModel \<Rightarrow> state \<Rightarrow> state \<Rightarrow> bool"
  for cap :: "'m capability" and shuffle :: "tensor \<Rightarrow> tensor" and self :: BaseModel where
  no_call: "pipeline_run cap shuffle self st st"
| extract_call:
    "get_raw_data_dict self data fields_dict st = Inr (d, st1) \<Longrightarrow> data < length (heap st) \<Longrightarrow>
     pipeline_run cap shuffle self st1 st' \<Longrightarrow> pipeline_run cap shuffle self st st'"
| normalize_call:
    "normalize_data x meth mode st = Inr (scaled, st1) \<Longrightarrow>
     pipeline_run cap shuffle self st1 st' \<Longrightarrow> pipeline_run cap shuffle self st st'"
| preprocess_train_call:
    "preprocess_train_data x y st = Inr (xy, st1) \<Longrightarrow>
     pipeline_run cap shuffle self st1 st' \<Longrightarrow> pipeline_run cap shuffle self st st'"
| preprocess_test_call:
    "preprocess_validation_test_data x y st = Inr (xy, st1) \<Longrightarrow>
     pipeline_run cap shuffle self st1 st' \<Longrightarrow> pipeline_run cap shuffle self st st'"
| train_call:
    "preprocess_and_train cap shuffle self train_sub_ids validate_sub_ids st = Inr (model, st1) \<Longrightarrow>
     pipeline_run cap shuffle self st1 st' \<Longrightarrow> pipeline_run cap shuffle self st st'"
| evaluate_call:
    "model_evaluation cap self model test_sub_ids st = Inr (test_results, st1) \<Longrightarrow>
     pipeline_run cap shuffle self st1 st' \<Longrightarrow> pipeline_run cap shuffle self st st'"
| train_evaluate_call:
    "preprocess_train_evaluation cap shuffle self train_sub_ids validate_sub_ids test_sub_ids st
       = Inr (test_results, st1) \<Longrightarrow>
     pipeline_run cap shuffle self st1 st' \<Longrightarrow> pipeline_run cap shuffle self st st'"
| cross_validation_call:
    "cross_validation cap shuffle self sub_ids test_set_sub_num st = Inr (tables, st1) \<Longrightarrow>
     pipeline_run cap shuffle self st1 st' \<Longrightarrow> pipeline_run cap shuffle self st st'"

text \<open>
  The weight mask \<^verbatim>\<open>get_all_scores\<close> builds for column \<open>col\<close> of the group \<open>output_name\<close>: the
  samples whose weight is 1, every sample when the weights have no such group (the expression
  of \<^verbatim>\<open>score_one_field\<close>).
\<close>

definition weight_mask :: "tensor dict \<Rightarrow> float list list \<Rightarrow> string \<Rightarrow> nat \<Rightarrow> error + bool list list" where
  "weight_mask weights_of_subject y_true_one_field output_name col =
     (case map_of weights_of_subject output_name of
        None \<Rightarrow> Inr (map (map (\<lambda>_. True)) y_true_one_field)
      | Some wt \<Rightarrow> and_then (np_col wt col) (\<lambda>wc. Inr (map (map (\<lambda>v. v = Fin 1)) wc)))"

text \<open>
  The dictionary of arrays \<^verbatim>\<open>_get_raw_data_dict\<close> extracts from a subject's array \<open>t\<close>, as
  values.
\<close>

definition subject_values :: "BaseModel \<Rightarrow> tensor \<Rightarrow> string list dict \<Rightarrow> error + tensor dict" where
  "subject_values self t fields_dict =
     and_then (raw_arrays (data_fields self) t fields_dict) (\<lambda>vs. Inr (value_dict fields_dict vs []))"

text \<open>
  The mean the specification describes for a metric of one (output, field) pair: the
  arithmetic mean, rounded to three decimals, of the concatenation of the per-step values of all
  records of the pair.
\<close>

definition concatenated_mean :: "(result \<Rightarrow> float list) \<Rightarrow> string \<Rightarrow> string \<Rightarrow> result list \<Rightarrow> float" where
  "concatenated_mean metric output_name field_name results =
     np_round3 (np_mean (concat (map metric
        (filter (\<lambda>x. output x = output_name \<and> field x = field_name) results))))"

text \<open>
  The results of the folds of \<^verbatim>\<open>cross_validation\<close>, fold by fold: what
  \<^verbatim>\<open>preprocess_train_evaluation\<close> returns for each fold, the store threaded through.
\<close>

fun fold_runs ::
  "'m capability \<Rightarrow> (tensor \<Rightarrow> tensor) \<Rightarrow> BaseModel
     \<Rightarrow> (string list \<times> string list \<times> string list) list \<Rightarrow> state
     \<Rightarrow> error + (result list list \<times> state)" where
  "fold_runs cap shuffle self [] st = Inr ([], st)"
| "fold_runs cap shuffle self ((train_sub_ids, validate_sub_ids, test_sub_ids) # rest) st =
     and_then (preprocess_train_evaluation cap shuffle self train_sub_ids validate_sub_ids test_sub_ids st)
       (\<lambda>(test_results, st).
          and_then (fold_runs cap shuffle self rest st) (\<lambda>(rs, st). Inr (test_results # rs, st)))"

section \<open>A small store\<close>

text \<open>
  A store with two fields and the subjects \<open>s1\<close>, \<open>s2\<close> and \<open>s3\<close>, one step each.  The first
  step of \<open>s1\<close> has an ordinary sample, an all-zero sample and a sample with a NaN.
\<close>

definition demo_model :: BaseModel where
  "demo_model =
     \<lparr>x_fields = [(''x'', [''f'', ''g''])], y_fields = [(''y'', [''g''])], weights = [],
      data_all_sub = [(''s1'', 0), (''s2'', 1), (''s3'', 2)], data_fields = [''f'', ''g'']\<rparr>"

definition demo_arrays :: "tensor list" where
  "demo_arrays =
     [[[[Fin 2, Fin 10], [Fin 0, Fin 0], [NaN, Fin 30]]],
      [[[Fin 4, Fin 20], [Fin 6, Fin 40], [Fin 8, Fin 50]]],
      [[[Fin 1, Fin 5], [Fin 3, Fin 7], [Fin 5, Fin 6]]]]"

definition demo_state :: state where
  "demo_state =
     \<lparr>data_scalar = init_data_scalar (x_fields demo_model) (y_fields demo_model),
      heap = demo_arrays\<rparr>"

text \<open>The state after the group \<open>x\<close> of the array of \<open>s1\<close> has been normalized with \<^verbatim>\<open>fit_transform\<close>.\<close>

definition demo_normalized_state :: state where
  "demo_normalized_state =
     \<lparr>data_scalar = [(''x'', Fitted [(Fin 2, Fin 2, Fin 1, Fin (- 2)),
                                      (Fin 10, Fin 30, Fin (1 / 20), Fin (- (1 / 2)))]),
                     (''y'', Unfitted)],
      heap = [[[[Fin 2, Fin 10], [Fin 0, Fin 0], [NaN, Fin 30]]],
              [[[Fin 4, Fin 20], [Fin 6, Fin 40], [Fin 8, Fin 50]]],
              [[[Fin 1, Fin 5], [Fin 3, Fin 7], [Fin 5, Fin 6]]],
              [[[Fin 2, Fin 10], [NaN, NaN], [NaN, Fin 30]]],
              [[[Fin 0, Fin 0], [Fin 0, Fin 0], [Fin 0, Fin 1]]]]\<rparr>"

text \<open>
  A model for the small store.  Training keeps the input arrays it was handed as the trained
  model; prediction answers with the second column of the group \<open>x\<close>, in a new array.
\<close>

definition demo_capability :: "tensor dict capability" where
  "demo_capability =
     \<lparr>train_model = (\<lambda>args h. Inr (deref h (x_train args), h)),
      predict = (\<lambda>model x h.
         case map_of x ''x'' of
           None \<Rightarrow> Inl KeyError
         | Some a \<Rightarrow> Inr ([(''y'', length h)], h @ [map (map (drop 1)) (h ! a)]))\<rparr>"

text \<open>A model whose training keeps the validation inputs it was handed.\<close>

definition peeking_capability :: "tensor dict capability" where
  "peeking_capability =
     \<lparr>train_model = (\<lambda>args h. Inr (case x_validation args of None \<Rightarrow> [] | Some xv \<Rightarrow> deref h xv, h)),
      predict = (\<lambda>model x h. Inl RuntimeError)\<rparr>"

text \<open>The small store with other values for subject \<open>s1\<close>, and nothing else changed.\<close>

definition demo_state_other_s1 :: state where
  "demo_state_other_s1 =
     demo_state\<lparr>heap := (heap demo_state)[0 := [[[Fin 7, Fin 70], [Fin 8, Fin 80], [Fin 9, Fin 90]]]]\<rparr>"

text \<open>
  A store with a weight column \<open>w\<close>: the second step of subject \<open>s2\<close> has one sample of weight
  1 only.
\<close>

definition masked_model :: BaseModel where
  "masked_model =
     \<lparr>x_fields = [(''x'', [''f'', ''g''])], y_fields = [(''y'', [''g''])], weights = [(''y'', [''w''])],
      data_all_sub = [(''s1'', 0), (''s2'', 1)], data_fields = [''f'', ''g'', ''w'']\<rparr>"

definition masked_state :: state where
  "masked_state =
     \<lparr>data_scalar = init_data_scalar (x_fields masked_model) (y_fields masked_model),
      heap = [[[[Fin 1, Fin 3, Fin 1], [Fin 2, Fin 5, Fin 1]]],
              [[[Fin 1, Fin 2, Fin 1], [Fin 3, Fin 4, Fin 1]],
               [[Fin 5, Fin 6, Fin 1], [Fin 7, Fin 8, Fin 0]]]]\<rparr>"

text \<open>
  A store with a target column \<open>h\<close> that differs from the predictions of the small model:
  subject \<open>s1\<close> has one step, subject \<open>s2\<close> two.
\<close>

definition steps_model :: BaseModel where
  "steps_model =
     \<lparr>x_fields = [(''x'', [''f'', ''g''])], y_fields = [(''y'', [''h''])], weights = [],
      data_all_sub = [(''s1'', 0), (''s2'', 1)], data_fields = [''f'', ''g'', ''h'']\<rparr>"

definition steps_state :: state where
  "steps_state =
     \<lparr>data_scalar = init_data_scalar (x_fields steps_model) (y_fields steps_model),
      heap = [[[[Fin 1, Fin 1, Fin 2], [Fin 2, Fin 3, Fin 5]]],
              [[[Fin 1, Fin 0, Fin 4], [Fin 2, Fin 2, Fin 7]],
               [[Fin 3, Fin 1, Fin 1], [Fin 4, Fin 2, Fin 4]]]]\<rparr>"

section \<open>Properties of the folds\<close>

lemma folder_num_div: "0 < k \<Longrightarrow> folder_num xs k = (length xs + k - 1) div k"
proof -
  assume k: "0 < k"
  let ?n = "length xs"
  let ?q = "(?n + k - 1) div k"
  have le: "real ?n / real k \<le> real ?q"
  proof -
    have "?n \<le> ?q * k"
    proof -
      have "?n + k - 1 = ?q * k + (?n + k - 1) mod k" by simp
      moreover have "(?n + k - 1) mod k < k" using k by simp
      ultimately show ?thesis by linarith
    qed
    then have "real ?n \<le> real ?q * real k" by (metis of_nat_le_iff of_nat_mult)
    then show ?thesis using k by (simp add: divide_le_eq)
  qed
  have gt: "real ?q - 1 < real ?n / real k"
  proof -
    have "?q * k \<le> ?n + k - 1" by simp
    then have "?q * k < ?n + k" using k by linarith
    then have "real ?q * real k < real ?n + real k"
      by (metis of_nat_less_iff of_nat_mult of_nat_add)
    then have "(real ?q - 1) * real k < real ?n" by (simp add: algebra_simps)
    then show ?thesis using k by (simp add: less_divide_eq)
  qed
  have "\<lceil>real ?n / real k\<rceil> = int ?q"
    by (rule ceiling_unique) (use le gt in auto)
  then show ?thesis by (simp add: folder_num_def)
qed

lemma concat_slices: "0 < k \<Longrightarrow> m * k \<ge> length xs \<Longrightarrow>
  concat (map (\<lambda>i. py_slice xs (k * i) (k * (i + 1))) [0 ..< m]) = xs"
proof (induction m arbitrary: xs)
  case 0
  then show ?case by simp
next
  case (Suc m)
  have sl: "\<And>i. py_slice xs (k * i) (k * (i + 1)) = take k (drop (k * i) xs)"
    by (simp add: py_slice_def)
  have "length (drop k xs) \<le> m * k" using Suc.prems by simp
  from Suc.IH[OF Suc.prems(1) this]
  have ih: "concat (map (\<lambda>i. take k (drop (k * i) (drop k xs))) [0 ..< m]) = drop k xs"
    by (simp add: py_slice_def)
  have "[0 ..< Suc m] = 0 # map Suc [0 ..< m]"
    by (simp add: upt_conv_Cons map_Suc_upt del: upt_Suc)
  then have "concat (map (\<lambda>i. take k (drop (k * i) xs)) [0 ..< Suc m])
      = take k xs @ concat (map (\<lambda>i. take k (drop (k * Suc i) xs)) [0 ..< m])"
    by (simp add: comp_def del: upt_Suc)
  also have "(\<lambda>i. take k (drop (k * Suc i) xs)) = (\<lambda>i. take k (drop (k * i) (drop k xs)))"
    by (simp add: add.commute)
  also have "take k xs @ concat (map (\<lambda>i. take k (drop (k * i) (drop k xs))) [0 ..< m]) = xs"
    using ih by simp
  finally show ?case by (simp add: py_slice_def del: upt_Suc)
qed

lemma set_setdiff1d: "set (setdiff1d xs ys) = set xs - set ys"
  by (auto simp: setdiff1d_def np_unique_def)

lemma slice_take_drop: "py_slice xs (k * i) (k * (i + 1)) = take k (drop (k * i) xs)"
  by (simp add: py_slice_def)

lemma slices_disjoint:
  assumes "distinct xs" "i < j"
  shows "set (take k (drop (k * i) xs)) \<inter> set (take k (drop (k * j) xs)) = {}"
proof -
  have a: "take k (drop (k * i) xs) = drop (k * i) (take (k * i + k) xs)"
    by (simp add: drop_take)
  have le: "k * i + k \<le> k * j"
  proof -
    have "Suc i \<le> j" using assms(2) by simp
    then have "k * Suc i \<le> k * j" by (rule mult_le_mono2)
    then show ?thesis by simp
  qed
  have "set (take (k * i + k) xs) \<inter> set (drop (k * j) xs) = {}"
    using assms(1) le by (rule set_take_disj_set_drop_if_distinct)
  moreover have "set (take k (drop (k * i) xs)) \<subseteq> set (take (k * i + k) xs)"
    unfolding a by (rule set_drop_subset)
  moreover have "set (take k (drop (k * j) xs)) \<subseteq> set (drop (k * j) xs)"
    by (rule set_take_subset)
  ultimately show ?thesis by blast
qed

lemma cv_folds_length: "length (cv_folds sub_ids k) = folder_num sub_ids k"
  by (simp add: cv_folds_def)

lemma cv_folds_nth:
  "i < folder_num sub_ids k \<Longrightarrow>
     cv_folds sub_ids k ! i =
       (setdiff1d sub_ids (take k (drop (k * i) sub_ids)),
        take k (drop (k * i) sub_ids), take k (drop (k * i) sub_ids))"
  by (simp add: cv_folds_def cv_fold_def Let_def py_slice_def)

lemma folder_num_bounds:
  assumes "0 < k" "i < folder_num xs k"
  shows "k * i < length xs"
proof -
  have "i < (length xs + k - 1) div k" using assms by (simp add: folder_num_div)
  then have "Suc i \<le> (length xs + k - 1) div k" by simp
  then have "Suc i * k \<le> length xs + k - 1" using assms(1) by (simp add: less_eq_div_iff_mult_less_eq)
  then show ?thesis using assms(1) by (simp add: algebra_simps)
qed

lemma folder_num_cover: "0 < k \<Longrightarrow> length xs \<le> folder_num xs k * k"
proof -
  assume k: "0 < k"
  let ?m = "length xs + k - 1"
  have "?m = ?m div k * k + ?m mod k" by simp
  moreover have "?m mod k < k" using k by simp
  ultimately have "length xs \<le> ?m div k * k" by linarith
  then show ?thesis using k by (simp add: folder_num_div)
qed

lemma folder_num_full:
  assumes "0 < k" "Suc i < folder_num xs k"
  shows "k * i + k \<le> length xs"
proof -
  have "k * Suc i < length xs" using assms by (rule folder_num_bounds)
  then show ?thesis by simp
qed

lemma cv_folds_parts:
  assumes "sub_ids \<noteq> []" and "1 \<le> k"
  shows "int (length (cv_folds sub_ids k)) = \<lceil>real (length sub_ids) / real k\<rceil>"
    and "concat (map fold_test (cv_folds sub_ids k)) = sub_ids"
    and "\<forall>i < length (cv_folds sub_ids k).
           fold_test (cv_folds sub_ids k ! i) = take k (drop (k * i) sub_ids)
         \<and> 1 \<le> length (fold_test (cv_folds sub_ids k ! i))
         \<and> length (fold_test (cv_folds sub_ids k ! i)) \<le> k
         \<and> (i + 1 < length (cv_folds sub_ids k) \<longrightarrow> length (fold_test (cv_folds sub_ids k ! i)) = k)
         \<and> set (fold_train (cv_folds sub_ids k ! i))
             = set sub_ids - set (fold_test (cv_folds sub_ids k ! i))"
    and "\<forall>p < length sub_ids. \<exists>!i. i < length (cv_folds sub_ids k) \<and> k * i \<le> p
           \<and> p < k * i + length (fold_test (cv_folds sub_ids k ! i))"
    and "distinct sub_ids \<longrightarrow> (\<forall>j < length (cv_folds sub_ids k). \<forall>i < j.
           set (fold_test (cv_folds sub_ids k ! i)) \<inter> set (fold_test (cv_folds sub_ids k ! j)) = {})"
proof -
  have k: "0 < k" using assms(2) by simp
  let ?m = "folder_num sub_ids k"
  have test: "fold_test (cv_folds sub_ids k ! i) = take k (drop (k * i) sub_ids)"
    and train: "set (fold_train (cv_folds sub_ids k ! i)) = set sub_ids - set (take k (drop (k * i) sub_ids))"
    if "i < ?m" for i
    using that by (simp_all add: cv_folds_nth fold_test_def fold_train_def set_setdiff1d)
  have len: "length (take k (drop (k * i) sub_ids)) = min k (length sub_ids - k * i)" for i
    by simp
  show "int (length (cv_folds sub_ids k)) = \<lceil>real (length sub_ids) / real k\<rceil>"
  proof -
    have "0 \<le> real (length sub_ids) / real k" by simp
    then have "0 \<le> \<lceil>real (length sub_ids) / real k\<rceil>" by linarith
    then show ?thesis by (simp add: cv_folds_length folder_num_def)
  qed
  have "map fold_test (cv_folds sub_ids k)
      = map (\<lambda>i. py_slice sub_ids (k * i) (k * (i + 1))) [0 ..< ?m]"
    by (simp add: cv_folds_def cv_fold_def fold_test_def Let_def comp_def)
  then show "concat (map fold_test (cv_folds sub_ids k)) = sub_ids"
    using concat_slices[OF k folder_num_cover[OF k]] by simp
  show "\<forall>i < length (cv_folds sub_ids k).
           fold_test (cv_folds sub_ids k ! i) = take k (drop (k * i) sub_ids)
         \<and> 1 \<le> length (fold_test (cv_folds sub_ids k ! i))
         \<and> length (fold_test (cv_folds sub_ids k ! i)) \<le> k
         \<and> (i + 1 < length (cv_folds sub_ids k) \<longrightarrow> length (fold_test (cv_folds sub_ids k ! i)) = k)
         \<and> set (fold_train (cv_folds sub_ids k ! i))
             = set sub_ids - set (fold_test (cv_folds sub_ids k ! i))"
  proof (intro allI impI)
    fix i assume "i < length (cv_folds sub_ids k)"
    then have i: "i < ?m" by (simp add: cv_folds_length)
    have lt: "k * i < length sub_ids" using k i by (rule folder_num_bounds)
    have full: "k * i + k \<le> length sub_ids" if "i + 1 < length (cv_folds sub_ids k)"
      using that folder_num_full[OF k, of i sub_ids] by (simp add: cv_folds_length)
    show "fold_test (cv_folds sub_ids k ! i) = take k (drop (k * i) sub_ids)
         \<and> 1 \<le> length (fold_test (cv_folds sub_ids k ! i))
         \<and> length (fold_test (cv_folds sub_ids k ! i)) \<le> k
         \<and> (i + 1 < length (cv_folds sub_ids k) \<longrightarrow> length (fold_test (cv_folds sub_ids k ! i)) = k)
         \<and> set (fold_train (cv_folds sub_ids k ! i))
             = set sub_ids - set (fold_test (cv_folds sub_ids k ! i))"
      using lt k full by (auto simp: test[OF i] train[OF i] len)
  qed
  show "\<forall>p < length sub_ids. \<exists>!i. i < length (cv_folds sub_ids k) \<and> k * i \<le> p
           \<and> p < k * i + length (fold_test (cv_folds sub_ids k ! i))"
  proof (intro allI impI)
    fix p assume p: "p < length sub_ids"
    have "p = k * (p div k) + p mod k" by simp
    moreover have "p mod k < k" using k by simp
    ultimately have pk: "k * (p div k) \<le> p" "p < k * (p div k) + k" by linarith+
    have "length sub_ids \<le> ?m * k" using k by (rule folder_num_cover)
    then have "p < ?m * k" using p by simp
    then have pm: "p div k < ?m" using k by (simp add: less_mult_imp_div_less)
    show "\<exists>!i. i < length (cv_folds sub_ids k) \<and> k * i \<le> p
           \<and> p < k * i + length (fold_test (cv_folds sub_ids k ! i))"
    proof (rule ex1I[of _ "p div k"])
      show "p div k < length (cv_folds sub_ids k) \<and> k * (p div k) \<le> p
           \<and> p < k * (p div k) + length (fold_test (cv_folds sub_ids k ! (p div k)))"
        using pm pk p by (simp add: cv_folds_length test[OF pm])
    next
      fix i assume a: "i < length (cv_folds sub_ids k) \<and> k * i \<le> p
           \<and> p < k * i + length (fold_test (cv_folds sub_ids k ! i))"
      then have i: "i < ?m" by (simp add: cv_folds_length)
      from a have "k * i \<le> p" "p < k * i + k" by (auto simp: test[OF i])
      then have "i \<le> p div k" "p div k < i + 1"
        using k by (simp_all add: less_eq_div_iff_mult_less_eq div_less_iff_less_mult algebra_simps)
      then show "i = p div k" by simp
    qed
  qed
  show "distinct sub_ids \<longrightarrow> (\<forall>j < length (cv_folds sub_ids k). \<forall>i < j.
           set (fold_test (cv_folds sub_ids k ! i)) \<inter> set (fold_test (cv_folds sub_ids k ! j)) = {})"
  proof (intro allI impI)
    fix j i assume d: "distinct sub_ids" and j: "j < length (cv_folds sub_ids k)" and ij: "i < j"
    have jm: "j < ?m" using j by (simp add: cv_folds_length)
    then have im: "i < ?m" using ij by simp
    show "set (fold_test (cv_folds sub_ids k ! i)) \<inter> set (fold_test (cv_folds sub_ids k ! j)) = {}"
      using slices_disjoint[OF d ij] by (simp add: test[OF im] test[OF jm])
  qed
qed

section \<open>Properties of the scorer\<close>

lemma isl_and_then: "(\<And>x. m = Inr x \<Longrightarrow> isl (f x)) \<Longrightarrow> isl (and_then m f)"
  by (cases m) (auto simp: and_then_def)

lemma and_then_Inr_iff: "and_then m f = Inr y \<longleftrightarrow> (\<exists>x. m = Inr x \<and> f x = Inr y)"
  by (cases m) (auto simp: and_then_def)

lemma and_then_simps [simp]: "and_then (Inl e) f = Inl e" "and_then (Inr x) f = f x"
  by (simp_all add: and_then_def)

lemma np_mask_length:
  assumes "np_mask xs ws = Inr ys"
  shows "length ys = length (filter (\<lambda>b. b) ws)"
proof -
  from assms have l: "length ws = length xs" and ys: "ys = map fst (filter snd (zip xs ws))"
    by (auto simp: np_mask_def split: if_splits)
  have "length (filter snd (zip xs ws)) = length (filter (\<lambda>b. b) ws)" using l
  proof (induction xs ws rule: list_induct2')
    case (4 x xs y ys) then show ?case by simp
  qed simp_all
  then show ?thesis by (simp add: ys)
qed

lemma pearsonr_short: "length x < 2 \<Longrightarrow> pearsonr x y = Inl ValueError"
  by (simp add: pearsonr_def)

lemma step_scores_degenerate:
  assumes "length (filter (\<lambda>b. b) m) < 2"
  shows "isl (step_scores t p m)"
  unfolding step_scores_def Let_def
  apply (intro isl_and_then)
  using assms by (simp add: pearsonr_short np_mask_length)

lemma column_steps_degenerate:
  "i < length arr_true \<Longrightarrow> i < length w \<Longrightarrow> length (filter (\<lambda>b. b) (w ! i)) < 2 \<Longrightarrow>
   isl (column_steps arr_true arr_pred w)"
proof (induction arr_true arr_pred w arbitrary: i rule: column_steps.induct)
  case (2 t ts p ps m ms)
  show ?case
  proof (cases i)
    case 0
    then have "isl (step_scores t p m)" using 2 by (simp add: step_scores_degenerate)
    then show ?thesis by (cases "step_scores t p m") auto
  next
    case (Suc j)
    then have "isl (column_steps ts ps ms)" if "step_scores t p m = Inr s" for s
      using 2 that by auto
    then show ?thesis by (auto split: sum.splits)
  qed
qed simp_all

section \<open>Field extraction\<close>

lemma map_err_Cons_and_then:
  "map_err f (x # xs) = and_then (f x) (\<lambda>y. and_then (map_err f xs) (\<lambda>ys. Inr (y # ys)))"
  by (simp add: and_then_def split: sum.splits)

lemma get_raw_loop_Cons:
  "get_raw_loop fs data ((name, flds) # rest) dd st =
     and_then (raw_group fs (heap st ! data) flds) (\<lambda>v.
       get_raw_loop fs data rest (AList.update name (Suc (length (heap st))) dd)
         (st\<lparr>heap := heap st @ [v, v]\<rparr>))"
  by (simp add: raw_group_def and_then_def new_array_def nth_append split: sum.splits)

lemma raw_arrays_Cons:
  "raw_arrays fs t ((name, flds) # rest) =
     and_then (raw_group fs t flds) (\<lambda>v. and_then (raw_arrays fs t rest) (\<lambda>vs. Inr (v # vs)))"
  by (simp add: raw_arrays_def and_then_def split: sum.splits)

lemma get_raw_loop_eq:
  "data < length (heap st) \<Longrightarrow>
   get_raw_loop fs data fd dd st =
     and_then (raw_arrays fs (heap st ! data) fd) (\<lambda>vs.
       Inr (raw_addrs (length (heap st)) fd dd,
            st\<lparr>heap := heap st @ concat (map (\<lambda>v. [v, v]) vs)\<rparr>))"
proof (induction fd arbitrary: dd st)
  case Nil
  then show ?case by (simp add: raw_arrays_def)
next
  case (Cons g fd)
  obtain name flds where g: "g = (name, flds)" by (cases g)
  show ?case
  proof (cases "raw_group fs (heap st ! data) flds")
    case (Inl e)
    then show ?thesis by (simp add: g get_raw_loop_Cons raw_arrays_Cons del: get_raw_loop.simps)
  next
    case (Inr v)
    let ?st2 = "st\<lparr>heap := heap st @ [v, v]\<rparr>"
    have d2: "data < length (heap ?st2)" using Cons.prems by simp
    have same: "heap ?st2 ! data = heap st ! data" using Cons.prems by (simp add: nth_append)
    show ?thesis
      unfolding g get_raw_loop_Cons raw_arrays_Cons Inr and_then_simps Cons.IH[OF d2] same
      by (cases "raw_arrays fs (heap st ! data) fd") simp_all
  qed
qed

section \<open>Properties of the normalizer\<close>

lemma normalize_one_eq:
  "normalize_one meth mode name a st =
     and_then (reshape2 (target_columns mode (heap st ! a)) (ravel (mask_sentinel (heap st ! a)))) (\<lambda>X.
     and_then (lookup (data_scalar st) name) (\<lambda>sc.
     and_then (call_method sc meth X) (\<lambda>(returned, sc').
       case returned of
         Self \<Rightarrow> Inl AttributeError
       | Array Y \<Rightarrow>
           and_then (reshape3 (shape3 (heap st ! a)) (concat Y)) (\<lambda>out.
             Inr (Suc (length (heap st)),
                  st\<lparr>data_scalar := AList.update name sc' (data_scalar st),
                     heap := heap st @ [mask_sentinel (heap st ! a), nan_to_zero out]\<rparr>)))))"
  by (simp add: normalize_one_def new_array_def Let_def target_columns_def nth_append
        cong: method_result.case_cong scalar_mode.case_cong)

lemma normalize_one_Inr:
  assumes "normalize_one meth mode name a st = Inr (a2, st')"
  shows "\<exists>X sc sc' Y out.
     reshape2 (target_columns mode (heap st ! a)) (ravel (mask_sentinel (heap st ! a))) = Inr X
   \<and> lookup (data_scalar st) name = Inr sc
   \<and> call_method sc meth X = Inr (Array Y, sc')
   \<and> reshape3 (shape3 (heap st ! a)) (concat Y) = Inr out
   \<and> a2 = Suc (length (heap st))
   \<and> heap st' = heap st @ [mask_sentinel (heap st ! a), nan_to_zero out]
   \<and> data_scalar st' = AList.update name sc' (data_scalar st)"
proof -
  from assms obtain X sc ret sc' where
    X: "reshape2 (target_columns mode (heap st ! a)) (ravel (mask_sentinel (heap st ! a))) = Inr X"
    and sc: "lookup (data_scalar st) name = Inr sc"
    and cm: "call_method sc meth X = Inr (ret, sc')"
    and rest: "(case ret of
         Self \<Rightarrow> Inl AttributeError
       | Array Y \<Rightarrow>
           and_then (reshape3 (shape3 (heap st ! a)) (concat Y)) (\<lambda>out.
             Inr (Suc (length (heap st)),
                  st\<lparr>data_scalar := AList.update name sc' (data_scalar st),
                     heap := heap st @ [mask_sentinel (heap st ! a), nan_to_zero out]\<rparr>))) = Inr (a2, st')"
    unfolding normalize_one_eq by (auto simp: and_then_Inr_iff)
  from rest obtain Y where ret: "ret = Array Y" by (cases ret) auto
  from rest obtain out where
    out: "reshape3 (shape3 (heap st ! a)) (concat Y) = Inr out"
    and r: "a2 = Suc (length (heap st))"
      "st' = st\<lparr>data_scalar := AList.update name sc' (data_scalar st),
                     heap := heap st @ [mask_sentinel (heap st ! a), nan_to_zero out]\<rparr>"
    unfolding ret by (auto simp: and_then_Inr_iff)
  show ?thesis
    using X sc cm out r unfolding ret by auto
qed

lemma nth_concat_uniform:
  "\<forall>x \<in> set xs. length x = n \<Longrightarrow> r < length xs \<Longrightarrow> c < n \<Longrightarrow> concat xs ! (r * n + c) = xs ! r ! c"
proof (induction xs arbitrary: r)
  case Nil then show ?case by simp
next
  case (Cons x xs)
  show ?case
  proof (cases r)
    case 0
    then show ?thesis using Cons.prems by (simp add: nth_append)
  next
    case (Suc r')
    have "concat (x # xs) ! (r * n + c) = concat xs ! (r' * n + c)"
      using Cons.prems Suc by (simp add: nth_append)
    also have "\<dots> = xs ! r' ! c" using Cons.prems Suc by (intro Cons.IH) auto
    finally show ?thesis using Suc by simp
  qed
qed

lemma length_concat_uniform:
  "\<forall>x \<in> set xs. length x = n \<Longrightarrow> length (concat xs) = length xs * n"
  by (induction xs) auto

lemma index_bound: "r < R \<Longrightarrow> c < (C::nat) \<Longrightarrow> r * C + c < R * C"
proof -
  assume a: "r < R" "c < C"
  then have "Suc r \<le> R" by simp
  then have "Suc r * C \<le> R * C" by (rule mult_le_mono1)
  then show ?thesis using a by simp
qed

lemma reshape2_Inr:
  assumes "reshape2 C flat = Inr X"
  shows "0 < C" and "length X * C = length flat" and "\<forall>r \<in> set X. length r = C"
    and "concat X = flat"
proof -
  from assms have C: "0 < C" and m: "length flat mod C = 0"
    and X: "X = map (\<lambda>r. map (\<lambda>c. flat ! (r * C + c)) [0 ..< C]) [0 ..< length flat div C]"
    by (auto simp: reshape2_def split: if_splits)
  show "0 < C" by fact
  show len: "length X * C = length flat"
    using m div_mult_mod_eq[of "length flat" C] by (simp add: X)
  show rows: "\<forall>r \<in> set X. length r = C" by (auto simp: X)
  show "concat X = flat"
  proof (rule nth_equalityI)
    show l: "length (concat X) = length flat"
      using length_concat_uniform[OF rows] len by simp
    fix p assume "p < length (concat X)"
    then have p: "p < length flat" using l by simp
    have pr: "p div C < length X" using p len C
      by (metis less_mult_imp_div_less)
    have pc: "p mod C < C" using C by simp
    have "concat X ! ((p div C) * C + p mod C) = X ! (p div C) ! (p mod C)"
      using rows pr pc by (rule nth_concat_uniform)
    also have "\<dots> = flat ! ((p div C) * C + p mod C)"
      using pr pc by (simp add: X)
    finally show "concat X ! p = flat ! p" by simp
  qed
qed

lemma reshape3_Inr:
  assumes "reshape3 (N, S, F) flat = Inr out" "i < N" "j < S"
  shows "length flat = N * S * F" and "length out = N"
    and "out ! i ! j = map (\<lambda>k. flat ! ((i * S + j) * F + k)) [0 ..< F]"
  using assms by (auto simp: reshape3_def split: if_splits)

lemma isnan_iff: "isnan v \<longleftrightarrow> v = NaN"
  by (cases v) auto

lemma transform_value_nan [simp]: "transform_value (NaN, p) = NaN"
  by (cases p) (simp add: transform_value_def)

lemma minmax_transform_Inr:
  assumes "minmax_transform sc X = Inr Y" and rows: "\<forall>r \<in> set X. length r = C"
  shows "\<exists>params. sc = Fitted params \<and> length params = C \<and> X \<noteq> []
     \<and> Y = map (\<lambda>r. map transform_value (zip r params)) X"
proof -
  from assms(1) obtain params where sc: "sc = Fitted params"
    and ok: "matrix_ok X" and nf: "n_features X = length params"
    and Y: "Y = map (\<lambda>r. map transform_value (zip r params)) X"
    by (cases sc) (auto simp: minmax_transform_def split: if_splits)
  from ok have ne: "X \<noteq> []" by (auto simp: matrix_ok_def)
  then have "n_features X = C" using rows by (cases X) (auto simp: n_features_def)
  then show ?thesis using sc nf Y ne by auto
qed

lemma transform_concat_nan:
  assumes "minmax_transform sc X = Inr Y" and rows: "\<forall>r \<in> set X. length r = C" and C: "0 < C"
  shows "length (concat Y) = length (concat X)"
    and "p < length (concat X) \<Longrightarrow> isnan (concat X ! p) \<Longrightarrow> concat Y ! p = NaN"
proof -
  from minmax_transform_Inr[OF assms(1) rows] obtain params where
    lp: "length params = C" and Y: "Y = map (\<lambda>r. map transform_value (zip r params)) X"
    by auto
  have rowsY: "\<forall>r \<in> set Y. length r = C" using rows lp by (auto simp: Y)
  have lY: "length Y = length X" by (simp add: Y)
  show l: "length (concat Y) = length (concat X)"
    using length_concat_uniform[OF rowsY] length_concat_uniform[OF rows] lY by simp
  assume p: "p < length (concat X)" and nan: "isnan (concat X ! p)"
  have lX: "length (concat X) = length X * C" using length_concat_uniform[OF rows] .
  have pr: "p div C < length X" using p lX C by (metis less_mult_imp_div_less)
  have pc: "p mod C < C" using C by simp
  have x: "concat X ! p = X ! (p div C) ! (p mod C)"
    using nth_concat_uniform[OF rows pr pc] by simp
  have "concat Y ! p = Y ! (p div C) ! (p mod C)"
    using nth_concat_uniform[OF rowsY _ pc, of "p div C"] pr lY by simp
  also have "\<dots> = transform_value (X ! (p div C) ! (p mod C), params ! (p mod C))"
    using pr pc rows lp by (simp add: Y)
  also have "X ! (p div C) ! (p mod C) = NaN" using nan x by (simp add: isnan_iff)
  finally show "concat Y ! p = NaN" by simp
qed

lemma rectangular_D:
  assumes "rectangular t" "shape3 t = (N, S, F)"
  shows "length t = N" and "\<forall>s \<in> set t. length s = S" and "\<forall>r \<in> set (concat t). length r = F"
  using assms by (auto simp: rectangular_def shape3_def)

lemma rectangular_ravel:
  assumes "rectangular t" "shape3 t = (N, S, F)" "i < N" "j < S"
  shows "length (ravel t) = N * S * F"
    and "length (t ! i) = S" and "length (t ! i ! j) = F"
    and "k < F \<Longrightarrow> ravel t ! ((i * S + j) * F + k) = t ! i ! j ! k"
proof -
  note d = rectangular_D[OF assms(1,2)]
  have lc: "length (concat t) = N * S" using length_concat_uniform[OF d(2)] d(1) by simp
  show "length (ravel t) = N * S * F"
    using length_concat_uniform[OF d(3)] lc by (simp add: ravel_def)
  have i: "i < length t" using assms(3) d(1) by simp
  show "length (t ! i) = S" using d(2) i by simp
  have ij: "concat t ! (i * S + j) = t ! i ! j"
    using d(2) i assms(4) by (rule nth_concat_uniform)
  have b: "i * S + j < length (concat t)" unfolding lc using assms(3,4) by (rule index_bound)
  then show "length (t ! i ! j) = F" using d(3) ij by (metis nth_mem)
  assume k: "k < F"
  have "concat (concat t) ! ((i * S + j) * F + k) = concat t ! (i * S + j) ! k"
    using d(3) b k by (rule nth_concat_uniform)
  then show "ravel t ! ((i * S + j) * F + k) = t ! i ! j ! k" by (simp add: ravel_def ij)
qed

lemma shape3_mask_sentinel [simp]: "shape3 (mask_sentinel t) = shape3 t"
  by (auto simp: shape3_def mask_sentinel_def split: list.splits)

lemma rectangular_mask_sentinel: "rectangular t \<Longrightarrow> rectangular (mask_sentinel t)"
  by (auto simp: rectangular_def) (auto simp: mask_sentinel_def)

lemma mask_sentinel_nth:
  "i < length t \<Longrightarrow> j < length (t ! i) \<Longrightarrow>
   mask_sentinel t ! i ! j = (if sentinel (t ! i ! j) then map (\<lambda>_. NaN) (t ! i ! j) else t ! i ! j)"
  by (simp add: mask_sentinel_def)

lemma call_method_Array:
  assumes "call_method sc meth X = Inr (Array Y, sc')"
  shows "meth \<noteq> Fit" and "minmax_transform sc' X = Inr Y"
    and "meth = Fit_transform \<Longrightarrow> minmax_fit X = Inr sc'"
    and "meth = Transform \<Longrightarrow> sc' = sc"
  using assms by (cases meth; auto simp: call_method_def and_then_Inr_iff)+

lemma sentinel_replicate: "sentinel s \<Longrightarrow> s = map (\<lambda>_. Fin 0) [0 ..< length s]"
  by (rule nth_equalityI) (auto simp: sentinel_def)

lemma group_output_sentinel:
  assumes g: "group_output meth mode t sc out sc'"
    and rect: "rectangular t" and i: "i < length t" and j: "j < length (t ! i)"
    and sen: "sentinel (t ! i ! j)"
  shows "out ! i ! j = t ! i ! j"
proof -
  obtain N S F where shp: "shape3 t = (N, S, F)" by (cases "shape3 t") auto
  from g obtain X Y r where
    X: "reshape2 (target_columns mode t) (ravel (mask_sentinel t)) = Inr X"
    and cm: "call_method sc meth X = Inr (Array Y, sc')"
    and r: "reshape3 (N, S, F) (concat Y) = Inr r" and out: "out = nan_to_zero r"
    by (auto simp: group_output_def shp)
  have N: "length t = N" using shp by (simp add: shape3_def)
  then have iN: "i < N" using i by simp
  note rr = rectangular_ravel[OF rect shp iN]
  have jS: "j < S" using j rr(2)[of j] rectangular_D(2)[OF rect shp] i by simp
  have lenF: "length (t ! i ! j) = F" using rr(3)[OF jS] .
  have mshp: "shape3 (mask_sentinel t) = (N, S, F)" using shp by simp
  note mr = rectangular_ravel[OF rectangular_mask_sentinel[OF rect] mshp iN jS]
  let ?C = "target_columns mode t"
  note X' = reshape2_Inr[OF X]
  have tr: "minmax_transform sc' X = Inr Y" using call_method_Array(2)[OF cm] .
  note tc = transform_concat_nan[OF tr X'(3) X'(1), unfolded X'(4)]
  have "r ! i ! j = map (\<lambda>k. concat Y ! ((i * S + j) * F + k)) [0 ..< F]"
    using reshape3_Inr(3)[OF r iN jS] .
  moreover have "concat Y ! ((i * S + j) * F + k) = NaN" if k: "k < F" for k
  proof -
    have b: "(i * S + j) * F + k < N * S * F"
      using index_bound[OF index_bound[OF iN jS] k] by simp
    have "ravel (mask_sentinel t) ! ((i * S + j) * F + k) = mask_sentinel t ! i ! j ! k"
      using mr(4)[OF k] .
    also have "\<dots> = NaN" using sen k lenF by (simp add: mask_sentinel_nth[OF i j])
    finally show ?thesis using tc(2)[of "(i * S + j) * F + k"] b mr(1) by simp
  qed
  ultimately have "r ! i ! j = map (\<lambda>k. NaN) [0 ..< F]" by simp
  moreover have "length r = N" using reshape3_Inr(2)[OF r iN jS] .
  moreover have "length (r ! i) = S" using r iN by (auto simp: reshape3_def split: if_splits)
  ultimately have "out ! i ! j = map (\<lambda>k. Fin 0) [0 ..< F]"
    using iN jS by (simp add: out nan_to_zero_def)
  then show ?thesis using sentinel_replicate[OF sen] lenF by simp
qed

lemma mask_sentinel_map: "mask_sentinel t = map (map mask_sample) t"
proof -
  have "mask_sample = (\<lambda>sample. if sentinel sample then map (\<lambda>_. NaN) sample else sample)"
    by (rule ext) (simp add: mask_sample_def)
  then show ?thesis by (simp add: mask_sentinel_def)
qed

lemma concat_mask_sentinel: "concat (mask_sentinel t) = map mask_sample (concat t)"
  by (simp add: mask_sentinel_map map_concat)

lemma reshape2_rows_of:
  assumes rect: "rectangular t" and shp: "shape3 t = (N, S, F)" and F: "0 < F"
  shows "reshape2 (target_columns mode t) (ravel t) = Inr (rows_of mode (concat t))"
proof -
  note d = rectangular_D[OF rect shp]
  have lr: "length (ravel t) = length (concat t) * F"
    using length_concat_uniform[OF d(3)] by (simp add: ravel_def)
  show ?thesis
  proof (cases mode)
    case By_each_column
    have "map (\<lambda>r. map (\<lambda>c. ravel t ! (r * F + c)) [0 ..< F]) [0 ..< length (concat t)] = concat t"
    proof (rule nth_equalityI)
      show "length (map (\<lambda>r. map (\<lambda>c. ravel t ! (r * F + c)) [0 ..< F]) [0 ..< length (concat t)])
          = length (concat t)" by simp
      fix r assume "r < length (map (\<lambda>r. map (\<lambda>c. ravel t ! (r * F + c)) [0 ..< F]) [0 ..< length (concat t)])"
      then have r: "r < length (concat t)" by simp
      then have lrow: "length (concat t ! r) = F" using d(3) by (metis nth_mem)
      have "map (\<lambda>c. ravel t ! (r * F + c)) [0 ..< F] = map (\<lambda>c. concat t ! r ! c) [0 ..< F]"
        using nth_concat_uniform[OF d(3) r] by (simp add: ravel_def)
      also have "\<dots> = concat t ! r" using lrow by (metis map_nth)
      finally show "map (\<lambda>r. map (\<lambda>c. ravel t ! (r * F + c)) [0 ..< F]) [0 ..< length (concat t)] ! r
          = concat t ! r" using r by simp
    qed
    then show ?thesis
      using F lr by (simp add: By_each_column reshape2_def target_columns_def shp rows_of_def)
  next
    case By_all_columns
    have "map (\<lambda>r. [ravel t ! r]) [0 ..< length (ravel t)] = map (\<lambda>v. [v]) (ravel t)"
      by (rule nth_equalityI) auto
    then show ?thesis
      by (simp add: By_all_columns reshape2_def target_columns_def rows_of_def ravel_def)
  qed
qed

lemma finite_values_append: "finite_values (xs @ ys) = finite_values xs @ finite_values ys"
  by (induction xs rule: finite_values.induct) auto

lemma finite_values_nan: "finite_values (map (\<lambda>_. NaN) s) = []"
  by (induction s) auto

lemma fit_feature_cong: "finite_values a = finite_values b \<Longrightarrow> fit_feature a = fit_feature b"
  by (simp add: fit_feature_def nanmin_def nanmax_def)

lemma length_mask_sample [simp]: "length (mask_sample s) = length s"
  by (simp add: mask_sample_def)

lemma mask_sample_no_inf:
  "(\<forall>v \<in> set (mask_sample s). v \<noteq> PInf \<and> v \<noteq> NInf) \<longleftrightarrow> sentinel s \<or> (\<forall>v \<in> set s. v \<noteq> PInf \<and> v \<noteq> NInf)"
  by (auto simp: mask_sample_def sentinel_def)

lemma finite_values_Cons:
  "finite_values (v # xs) = (case v of Fin a \<Rightarrow> [a] | _ \<Rightarrow> []) @ finite_values xs"
  by (cases v) auto

lemma column_masked:
  "\<forall>s \<in> set samples. j < length s \<Longrightarrow>
   finite_values (column (map mask_sample samples) j)
     = finite_values (column (filter (\<lambda>s. \<not> sentinel s) samples) j)"
  by (induction samples) (auto simp: column_def mask_sample_def finite_values_Cons simp del: finite_values.simps)

lemma concat_masked:
  "finite_values (concat (map mask_sample samples))
     = finite_values (concat (filter (\<lambda>s. \<not> sentinel s) samples))"
  by (induction samples) (auto simp: finite_values_append finite_values_nan mask_sample_def)

lemma column_singletons: "column (map (\<lambda>v. [v]) vs) 0 = vs"
  by (simp add: column_def comp_def)

lemma matrix_ok_singletons:
  "matrix_ok (map (\<lambda>v. [v]) vs) \<longleftrightarrow> vs \<noteq> [] \<and> (\<forall>v \<in> set vs. v \<noteq> PInf \<and> v \<noteq> NInf)"
  by (cases vs) (auto simp: matrix_ok_def)

lemma n_features_singletons: "vs \<noteq> [] \<Longrightarrow> n_features (map (\<lambda>v. [v]) vs) = 1"
  by (cases vs) (auto simp: n_features_def)

lemma minmax_fit_masked:
  assumes uni: "\<forall>s \<in> set samples. length s = F" and ex: "\<exists>s \<in> set samples. \<not> sentinel s"
  shows "minmax_fit (rows_of mode (map mask_sample samples))
       = minmax_fit (rows_of mode (filter (\<lambda>s. \<not> sentinel s) samples))"
proof -
  let ?M = "map mask_sample samples" and ?K = "filter (\<lambda>s. \<not> sentinel s) samples"
  from ex obtain s0 where s0: "s0 \<in> set samples" "\<not> sentinel s0" by auto
  then have F: "0 < F" using uni by (auto simp: sentinel_def)
  have neM: "?M \<noteq> []" and neK: "?K \<noteq> []" using s0 by (auto simp: filter_empty_conv)
  have inf: "(\<forall>r \<in> set ?M. \<forall>v \<in> set r. v \<noteq> PInf \<and> v \<noteq> NInf)
        \<longleftrightarrow> (\<forall>r \<in> set ?K. \<forall>v \<in> set r. v \<noteq> PInf \<and> v \<noteq> NInf)"
    by (auto simp: mask_sample_no_inf)
  show ?thesis
  proof (cases mode)
    case By_each_column
    have hdM: "length (hd ?M) = F" using neM uni by (cases samples) auto
    have "hd ?K \<in> set samples" using neK by (metis filter_is_subset hd_in_set subsetD)
    then have hdK: "length (hd ?K) = F" using uni by simp
    have okM: "matrix_ok ?M \<longleftrightarrow> (\<forall>r \<in> set ?M. \<forall>v \<in> set r. v \<noteq> PInf \<and> v \<noteq> NInf)"
      using neM hdM F by (cases ?M) (auto simp: matrix_ok_def)
    have okK: "matrix_ok ?K \<longleftrightarrow> (\<forall>r \<in> set ?K. \<forall>v \<in> set r. v \<noteq> PInf \<and> v \<noteq> NInf)"
      using neK hdK F by (cases ?K) (auto simp: matrix_ok_def)
    have nfM: "n_features ?M = F" using neM hdM by (cases ?M) (auto simp: n_features_def)
    have nfK: "n_features ?K = F" using neK hdK by (cases ?K) (auto simp: n_features_def)
    have "fit_feature (column ?M j) = fit_feature (column ?K j)" if "j < F" for j
      using that uni by (intro fit_feature_cong column_masked) auto
    then have "map (\<lambda>j. fit_feature (column ?M j)) [0 ..< F] = map (\<lambda>j. fit_feature (column ?K j)) [0 ..< F]"
      by simp
    then show ?thesis
      using okM okK inf nfM nfK by (simp add: By_each_column rows_of_def minmax_fit_def)
  next
    case By_all_columns
    let ?A = "map (\<lambda>v. [v]) (concat ?M)" and ?B = "map (\<lambda>v. [v]) (concat ?K)"
    have "s0 \<noteq> []" using s0 by (auto simp: sentinel_def)
    then have cK: "concat ?K \<noteq> []" using s0 by auto
    have "mask_sample s0 \<noteq> []" using \<open>s0 \<noteq> []\<close> by (simp add: mask_sample_def)
    then have cM: "concat ?M \<noteq> []" using s0 by auto
    have okA: "matrix_ok ?A \<longleftrightarrow> (\<forall>r \<in> set ?M. \<forall>v \<in> set r. v \<noteq> PInf \<and> v \<noteq> NInf)"
      using cM unfolding matrix_ok_singletons by auto
    have okB: "matrix_ok ?B \<longleftrightarrow> (\<forall>r \<in> set ?K. \<forall>v \<in> set r. v \<noteq> PInf \<and> v \<noteq> NInf)"
      using cK unfolding matrix_ok_singletons by auto
    have nfA: "n_features ?A = 1" using cM by (rule n_features_singletons)
    have nfB: "n_features ?B = 1" using cK by (rule n_features_singletons)
    have "fit_feature (column ?A 0) = fit_feature (column ?B 0)"
      unfolding column_singletons by (intro fit_feature_cong concat_masked)
    then show ?thesis
      using okA okB inf nfA nfB by (simp add: By_all_columns rows_of_def minmax_fit_def)
  qed
qed

lemma lookup_Inr_iff: "lookup d k = Inr v \<longleftrightarrow> map_of d k = Some v"
  by (simp add: lookup_def split: option.splits)

lemma in_set_update:
  "(n, a) \<in> set (AList.update k v al) \<Longrightarrow> (n, a) = (k, v) \<or> (n, a) \<in> set al"
  by (induction al) (auto split: if_splits)

lemma normalize_loop_Cons:
  assumes "normalize_loop meth mode ((name, a) # data) scaled st = Inr (scaled', st')"
  obtains a2 st2 where "normalize_one meth mode name a st = Inr (a2, st2)"
    and "normalize_loop meth mode data (AList.update name a2 scaled) st2 = Inr (scaled', st')"
  using assms by (auto simp: and_then_Inr_iff)

lemma normalize_loop_prefix:
  "normalize_loop meth mode data scaled st = Inr (scaled', st') \<Longrightarrow> prefix (heap st) (heap st')"
proof (induction data arbitrary: scaled st)
  case Nil then show ?case by simp
next
  case (Cons g data)
  obtain name a where g: "g = (name, a)" by (cases g)
  from Cons.prems obtain a2 st2 where
    one: "normalize_one meth mode name a st = Inr (a2, st2)"
    and rest: "normalize_loop meth mode data (AList.update name a2 scaled) st2 = Inr (scaled', st')"
    unfolding g by (rule normalize_loop_Cons)
  from normalize_one_Inr[OF one] have "prefix (heap st) (heap st2)" by auto
  with Cons.IH[OF rest] show ?case by auto
qed

lemma prefix_nth: "prefix h h' \<Longrightarrow> a < length h \<Longrightarrow> h' ! a = h ! a"
  by (auto simp: prefix_def nth_append)

lemma prefix_length: "prefix h h' \<Longrightarrow> length h \<le> length h'"
  by (auto simp: prefix_def)

lemma normalize_loop_untouched:
  "normalize_loop meth mode data scaled st = Inr (scaled', st') \<Longrightarrow> k \<notin> fst ` set data \<Longrightarrow>
   map_of scaled' k = map_of scaled k \<and> map_of (data_scalar st') k = map_of (data_scalar st) k"
proof (induction data arbitrary: scaled st)
  case Nil then show ?case by simp
next
  case (Cons g data)
  obtain name a where g: "g = (name, a)" by (cases g)
  from Cons.prems(1) obtain a2 st2 where
    one: "normalize_one meth mode name a st = Inr (a2, st2)"
    and rest: "normalize_loop meth mode data (AList.update name a2 scaled) st2 = Inr (scaled', st')"
    unfolding g by (rule normalize_loop_Cons)
  have k: "k \<noteq> name" "k \<notin> fst ` set data" using Cons.prems(2) g by auto
  from normalize_one_Inr[OF one] obtain sc' where
    "data_scalar st2 = AList.update name sc' (data_scalar st)" by auto
  then show ?case using Cons.IH[OF rest k(2)] k(1) by (simp add: update_conv')
qed

lemma normalize_loop_outputs:
  "normalize_loop meth mode data scaled st = Inr (scaled', st') \<Longrightarrow> (n, a2) \<in> set scaled' \<Longrightarrow>
   (n, a2) \<in> set scaled
   \<or> (length (heap st) \<le> a2 \<and> a2 < length (heap st') \<and> (\<exists>r. heap st' ! a2 = nan_to_zero r))"
proof (induction data arbitrary: scaled st)
  case Nil then show ?case by simp
next
  case (Cons g data)
  obtain name a where g: "g = (name, a)" by (cases g)
  from Cons.prems(1) obtain b st2 where
    one: "normalize_one meth mode name a st = Inr (b, st2)"
    and rest: "normalize_loop meth mode data (AList.update name b scaled) st2 = Inr (scaled', st')"
    unfolding g by (rule normalize_loop_Cons)
  from normalize_one_Inr[OF one] obtain out where
    b: "b = Suc (length (heap st))"
    and h2: "heap st2 = heap st @ [mask_sentinel (heap st ! a), nan_to_zero out]" by auto
  have p: "prefix (heap st2) (heap st')" using rest by (rule normalize_loop_prefix)
  from Cons.IH[OF rest Cons.prems(2)] consider
    (old) "(n, a2) \<in> set (AList.update name b scaled)"
    | (new) "length (heap st2) \<le> a2" "a2 < length (heap st')" "\<exists>r. heap st' ! a2 = nan_to_zero r"
    by auto
  then show ?case
  proof cases
    case old
    then consider "(n, a2) = (name, b)" | "(n, a2) \<in> set scaled" using in_set_update by fast
    then show ?thesis
    proof cases
      case 1
      have "heap st' ! b = heap st2 ! b" using p by (rule prefix_nth) (simp add: b h2)
      then have "heap st' ! b = nan_to_zero out" by (simp add: b h2 nth_append)
      moreover have "b < length (heap st')" using prefix_length[OF p] by (simp add: b h2)
      ultimately show ?thesis using 1 by (auto simp: b)
    qed simp
  next
    case new
    then show ?thesis by (simp add: h2)
  qed
qed

lemma normalize_loop_group:
  assumes "normalize_loop meth mode data scaled st = Inr (scaled', st')"
    and "distinct (map fst data)" and "(name, a) \<in> set data" and "a < length (heap st)"
  shows "\<exists>a2 sc sc'. map_of scaled' name = Some a2 \<and> map_of (data_scalar st) name = Some sc
     \<and> map_of (data_scalar st') name = Some sc'
     \<and> length (heap st) \<le> a2 \<and> a2 < length (heap st')
     \<and> group_output meth mode (heap st ! a) sc (heap st' ! a2) sc'"
  using assms
proof (induction data arbitrary: scaled st)
  case Nil then show ?case by simp
next
  case (Cons g data)
  obtain n0 a0 where g: "g = (n0, a0)" by (cases g)
  from Cons.prems(1) obtain b st2 where
    one: "normalize_one meth mode n0 a0 st = Inr (b, st2)"
    and rest: "normalize_loop meth mode data (AList.update n0 b scaled) st2 = Inr (scaled', st')"
    unfolding g by (rule normalize_loop_Cons)
  from normalize_one_Inr[OF one] obtain X sc0 sc0' Y out where
    X: "reshape2 (target_columns mode (heap st ! a0)) (ravel (mask_sentinel (heap st ! a0))) = Inr X"
    and sc0: "lookup (data_scalar st) n0 = Inr sc0"
    and cm: "call_method sc0 meth X = Inr (Array Y, sc0')"
    and out: "reshape3 (shape3 (heap st ! a0)) (concat Y) = Inr out"
    and b: "b = Suc (length (heap st))"
    and h2: "heap st2 = heap st @ [mask_sentinel (heap st ! a0), nan_to_zero out]"
    and ds2: "data_scalar st2 = AList.update n0 sc0' (data_scalar st)" by auto
  have p: "prefix (heap st2) (heap st')" using rest by (rule normalize_loop_prefix)
  have d: "n0 \<notin> fst ` set data" "distinct (map fst data)" using Cons.prems(2) g by auto
  show ?case
  proof (cases "name = n0")
    case True
    then have a: "a = a0" using Cons.prems(2,3) g d(1) by (auto simp: image_iff)
    note un = normalize_loop_untouched[OF rest d(1)]
    have "heap st' ! b = heap st2 ! b" using p by (rule prefix_nth) (simp add: b h2)
    then have hb: "heap st' ! b = nan_to_zero out" by (simp add: b h2 nth_append)
    have bl: "b < length (heap st')" using prefix_length[OF p] by (simp add: b h2)
    have go: "group_output meth mode (heap st ! a) sc0 (heap st' ! b) sc0'"
      unfolding group_output_def hb a using X cm out by blast
    show ?thesis
      using un sc0 go bl b True by (auto simp: update_conv' ds2 lookup_Inr_iff)
  next
    case False
    then have mem: "(name, a) \<in> set data" using Cons.prems(3) g by auto
    have a2: "a < length (heap st2)" using Cons.prems(4) by (simp add: h2)
    from Cons.IH[OF rest d(2) mem a2] obtain a2 sc sc' where
      r: "map_of scaled' name = Some a2" "map_of (data_scalar st2) name = Some sc"
        "map_of (data_scalar st') name = Some sc'" "length (heap st2) \<le> a2" "a2 < length (heap st')"
        "group_output meth mode (heap st2 ! a) sc (heap st' ! a2) sc'" by blast
    have "heap st2 ! a = heap st ! a" using Cons.prems(4) by (simp add: h2 nth_append)
    moreover have "map_of (data_scalar st) name = Some sc" using r(2) False by (simp add: ds2 update_conv')
    ultimately show ?thesis using r by (auto simp: h2)
  qed
qed

lemma demo_normalize:
  "normalize_data [(''x'', 0)] Fit_transform By_each_column demo_state =
     Inr ([(''x'', 4)], demo_normalized_state)"
  by code_simp

lemma target_columns_mask [simp]: "target_columns mode (mask_sentinel t) = target_columns mode t"
  by (cases mode) (simp_all add: target_columns_def)

lemma group_output_fit:
  assumes g: "group_output Fit_transform mode t sc out sc'"
    and rect: "rectangular t" and ex: "\<exists>s \<in> set (concat t). \<not> sentinel s"
  shows "minmax_fit (rows_of mode (filter (\<lambda>s. \<not> sentinel s) (concat t))) = Inr sc'"
proof -
  obtain N S F where shp: "shape3 t = (N, S, F)" by (cases "shape3 t") auto
  note d = rectangular_D[OF rect shp]
  from ex obtain s0 where s0: "s0 \<in> set (concat t)" "\<not> sentinel s0" by auto
  then have "s0 \<noteq> []" by (auto simp: sentinel_def)
  then have F: "0 < F" using d(3) s0(1) by auto
  from g obtain X Y where
    X: "reshape2 (target_columns mode t) (ravel (mask_sentinel t)) = Inr X"
    and cm: "call_method sc Fit_transform X = Inr (Array Y, sc')"
    by (auto simp: group_output_def)
  have mshp: "shape3 (mask_sentinel t) = (N, S, F)" using shp by simp
  have "reshape2 (target_columns mode (mask_sentinel t)) (ravel (mask_sentinel t))
      = Inr (rows_of mode (concat (mask_sentinel t)))"
    using rectangular_mask_sentinel[OF rect] mshp F by (rule reshape2_rows_of)
  then have Xeq: "X = rows_of mode (map mask_sample (concat t))"
    using X by (simp add: concat_mask_sentinel)
  have "minmax_fit X = Inr sc'" using call_method_Array(3)[OF cm] by simp
  then show ?thesis unfolding Xeq minmax_fit_masked[OF d(3) ex] .
qed

lemma scaled_points:
  assumes X: "reshape2 C (ravel (mask_sentinel t)) = Inr X"
    and tr: "minmax_transform sc' X = Inr Y"
    and r: "reshape3 (shape3 t) (concat Y) = Inr r"
    and rect: "rectangular t" and i: "i < length t" and j: "j < length (t ! i)"
    and k: "k < length (t ! i ! j)"
  shows "nan_to_zero r ! i ! j ! k = (if isnan (r ! i ! j ! k) then Fin 0 else r ! i ! j ! k)"
    and "isnan (t ! i ! j ! k) \<or> sentinel (t ! i ! j) \<Longrightarrow> r ! i ! j ! k = NaN"
proof -
  obtain N S F where shp: "shape3 t = (N, S, F)" by (cases "shape3 t") auto
  have N: "length t = N" using shp by (simp add: shape3_def)
  then have iN: "i < N" using i by simp
  note rr = rectangular_ravel[OF rect shp iN]
  have jS: "j < S" using j rr(2)[of j] rectangular_D(2)[OF rect shp] i by simp
  have lenF: "length (t ! i ! j) = F" using rr(3)[OF jS] .
  then have kF: "k < F" using k by simp
  have mshp: "shape3 (mask_sentinel t) = (N, S, F)" using shp by simp
  note mr = rectangular_ravel[OF rectangular_mask_sentinel[OF rect] mshp iN jS]
  note X' = reshape2_Inr[OF X]
  note tc = transform_concat_nan[OF tr X'(3) X'(1), unfolded X'(4)]
  have r': "reshape3 (N, S, F) (concat Y) = Inr r" using r shp by simp
  have rij: "r ! i ! j = map (\<lambda>k. concat Y ! ((i * S + j) * F + k)) [0 ..< F]"
    using reshape3_Inr(3)[OF r' iN jS] .
  have lr: "length r = N" using reshape3_Inr(2)[OF r' iN jS] .
  have lri: "length (r ! i) = S" using r' iN by (auto simp: reshape3_def split: if_splits)
  have lrij: "length (r ! i ! j) = F" using rij by simp
  show "nan_to_zero r ! i ! j ! k = (if isnan (r ! i ! j ! k) then Fin 0 else r ! i ! j ! k)"
    using iN jS kF lr lri lrij by (simp add: nan_to_zero_def)
  assume n: "isnan (t ! i ! j ! k) \<or> sentinel (t ! i ! j)"
  have b: "(i * S + j) * F + k < N * S * F"
    using index_bound[OF index_bound[OF iN jS] kF] by simp
  have "ravel (mask_sentinel t) ! ((i * S + j) * F + k) = mask_sentinel t ! i ! j ! k"
    using mr(4)[OF kF] .
  also have "isnan \<dots>" using n k by (auto simp: mask_sentinel_nth[OF i j])
  finally have "concat Y ! ((i * S + j) * F + k) = NaN"
    using tc(2)[of "(i * S + j) * F + k"] b mr(1) by simp
  then show "r ! i ! j ! k = NaN" using rij kF by simp
qed

lemma nan_to_zero_no_nan:
  "\<forall>s \<in> set (nan_to_zero r). \<forall>sample \<in> set s. \<forall>v \<in> set sample. \<not> isnan v"
  by (auto simp: nan_to_zero_def)

section \<open>Properties of the pipeline\<close>

lemma and_then_InrE:
  assumes "and_then m f = Inr y"
  obtains x where "m = Inr x" "f x = Inr y"
  using assms by (auto simp: and_then_Inr_iff)

lemma map_err_length: "map_err f xs = Inr ys \<Longrightarrow> length ys = length xs"
  by (induction xs arbitrary: ys) (auto split: sum.splits)

lemma map_err_set: "map_err f xs = Inr ys \<Longrightarrow> y \<in> set ys \<Longrightarrow> \<exists>x \<in> set xs. f x = Inr y"
  by (induction xs arbitrary: ys) (auto split: sum.splits)

lemma map_err_map: "map_err f xs = Inr ys \<Longrightarrow> (\<And>x y. x \<in> set xs \<Longrightarrow> f x = Inr y \<Longrightarrow> g x = Inr y)
   \<Longrightarrow> map_err g xs = Inr ys"
  by (induction xs arbitrary: ys) (auto split: sum.splits)

lemma raw_arrays_length: "raw_arrays fs t fd = Inr vs \<Longrightarrow> length vs = length fd"
  unfolding raw_arrays_def by (rule map_err_length)

lemma deref_update: "deref h (AList.update k a d) = AList.update k (h ! a) (deref h d)"
  by (induction d) (auto simp: deref_def)

lemma deref_prefix:
  "prefix h h' \<Longrightarrow> \<forall>a \<in> snd ` set d. a < length h \<Longrightarrow> deref h' d = deref h d"
  by (auto simp: deref_def prefix_nth)

lemma raw_addrs_range:
  "(k, a) \<in> set (raw_addrs n fd dd) \<Longrightarrow> (k, a) \<in> set dd \<or> (n \<le> a \<and> a < n + 2 * length fd)"
proof (induction fd arbitrary: n dd)
  case Nil then show ?case by simp
next
  case (Cons g fd)
  obtain name flds where g: "g = (name, flds)" by (cases g)
  from Cons.prems have "(k, a) \<in> set (raw_addrs (n + 2) fd (AList.update name (n + 1) dd))"
    by (simp add: g)
  from Cons.IH[OF this] show ?case using in_set_update[of k a name "n + 1" dd] by auto
qed

lemma deref_raw_addrs:
  "length vs = length fd \<Longrightarrow> \<forall>a \<in> snd ` set dd. a < length h \<Longrightarrow>
   deref (h @ concat (map (\<lambda>v. [v, v]) vs)) (raw_addrs (length h) fd dd) = value_dict fd vs (deref h dd)"
proof (induction fd arbitrary: vs dd h)
  case Nil then show ?case by (simp add: deref_prefix)
next
  case (Cons g fd)
  obtain name flds where g: "g = (name, flds)" by (cases g)
  from Cons.prems(1) obtain v vs' where vs: "vs = v # vs'" "length vs' = length fd" by (cases vs) auto
  let ?h2 = "h @ [v, v]"
  let ?dd2 = "AList.update name (length h + 1) dd"
  have a2: "\<forall>a \<in> snd ` set ?dd2. a < length ?h2"
  proof
    fix a assume "a \<in> snd ` set ?dd2"
    then obtain k where "(k, a) \<in> set ?dd2" by auto
    then have "(k, a) = (name, length h + 1) \<or> (k, a) \<in> set dd" by (rule in_set_update)
    then show "a < length ?h2" using Cons.prems(2) by force
  qed
  have "deref (?h2 @ concat (map (\<lambda>v. [v, v]) vs')) (raw_addrs (length ?h2) fd ?dd2)
      = value_dict fd vs' (deref ?h2 ?dd2)"
    using vs(2) a2 by (rule Cons.IH)
  moreover have "deref ?h2 ?dd2 = AList.update name v (deref h dd)"
  proof -
    have "deref ?h2 dd = deref h dd" using Cons.prems(2) by (intro deref_prefix) auto
    then show ?thesis by (simp add: deref_update nth_append)
  qed
  ultimately show ?case by (simp add: g vs)
qed

lemma get_raw_data_dict_Inr:
  assumes "get_raw_data_dict self data fd st = Inr (d, st')" and "data < length (heap st)"
  shows "\<exists>vs. raw_arrays (data_fields self) (heap st ! data) fd = Inr vs
     \<and> heap st' = heap st @ concat (map (\<lambda>v. [v, v]) vs)
     \<and> data_scalar st' = data_scalar st
     \<and> deref (heap st') d = value_dict fd vs []
     \<and> (\<forall>a \<in> snd ` set d. length (heap st) \<le> a \<and> a < length (heap st'))"
proof -
  from assms obtain vs where vs: "raw_arrays (data_fields self) (heap st ! data) fd = Inr vs"
    and d: "d = raw_addrs (length (heap st)) fd []"
    and st': "st' = st\<lparr>heap := heap st @ concat (map (\<lambda>v. [v, v]) vs)\<rparr>"
    unfolding get_raw_data_dict_def get_raw_loop_eq[OF assms(2)] by (auto simp: and_then_Inr_iff)
  have l: "length vs = length fd" using vs by (rule raw_arrays_length)
  have "deref (heap st') d = value_dict fd vs (deref (heap st) [])"
    unfolding d st' using deref_raw_addrs[OF l, of "[]" "heap st"] by simp
  moreover have "length (concat (map (\<lambda>v. [v, v]) vs)) = 2 * length vs"
    by (induction vs) auto
  then have "\<forall>a \<in> snd ` set d. length (heap st) \<le> a \<and> a < length (heap st')"
    unfolding d st' using raw_addrs_range[of _ _ "length (heap st)" fd "[]"] l by fastforce
  ultimately show ?thesis using vs st' by (simp add: deref_def)
qed

lemma get_raw_data_dict_prefix:
  assumes "get_raw_data_dict self data fd st = Inr (d, st')" and "data < length (heap st)"
  shows "prefix (heap st) (heap st')"
  using get_raw_data_dict_Inr[OF assms] by auto

lemma normalize_data_prefix:
  "normalize_data x meth mode st = Inr (r, st') \<Longrightarrow> prefix (heap st) (heap st')"
  unfolding normalize_data_def by (rule normalize_loop_prefix)

lemma preprocess_train_data_Inr:
  assumes "preprocess_train_data x y st = Inr ((x', y'), st')"
  shows "x' = x" "y' = y" "prefix (heap st) (heap st')"
  using assms normalize_data_prefix
  by (auto simp: preprocess_train_data_def and_then_Inr_iff)

lemma preprocess_validation_test_data_Inr:
  assumes "preprocess_validation_test_data x y st = Inr ((x', y'), st')"
  shows "x' = x" "y' = y" "prefix (heap st) (heap st')"
  using assms normalize_data_prefix
  by (auto simp: preprocess_validation_test_data_def and_then_Inr_iff)

lemma np_concatenate_Inr:
  assumes "np_concatenate arrays st = Inr (a, st')"
  shows "arrays \<noteq> []" "a = length (heap st)"
    "heap st' = heap st @ [concat (map (\<lambda>a. heap st ! a) arrays)]" "data_scalar st' = data_scalar st"
  using assms by (auto simp: np_concatenate_def new_array_def split: if_splits)

lemma and_then_InrE2:
  assumes "and_then m (\<lambda>(a, b). f a b) = Inr y"
  obtains a b where "m = Inr (a, b)" "f a b = Inr y"
  using assms by (auto simp: and_then_Inr_iff)

text \<open>The arrays a dictionary of freshly extracted groups refers to.\<close>

lemma fresh_dict_stable:
  assumes "\<forall>a \<in> snd ` set d. n \<le> a \<and> a < length h" and "prefix h h'"
  shows "deref h' d = deref h d"
  using assms by (intro deref_prefix) auto

lemma validation_data_of_Inr:
  assumes v: "validation_data_of self vaddrs st = Inr ((xv, yv, w), st')"
  shows "prefix (heap st) (heap st')"
    and "\<forall>a \<in> dict_addrs xv \<union> dict_addrs yv \<union> dict_addrs w. length (heap st) \<le> a \<and> a < length (heap st')"
    and "vaddrs = [] \<Longrightarrow> xv = None \<and> yv = None \<and> w = None"
    and "vaddrs \<noteq> [] \<Longrightarrow> \<exists>x y wt xs ys ws. xv = Some x \<and> yv = Some y \<and> w = Some wt
          \<and> raw_arrays (data_fields self) (concat (map (\<lambda>a. heap st ! a) vaddrs)) (x_fields self) = Inr xs
          \<and> raw_arrays (data_fields self) (concat (map (\<lambda>a. heap st ! a) vaddrs)) (y_fields self) = Inr ys
          \<and> raw_arrays (data_fields self) (concat (map (\<lambda>a. heap st ! a) vaddrs)) (weights self) = Inr ws
          \<and> deref (heap st') x = value_dict (x_fields self) xs []
          \<and> deref (heap st') y = value_dict (y_fields self) ys []
          \<and> deref (heap st') wt = value_dict (weights self) ws []"
proof -
  show e: "vaddrs = [] \<Longrightarrow> xv = None \<and> yv = None \<and> w = None"
    using v by (simp add: validation_data_of_def)
  have main: "prefix (heap st) (heap st')
    \<and> (\<forall>a \<in> dict_addrs xv \<union> dict_addrs yv \<union> dict_addrs w. length (heap st) \<le> a \<and> a < length (heap st'))
    \<and> (vaddrs \<noteq> [] \<longrightarrow> (\<exists>x y wt xs ys ws. xv = Some x \<and> yv = Some y \<and> w = Some wt
          \<and> raw_arrays (data_fields self) (concat (map (\<lambda>a. heap st ! a) vaddrs)) (x_fields self) = Inr xs
          \<and> raw_arrays (data_fields self) (concat (map (\<lambda>a. heap st ! a) vaddrs)) (y_fields self) = Inr ys
          \<and> raw_arrays (data_fields self) (concat (map (\<lambda>a. heap st ! a) vaddrs)) (weights self) = Inr ws
          \<and> deref (heap st') x = value_dict (x_fields self) xs []
          \<and> deref (heap st') y = value_dict (y_fields self) ys []
          \<and> deref (heap st') wt = value_dict (weights self) ws []))"
  proof (cases "vaddrs = []")
    case True
    then show ?thesis using v by (simp add: validation_data_of_def dict_addrs_def)
  next
    case False
    let ?V = "concat (map (\<lambda>a. heap st ! a) vaddrs)"
    from v False have v': "and_then (np_concatenate vaddrs st) (\<lambda>(validation_data, st).
           and_then (get_raw_data_dict self validation_data (x_fields self) st) (\<lambda>(x_val, st).
           and_then (get_raw_data_dict self validation_data (y_fields self) st) (\<lambda>(y_val, st).
           and_then (get_raw_data_dict self validation_data (weights self) st) (\<lambda>(val_weight, st).
           and_then (preprocess_validation_test_data x_val y_val st) (\<lambda>((x_val, y_val), st).
             Inr ((Some x_val, Some y_val, Some val_weight), st)))))) = Inr ((xv, yv, w), st')"
      by (simp add: validation_data_of_def)
    from v' obtain vd st1 where c: "np_concatenate vaddrs st = Inr (vd, st1)"
      and r1: "and_then (get_raw_data_dict self vd (x_fields self) st1) (\<lambda>(x_val, st).
           and_then (get_raw_data_dict self vd (y_fields self) st) (\<lambda>(y_val, st).
           and_then (get_raw_data_dict self vd (weights self) st) (\<lambda>(val_weight, st).
           and_then (preprocess_validation_test_data x_val y_val st) (\<lambda>((x_val, y_val), st).
             Inr ((Some x_val, Some y_val, Some val_weight), st))))) = Inr ((xv, yv, w), st')"
      by (rule and_then_InrE2)
    note c' = np_concatenate_Inr[OF c]
    have vd1: "vd < length (heap st1)" and V1: "heap st1 ! vd = ?V" by (simp_all add: c')
    have p01: "prefix (heap st) (heap st1)" by (simp add: c')
    from r1 obtain x st2 where gx: "get_raw_data_dict self vd (x_fields self) st1 = Inr (x, st2)"
      and r2: "and_then (get_raw_data_dict self vd (y_fields self) st2) (\<lambda>(y_val, st).
           and_then (get_raw_data_dict self vd (weights self) st) (\<lambda>(val_weight, st).
           and_then (preprocess_validation_test_data x y_val st) (\<lambda>((x_val, y_val), st).
             Inr ((Some x_val, Some y_val, Some val_weight), st)))) = Inr ((xv, yv, w), st')"
      by (rule and_then_InrE2)
    from get_raw_data_dict_Inr[OF gx vd1] obtain xs where
      xs: "raw_arrays (data_fields self) ?V (x_fields self) = Inr xs"
      and dx: "deref (heap st2) x = value_dict (x_fields self) xs []"
      and fx: "\<forall>a \<in> snd ` set x. length (heap st1) \<le> a \<and> a < length (heap st2)"
      and p12: "prefix (heap st1) (heap st2)" unfolding V1 by auto
    have vd2: "vd < length (heap st2)" using vd1 prefix_length[OF p12] by simp
    have V2: "heap st2 ! vd = ?V" using prefix_nth[OF p12 vd1] V1 by simp
    from r2 obtain y st3 where gy: "get_raw_data_dict self vd (y_fields self) st2 = Inr (y, st3)"
      and r3: "and_then (get_raw_data_dict self vd (weights self) st3) (\<lambda>(val_weight, st).
           and_then (preprocess_validation_test_data x y st) (\<lambda>((x_val, y_val), st).
             Inr ((Some x_val, Some y_val, Some val_weight), st))) = Inr ((xv, yv, w), st')"
      by (rule and_then_InrE2)
    from get_raw_data_dict_Inr[OF gy vd2] obtain ys where
      ys: "raw_arrays (data_fields self) ?V (y_fields self) = Inr ys"
      and dy: "deref (heap st3) y = value_dict (y_fields self) ys []"
      and fy: "\<forall>a \<in> snd ` set y. length (heap st2) \<le> a \<and> a < length (heap st3)"
      and p23: "prefix (heap st2) (heap st3)" unfolding V2 by auto
    have vd3: "vd < length (heap st3)" using vd2 prefix_length[OF p23] by simp
    have V3: "heap st3 ! vd = ?V" using prefix_nth[OF p23 vd2] V2 by simp
    from r3 obtain wt st4 where gw: "get_raw_data_dict self vd (weights self) st3 = Inr (wt, st4)"
      and r4: "and_then (preprocess_validation_test_data x y st4) (\<lambda>((x_val, y_val), st).
             Inr ((Some x_val, Some y_val, Some wt), st)) = Inr ((xv, yv, w), st')"
      by (rule and_then_InrE2)
    from get_raw_data_dict_Inr[OF gw vd3] obtain ws where
      ws: "raw_arrays (data_fields self) ?V (weights self) = Inr ws"
      and dw: "deref (heap st4) wt = value_dict (weights self) ws []"
      and fw: "\<forall>a \<in> snd ` set wt. length (heap st3) \<le> a \<and> a < length (heap st4)"
      and p34: "prefix (heap st3) (heap st4)" unfolding V3 by auto
    from r4 obtain x' y' st5 where pp: "preprocess_validation_test_data x y st4 = Inr ((x', y'), st5)"
      and fin: "(xv, yv, w) = (Some x', Some y', Some wt)" "st' = st5"
      by (auto simp: and_then_Inr_iff)
    note pp' = preprocess_validation_test_data_Inr[OF pp]
    have p45: "prefix (heap st4) (heap st')" using pp'(3) fin(2) by simp
    have p35: "prefix (heap st3) (heap st')" using p34 p45 by (rule prefix_order.trans)
    have p25: "prefix (heap st2) (heap st')" using p23 p35 by (rule prefix_order.trans)
    have p05: "prefix (heap st) (heap st')"
      using p01 p12 p25 by (meson prefix_order.trans)
    have l: "length (heap st) \<le> length (heap st1)" "length (heap st1) \<le> length (heap st2)"
      "length (heap st2) \<le> length (heap st3)" "length (heap st3) \<le> length (heap st4)"
      "length (heap st4) \<le> length (heap st')"
      using p01 p12 p23 p34 p45 by (simp_all add: prefix_length)
    have ex: "deref (heap st') x = value_dict (x_fields self) xs []"
      using fresh_dict_stable[OF fx p25] dx by simp
    have ey: "deref (heap st') y = value_dict (y_fields self) ys []"
      using fresh_dict_stable[OF fy p35] dy by simp
    have ew: "deref (heap st') wt = value_dict (weights self) ws []"
      using fresh_dict_stable[OF fw p45] dw by simp
    have fr: "\<forall>a \<in> snd ` set x \<union> snd ` set y \<union> snd ` set wt. length (heap st) \<le> a \<and> a < length (heap st')"
      using fx fy fw l by fastforce
    show ?thesis
      using p05 fr xs ys ws ex ey ew fin pp'(1,2) False by (simp add: dict_addrs_def)
  qed
  from main show "prefix (heap st) (heap st')" by blast
  from main show "\<forall>a \<in> dict_addrs xv \<union> dict_addrs yv \<union> dict_addrs w. length (heap st) \<le> a \<and> a < length (heap st')" by blast
  from main show "vaddrs \<noteq> [] \<Longrightarrow> \<exists>x y wt xs ys ws. xv = Some x \<and> yv = Some y \<and> w = Some wt
          \<and> raw_arrays (data_fields self) (concat (map (\<lambda>a. heap st ! a) vaddrs)) (x_fields self) = Inr xs
          \<and> raw_arrays (data_fields self) (concat (map (\<lambda>a. heap st ! a) vaddrs)) (y_fields self) = Inr ys
          \<and> raw_arrays (data_fields self) (concat (map (\<lambda>a. heap st ! a) vaddrs)) (weights self) = Inr ws
          \<and> deref (heap st') x = value_dict (x_fields self) xs []
          \<and> deref (heap st') y = value_dict (y_fields self) ys []
          \<and> deref (heap st') wt = value_dict (weights self) ws []" by blast
qed

lemma lookup_addrs:
  assumes "map_err (lookup d) ids = Inr addrs" and "\<forall>a \<in> snd ` set d. a < n"
  shows "\<forall>a \<in> set addrs. a < n"
proof
  fix a assume "a \<in> set addrs"
  from map_err_set[OF assms(1) this] obtain s where "lookup d s = Inr a" by auto
  then have "map_of d s = Some a" by (simp add: lookup_Inr_iff)
  then have "(s, a) \<in> set d" by (rule map_of_SomeD)
  then show "a < n" using assms(2) by force
qed

lemma map_nth_prefix:
  "prefix h h' \<Longrightarrow> \<forall>a \<in> set addrs. a < length h \<Longrightarrow> map (\<lambda>a. h' ! a) addrs = map (\<lambda>a. h ! a) addrs"
  by (simp add: prefix_nth)

lemma train_arguments_Inr:
  assumes t: "train_arguments shuffle self tr va st = Inr (args, st')"
    and valid: "\<forall>a \<in> snd ` set (data_all_sub self). a < length (heap st)"
  shows "prefix (heap st) (heap st')
    \<and> (\<forall>a \<in> args_addrs args. length (heap st) \<le> a \<and> a < length (heap st'))
    \<and> (\<exists>addrs vaddrs xs ys.
          map_err (lookup (data_all_sub self)) tr = Inr addrs \<and> addrs \<noteq> []
        \<and> map_err (lookup (data_all_sub self)) va = Inr vaddrs
        \<and> raw_arrays (data_fields self) (shuffle (concat (map (\<lambda>a. heap st ! a) addrs))) (x_fields self) = Inr xs
        \<and> raw_arrays (data_fields self) (shuffle (concat (map (\<lambda>a. heap st ! a) addrs))) (y_fields self) = Inr ys
        \<and> deref (heap st') (x_train args) = value_dict (x_fields self) xs []
        \<and> deref (heap st') (y_train args) = value_dict (y_fields self) ys []
        \<and> (vaddrs = [] \<longrightarrow> x_validation args = None \<and> y_validation args = None
               \<and> validation_weight args = None)
        \<and> (vaddrs \<noteq> [] \<longrightarrow> (\<exists>x y wt vxs vys vws.
               x_validation args = Some x \<and> y_validation args = Some y \<and> validation_weight args = Some wt
             \<and> raw_arrays (data_fields self) (concat (map (\<lambda>a. heap st ! a) vaddrs)) (x_fields self) = Inr vxs
             \<and> raw_arrays (data_fields self) (concat (map (\<lambda>a. heap st ! a) vaddrs)) (y_fields self) = Inr vys
             \<and> raw_arrays (data_fields self) (concat (map (\<lambda>a. heap st ! a) vaddrs)) (weights self) = Inr vws
             \<and> deref (heap st') x = value_dict (x_fields self) vxs []
             \<and> deref (heap st') y = value_dict (y_fields self) vys []
             \<and> deref (heap st') wt = value_dict (weights self) vws [])))"
proof -
  from t obtain addrs where ad: "map_err (lookup (data_all_sub self)) tr = Inr addrs"
    and r0: "and_then (np_concatenate addrs st) (\<lambda>(train_data, st).
       (let (train_data, st) = new_array (shuffle (heap st ! train_data)) st
        in and_then (get_raw_data_dict self train_data (x_fields self) st) (\<lambda>(x_tr, st).
           and_then (get_raw_data_dict self train_data (y_fields self) st) (\<lambda>(y_tr, st).
           and_then (preprocess_train_data x_tr y_tr st) (\<lambda>((x_tr, y_tr), st).
           and_then (map_err (lookup (data_all_sub self)) va) (\<lambda>validation_data_list.
           and_then (validation_data_of self validation_data_list st) (\<lambda>((x_val, y_val, val_weight), st).
             Inr (\<lparr>x_train = x_tr, y_train = y_tr, x_validation = x_val, y_validation = y_val,
                   validation_weight = val_weight\<rparr>, st)))))))) = Inr (args, st')"
    unfolding train_arguments_def by (rule and_then_InrE)
  from r0 obtain a1 st1 where c: "np_concatenate addrs st = Inr (a1, st1)"
    and r1: "(let (train_data, st) = new_array (shuffle (heap st1 ! a1)) st1
        in and_then (get_raw_data_dict self train_data (x_fields self) st) (\<lambda>(x_tr, st).
           and_then (get_raw_data_dict self train_data (y_fields self) st) (\<lambda>(y_tr, st).
           and_then (preprocess_train_data x_tr y_tr st) (\<lambda>((x_tr, y_tr), st).
           and_then (map_err (lookup (data_all_sub self)) va) (\<lambda>validation_data_list.
           and_then (validation_data_of self validation_data_list st) (\<lambda>((x_val, y_val, val_weight), st).
             Inr (\<lparr>x_train = x_tr, y_train = y_tr, x_validation = x_val, y_validation = y_val,
                   validation_weight = val_weight\<rparr>, st))))))) = Inr (args, st')"
    by (rule and_then_InrE2)
  note c' = np_concatenate_Inr[OF c]
  let ?T = "shuffle (concat (map (\<lambda>a. heap st ! a) addrs))"
  define st2 where "st2 = st1\<lparr>heap := heap st1 @ [?T]\<rparr>"
  define a2 where "a2 = length (heap st1)"
  have na: "new_array (shuffle (heap st1 ! a1)) st1 = (a2, st2)"
    by (simp add: new_array_def st2_def a2_def c')
  have h2: "heap st2 = heap st @ [concat (map (\<lambda>a. heap st ! a) addrs), ?T]"
    by (simp add: st2_def c')
  have a22: "a2 < length (heap st2)" and T2: "heap st2 ! a2 = ?T"
    by (simp_all add: st2_def a2_def c' nth_append)
  have p02: "prefix (heap st) (heap st2)" by (simp add: h2)
  from r1 have r2: "and_then (get_raw_data_dict self a2 (x_fields self) st2) (\<lambda>(x_tr, st).
           and_then (get_raw_data_dict self a2 (y_fields self) st) (\<lambda>(y_tr, st).
           and_then (preprocess_train_data x_tr y_tr st) (\<lambda>((x_tr, y_tr), st).
           and_then (map_err (lookup (data_all_sub self)) va) (\<lambda>validation_data_list.
           and_then (validation_data_of self validation_data_list st) (\<lambda>((x_val, y_val, val_weight), st).
             Inr (\<lparr>x_train = x_tr, y_train = y_tr, x_validation = x_val, y_validation = y_val,
                   validation_weight = val_weight\<rparr>, st)))))) = Inr (args, st')"
    unfolding na by simp
  from r2 obtain x st3 where gx: "get_raw_data_dict self a2 (x_fields self) st2 = Inr (x, st3)"
    and r3: "and_then (get_raw_data_dict self a2 (y_fields self) st3) (\<lambda>(y_tr, st).
           and_then (preprocess_train_data x y_tr st) (\<lambda>((x_tr, y_tr), st).
           and_then (map_err (lookup (data_all_sub self)) va) (\<lambda>validation_data_list.
           and_then (validation_data_of self validation_data_list st) (\<lambda>((x_val, y_val, val_weight), st).
             Inr (\<lparr>x_train = x_tr, y_train = y_tr, x_validation = x_val, y_validation = y_val,
                   validation_weight = val_weight\<rparr>, st))))) = Inr (args, st')"
    by (rule and_then_InrE2)
  from get_raw_data_dict_Inr[OF gx a22] obtain xs where
    xs: "raw_arrays (data_fields self) ?T (x_fields self) = Inr xs"
    and dx: "deref (heap st3) x = value_dict (x_fields self) xs []"
    and fx: "\<forall>a \<in> snd ` set x. length (heap st2) \<le> a \<and> a < length (heap st3)"
    and p23: "prefix (heap st2) (heap st3)" unfolding T2 by auto
  have a23: "a2 < length (heap st3)" using a22 prefix_length[OF p23] by simp
  have T3: "heap st3 ! a2 = ?T" using prefix_nth[OF p23 a22] T2 by simp
  from r3 obtain y st4 where gy: "get_raw_data_dict self a2 (y_fields self) st3 = Inr (y, st4)"
    and r4: "and_then (preprocess_train_data x y st4) (\<lambda>((x_tr, y_tr), st).
           and_then (map_err (lookup (data_all_sub self)) va) (\<lambda>validation_data_list.
           and_then (validation_data_of self validation_data_list st) (\<lambda>((x_val, y_val, val_weight), st).
             Inr (\<lparr>x_train = x_tr, y_train = y_tr, x_validation = x_val, y_validation = y_val,
                   validation_weight = val_weight\<rparr>, st)))) = Inr (args, st')"
    by (rule and_then_InrE2)
  from get_raw_data_dict_Inr[OF gy a23] obtain ys where
    ys: "raw_arrays (data_fields self) ?T (y_fields self) = Inr ys"
    and dy: "deref (heap st4) y = value_dict (y_fields self) ys []"
    and fy: "\<forall>a \<in> snd ` set y. length (heap st3) \<le> a \<and> a < length (heap st4)"
    and p34: "prefix (heap st3) (heap st4)" unfolding T3 by auto
  from r4 obtain x' y' st5 where pp0: "preprocess_train_data x y st4 = Inr ((x', y'), st5)"
    and r5: "and_then (map_err (lookup (data_all_sub self)) va) (\<lambda>validation_data_list.
           and_then (validation_data_of self validation_data_list st5) (\<lambda>((x_val, y_val, val_weight), st).
             Inr (\<lparr>x_train = x', y_train = y', x_validation = x_val, y_validation = y_val,
                   validation_weight = val_weight\<rparr>, st))) = Inr (args, st')"
    by (auto simp: and_then_Inr_iff)
  note pp = preprocess_train_data_Inr[OF pp0]
  from r5 obtain vaddrs where vad: "map_err (lookup (data_all_sub self)) va = Inr vaddrs"
    and r6: "and_then (validation_data_of self vaddrs st5) (\<lambda>((x_val, y_val, val_weight), st).
             Inr (\<lparr>x_train = x, y_train = y, x_validation = x_val, y_validation = y_val,
                   validation_weight = val_weight\<rparr>, st)) = Inr (args, st')"
    unfolding pp(1,2) by (rule and_then_InrE)
  from r6 obtain xv yv w where vd: "validation_data_of self vaddrs st5 = Inr ((xv, yv, w), st')"
    and args: "args = \<lparr>x_train = x, y_train = y, x_validation = xv, y_validation = yv,
                   validation_weight = w\<rparr>"
    by (auto simp: and_then_Inr_iff)
  note vd' = validation_data_of_Inr[OF vd]
  have p45: "prefix (heap st4) (heap st5)" using pp(3) .
  have p05: "prefix (heap st) (heap st5)"
    using p02 p23 p34 p45 by (meson prefix_order.trans)
  have p5: "prefix (heap st5) (heap st')" using vd'(1) .
  have p0: "prefix (heap st) (heap st')" using p05 p5 by (rule prefix_order.trans)
  have p3: "prefix (heap st3) (heap st')" using p34 p45 p5 by (meson prefix_order.trans)
  have p4: "prefix (heap st4) (heap st')" using p45 p5 by (rule prefix_order.trans)
  have l: "length (heap st) \<le> length (heap st2)" "length (heap st2) \<le> length (heap st3)"
      "length (heap st3) \<le> length (heap st4)" "length (heap st4) \<le> length (heap st5)"
      "length (heap st5) \<le> length (heap st')"
    using p02 p23 p34 p45 p5 by (simp_all add: prefix_length)
  have ex: "deref (heap st') x = value_dict (x_fields self) xs []"
    using fresh_dict_stable[OF fx p3] dx by simp
  have ey: "deref (heap st') y = value_dict (y_fields self) ys []"
    using fresh_dict_stable[OF fy p4] dy by simp
  have fr: "\<forall>a \<in> args_addrs args. length (heap st) \<le> a \<and> a < length (heap st')"
  proof
    fix a assume "a \<in> args_addrs args"
    then consider "a \<in> snd ` set x" | "a \<in> snd ` set y"
      | "a \<in> dict_addrs xv \<union> dict_addrs yv \<union> dict_addrs w"
      by (auto simp: args_addrs_def args)
    then show "length (heap st) \<le> a \<and> a < length (heap st')"
    proof cases
      case 1 then show ?thesis using fx l by fastforce
    next
      case 2 then show ?thesis using fy l by fastforce
    next
      case 3
      with vd'(2) have "length (heap st5) \<le> a \<and> a < length (heap st')" by blast
      then show ?thesis using l by linarith
    qed
  qed
  have va_valid: "\<forall>a \<in> set vaddrs. a < length (heap st)"
    using vad valid by (rule lookup_addrs)
  have Veq: "concat (map (\<lambda>a. heap st5 ! a) vaddrs) = concat (map (\<lambda>a. heap st ! a) vaddrs)"
    by (rule arg_cong[where f = concat]) (rule map_nth_prefix[OF p05 va_valid])
  have none: "vaddrs = [] \<longrightarrow> x_validation args = None \<and> y_validation args = None
               \<and> validation_weight args = None"
    using vd'(3) by (simp add: args)
  have some: "vaddrs \<noteq> [] \<longrightarrow> (\<exists>x y wt vxs vys vws.
               x_validation args = Some x \<and> y_validation args = Some y \<and> validation_weight args = Some wt
             \<and> raw_arrays (data_fields self) (concat (map (\<lambda>a. heap st ! a) vaddrs)) (x_fields self) = Inr vxs
             \<and> raw_arrays (data_fields self) (concat (map (\<lambda>a. heap st ! a) vaddrs)) (y_fields self) = Inr vys
             \<and> raw_arrays (data_fields self) (concat (map (\<lambda>a. heap st ! a) vaddrs)) (weights self) = Inr vws
             \<and> deref (heap st') x = value_dict (x_fields self) vxs []
             \<and> deref (heap st') y = value_dict (y_fields self) vys []
             \<and> deref (heap st') wt = value_dict (weights self) vws [])"
    using vd'(4) unfolding Veq by (simp add: args)
  have "x_train args = x" "y_train args = y" by (simp_all add: args)
  then show ?thesis
    using p0 fr ad c'(1) vad xs ys ex ey none some by blast
qed

lemma prefixI_nth:
  assumes "length h \<le> length h'" and "\<And>a. a < length h \<Longrightarrow> h' ! a = h ! a"
  shows "prefix h h'"
proof -
  have "take (length h) h' = h"
    using assms by (intro nth_equalityI) auto
  then show ?thesis by (metis take_is_prefix)
qed

lemma writes_only_fresh:
  assumes w: "writes_only A h1 h2" and p: "prefix h0 h1"
    and fresh: "\<forall>a \<in> A. length h0 \<le> a"
  shows "prefix h0 h2"
proof (rule prefixI_nth)
  show "length h0 \<le> length h2" using w prefix_length[OF p] by (simp add: writes_only_def)
  fix a assume a: "a < length h0"
  then have "a < length h1" using prefix_length[OF p] by simp
  moreover have "a \<notin> A" using fresh a by auto
  ultimately have "h2 ! a = h1 ! a" using w by (simp add: writes_only_def)
  then show "h2 ! a = h0 ! a" using prefix_nth[OF p a] by simp
qed

lemma preprocess_and_train_prefix:
  assumes wb: "well_behaved cap"
    and r: "preprocess_and_train cap shuffle self tr va st = Inr (model, st')"
    and valid: "\<forall>a \<in> snd ` set (data_all_sub self). a < length (heap st)"
  shows "prefix (heap st) (heap st')"
proof -
  from r obtain args st1 where ta: "train_arguments shuffle self tr va st = Inr (args, st1)"
    and r1: "and_then (train_model cap args (heap st1)) (\<lambda>(model, h). Inr (model, st1\<lparr>heap := h\<rparr>))
        = Inr (model, st')"
    unfolding preprocess_and_train_def by (rule and_then_InrE2)
  from r1 obtain h where tm: "train_model cap args (heap st1) = Inr (model, h)" and st': "st' = st1\<lparr>heap := h\<rparr>"
    by (auto simp: and_then_Inr_iff)
  from train_arguments_Inr[OF ta valid] have p: "prefix (heap st) (heap st1)"
    and fr: "\<forall>a \<in> args_addrs args. length (heap st) \<le> a" by auto
  have "writes_only (args_addrs args) (heap st1) h" using wb tm by (auto simp: well_behaved_def)
  then have "prefix (heap st) h" using p fr by (rule writes_only_fresh)
  then show ?thesis by (simp add: st')
qed

lemma evaluate_subject_prefix:
  assumes wb: "well_behaved cap"
    and r: "evaluate_subject cap self model name a st = Inr (res, st')"
    and a: "a < length (heap st)"
  shows "prefix (heap st) (heap st')"
proof -
  from r obtain x st1 where gx: "get_raw_data_dict self a (x_fields self) st = Inr (x, st1)"
    and r1: "and_then (get_raw_data_dict self a (y_fields self) st1) (\<lambda>(test_sub_y, st).
     and_then (get_raw_data_dict self a (weights self) st) (\<lambda>(test_sub_weight, st).
     and_then (preprocess_validation_test_data x test_sub_y st) (\<lambda>((test_sub_x, test_sub_y), st).
     and_then (predict cap model test_sub_x (heap st)) (\<lambda>(pred_sub_y, h).
       (let st = st\<lparr>heap := h\<rparr>
        in and_then (get_all_scores (y_fields self) (deref (heap st) test_sub_y)
                       (deref (heap st) pred_sub_y) (deref (heap st) test_sub_weight)) (\<lambda>all_scores.
             Inr (map (\<lambda>scores. \<lparr>r2 = r2 scores, r2_all = r2_all scores, rmse = rmse scores,
                                  mae = mae scores, r_rmse = r_rmse scores,
                                  cor_value = cor_value scores, output = output scores,
                                  field = field scores, subject = name\<rparr>) all_scores,
                  st))))))) = Inr (res, st')"
    unfolding evaluate_subject_def by (rule and_then_InrE2)
  from get_raw_data_dict_Inr[OF gx a] have p01: "prefix (heap st) (heap st1)"
    and fx: "\<forall>a \<in> snd ` set x. length (heap st) \<le> a" by auto
  have a1: "a < length (heap st1)" using a prefix_length[OF p01] by simp
  from r1 obtain y st2 where gy: "get_raw_data_dict self a (y_fields self) st1 = Inr (y, st2)"
    and r2: "and_then (get_raw_data_dict self a (weights self) st2) (\<lambda>(test_sub_weight, st).
     and_then (preprocess_validation_test_data x y st) (\<lambda>((test_sub_x, test_sub_y), st).
     and_then (predict cap model test_sub_x (heap st)) (\<lambda>(pred_sub_y, h).
       (let st = st\<lparr>heap := h\<rparr>
        in and_then (get_all_scores (y_fields self) (deref (heap st) test_sub_y)
                       (deref (heap st) pred_sub_y) (deref (heap st) test_sub_weight)) (\<lambda>all_scores.
             Inr (map (\<lambda>scores. \<lparr>r2 = r2 scores, r2_all = r2_all scores, rmse = rmse scores,
                                  mae = mae scores, r_rmse = r_rmse scores,
                                  cor_value = cor_value scores, output = output scores,
                                  field = field scores, subject = name\<rparr>) all_scores,
                  st)))))) = Inr (res, st')"
    by (rule and_then_InrE2)
  have p12: "prefix (heap st1) (heap st2)" using gy a1 by (rule get_raw_data_dict_prefix)
  have a2: "a < length (heap st2)" using a1 prefix_length[OF p12] by simp
  from r2 obtain wt st3 where gw: "get_raw_data_dict self a (weights self) st2 = Inr (wt, st3)"
    and r3: "and_then (preprocess_validation_test_data x y st3) (\<lambda>((test_sub_x, test_sub_y), st).
     and_then (predict cap model test_sub_x (heap st)) (\<lambda>(pred_sub_y, h).
       (let st = st\<lparr>heap := h\<rparr>
        in and_then (get_all_scores (y_fields self) (deref (heap st) test_sub_y)
                       (deref (heap st) pred_sub_y) (deref (heap st) wt)) (\<lambda>all_scores.
             Inr (map (\<lambda>scores. \<lparr>r2 = r2 scores, r2_all = r2_all scores, rmse = rmse scores,
                                  mae = mae scores, r_rmse = r_rmse scores,
                                  cor_value = cor_value scores, output = output scores,
                                  field = field scores, subject = name\<rparr>) all_scores,
                  st))))) = Inr (res, st')"
    by (rule and_then_InrE2)
  have p23: "prefix (heap st2) (heap st3)" using gw a2 by (rule get_raw_data_dict_prefix)
  from r3 obtain x' y' st4 where pp: "preprocess_validation_test_data x y st3 = Inr ((x', y'), st4)"
    and r4: "and_then (predict cap model x' (heap st4)) (\<lambda>(pred_sub_y, h).
       (let st = st4\<lparr>heap := h\<rparr>
        in and_then (get_all_scores (y_fields self) (deref (heap st) y')
                       (deref (heap st) pred_sub_y) (deref (heap st) wt)) (\<lambda>all_scores.
             Inr (map (\<lambda>scores. \<lparr>r2 = r2 scores, r2_all = r2_all scores, rmse = rmse scores,
                                  mae = mae scores, r_rmse = r_rmse scores,
                                  cor_value = cor_value scores, output = output scores,
                                  field = field scores, subject = name\<rparr>) all_scores,
                  st)))) = Inr (res, st')"
    by (auto simp: and_then_Inr_iff)
  note pp' = preprocess_validation_test_data_Inr[OF pp]
  from r4 obtain pred h where pr: "predict cap model x' (heap st4) = Inr (pred, h)"
    and st': "st' = st4\<lparr>heap := h\<rparr>"
    by (auto simp: and_then_Inr_iff Let_def)
  have p04: "prefix (heap st) (heap st4)"
    using p01 p12 p23 pp'(3) by (meson prefix_order.trans)
  have "writes_only (snd ` set x) (heap st4) h" using wb pr pp'(1) by (auto simp: well_behaved_def)
  then have "prefix (heap st) h" using p04 fx by (rule writes_only_fresh)
  then show ?thesis by (simp add: st')
qed

lemma evaluation_loop_prefix:
  assumes wb: "well_behaved cap"
  shows "evaluation_loop cap self model subs acc st = Inr (res, st') \<Longrightarrow>
     \<forall>a \<in> snd ` set subs. a < length (heap st) \<Longrightarrow> prefix (heap st) (heap st')"
proof (induction subs arbitrary: acc st)
  case Nil then show ?case by simp
next
  case (Cons g subs)
  obtain name a where g: "g = (name, a)" by (cases g)
  from Cons.prems(1) obtain sc st1 where e: "evaluate_subject cap self model name a st = Inr (sc, st1)"
    and rest: "evaluation_loop cap self model subs (acc @ sc) st1 = Inr (res, st')"
    unfolding g by (auto simp: and_then_Inr_iff)
  have a: "a < length (heap st)" using Cons.prems(2) g by simp
  have p: "prefix (heap st) (heap st1)" using wb e a by (rule evaluate_subject_prefix)
  have "\<forall>a \<in> snd ` set subs. a < length (heap st1)"
    using Cons.prems(2) prefix_length[OF p] by fastforce
  from Cons.IH[OF rest this] p show ?case by (meson prefix_order.trans)
qed

lemma model_evaluation_prefix:
  assumes wb: "well_behaved cap"
    and r: "model_evaluation cap self model test_sub_ids st = Inr (res, st')"
    and valid: "\<forall>a \<in> snd ` set (data_all_sub self). a < length (heap st)"
  shows "prefix (heap st) (heap st')"
proof -
  from r obtain addrs where ad: "map_err (lookup (data_all_sub self)) test_sub_ids = Inr addrs"
    and l: "evaluation_loop cap self model (zip test_sub_ids addrs) [] st = Inr (res, st')"
    unfolding model_evaluation_def by (rule and_then_InrE)
  have "\<forall>a \<in> set addrs. a < length (heap st)" using ad valid by (rule lookup_addrs)
  then have "\<forall>a \<in> snd ` set (zip test_sub_ids addrs). a < length (heap st)"
    by (auto dest: set_zip_rightD)
  with wb l show ?thesis by (rule evaluation_loop_prefix)
qed

lemma preprocess_train_evaluation_prefix:
  assumes wb: "well_behaved cap"
    and r: "preprocess_train_evaluation cap shuffle self tr va te st = Inr (res, st')"
    and valid: "\<forall>a \<in> snd ` set (data_all_sub self). a < length (heap st)"
  shows "prefix (heap st) (heap st')"
proof -
  from r obtain model st1 where t: "preprocess_and_train cap shuffle self tr va st = Inr (model, st1)"
    and e: "model_evaluation cap self model te st1 = Inr (res, st')"
    unfolding preprocess_train_evaluation_def by (rule and_then_InrE2)
  have p: "prefix (heap st) (heap st1)" using wb t valid by (rule preprocess_and_train_prefix)
  have "\<forall>a \<in> snd ` set (data_all_sub self). a < length (heap st1)"
    using valid prefix_length[OF p] by fastforce
  with wb e have "prefix (heap st1) (heap st')" by (rule model_evaluation_prefix)
  with p show ?thesis by (rule prefix_order.trans)
qed

lemma cross_validation_loop_prefix:
  assumes wb: "well_behaved cap"
  shows "cross_validation_loop cap shuffle self folds acc st = Inr (res, st') \<Longrightarrow>
     \<forall>a \<in> snd ` set (data_all_sub self). a < length (heap st) \<Longrightarrow> prefix (heap st) (heap st')"
proof (induction folds arbitrary: acc st)
  case Nil then show ?case by simp
next
  case (Cons f folds)
  obtain tr va te where f: "f = (tr, va, te)" by (cases f)
  from Cons.prems(1) obtain tres st1 where
    e: "preprocess_train_evaluation cap shuffle self tr va te st = Inr (tres, st1)"
    and rest: "cross_validation_loop cap shuffle self folds (acc @ tres) st1 = Inr (res, st')"
    unfolding f by (auto simp: and_then_Inr_iff)
  have p: "prefix (heap st) (heap st1)" using wb e Cons.prems(2) by (rule preprocess_train_evaluation_prefix)
  have "\<forall>a \<in> snd ` set (data_all_sub self). a < length (heap st1)"
    using Cons.prems(2) prefix_length[OF p] by fastforce
  from Cons.IH[OF rest this] p show ?case by (meson prefix_order.trans)
qed

lemma cross_validation_prefix:
  assumes wb: "well_behaved cap"
    and r: "cross_validation cap shuffle self sub_ids k st = Inr (res, st')"
    and valid: "\<forall>a \<in> snd ` set (data_all_sub self). a < length (heap st)"
  shows "prefix (heap st) (heap st')"
proof -
  from r obtain results where
    l: "cross_validation_loop cap shuffle self (cv_folds sub_ids k) [] st = Inr (results, st')"
    by (auto simp: cross_validation_def and_then_Inr_iff split: if_splits)
  with wb show ?thesis using valid by (rule cross_validation_loop_prefix)
qed

lemma well_behaved_demo: "well_behaved demo_capability"
  by (auto simp: well_behaved_def demo_capability_def writes_only_def nth_append split: option.splits)

lemma pipeline_run_prefix:
  assumes wb: "well_behaved cap"
  shows "pipeline_run cap shuffle self st st' \<Longrightarrow>
     \<forall>a \<in> snd ` set (data_all_sub self). a < length (heap st) \<Longrightarrow> prefix (heap st) (heap st')"
proof (induction rule: pipeline_run.induct)
  case (no_call st)
  then show ?case by simp
next
  case (extract_call data fields_dict st d st1 st')
  have p: "prefix (heap st) (heap st1)"
    using extract_call.hyps(1,2) by (rule get_raw_data_dict_prefix)
  have "\<forall>a \<in> snd ` set (data_all_sub self). a < length (heap st1)"
    using extract_call.prems prefix_length[OF p] by fastforce
  from extract_call.IH[OF this] p show ?case by (meson prefix_order.trans)
next
  case (normalize_call x meth mode st scaled st1 st')
  have p: "prefix (heap st) (heap st1)" using normalize_call.hyps(1) by (rule normalize_data_prefix)
  have "\<forall>a \<in> snd ` set (data_all_sub self). a < length (heap st1)"
    using normalize_call.prems prefix_length[OF p] by fastforce
  from normalize_call.IH[OF this] p show ?case by (meson prefix_order.trans)
next
  case (preprocess_train_call x y st xy st1 st')
  obtain x' y' where "xy = (x', y')" by (cases xy)
  then have p: "prefix (heap st) (heap st1)"
    using preprocess_train_call.hyps(1) preprocess_train_data_Inr(3) by blast
  have "\<forall>a \<in> snd ` set (data_all_sub self). a < length (heap st1)"
    using preprocess_train_call.prems prefix_length[OF p] by fastforce
  from preprocess_train_call.IH[OF this] p show ?case by (meson prefix_order.trans)
next
  case (preprocess_test_call x y st xy st1 st')
  obtain x' y' where "xy = (x', y')" by (cases xy)
  then have p: "prefix (heap st) (heap st1)"
    using preprocess_test_call.hyps(1) preprocess_validation_test_data_Inr(3) by blast
  have "\<forall>a \<in> snd ` set (data_all_sub self). a < length (heap st1)"
    using preprocess_test_call.prems prefix_length[OF p] by fastforce
  from preprocess_test_call.IH[OF this] p show ?case by (meson prefix_order.trans)
next
  case (train_call train_sub_ids validate_sub_ids st model st1 st')
  have p: "prefix (heap st) (heap st1)"
    using wb train_call.hyps(1) train_call.prems by (rule preprocess_and_train_prefix)
  have "\<forall>a \<in> snd ` set (data_all_sub self). a < length (heap st1)"
    using train_call.prems prefix_length[OF p] by fastforce
  from train_call.IH[OF this] p show ?case by (meson prefix_order.trans)
next
  case (evaluate_call model test_sub_ids st test_results st1 st')
  have p: "prefix (heap st) (heap st1)"
    using wb evaluate_call.hyps(1) evaluate_call.prems by (rule model_evaluation_prefix)
  have "\<forall>a \<in> snd ` set (data_all_sub self). a < length (heap st1)"
    using evaluate_call.prems prefix_length[OF p] by fastforce
  from evaluate_call.IH[OF this] p show ?case by (meson prefix_order.trans)
next
  case (train_evaluate_call train_sub_ids validate_sub_ids test_sub_ids st test_results st1 st')
  have p: "prefix (heap st) (heap st1)"
    using wb train_evaluate_call.hyps(1) train_evaluate_call.prems
    by (rule preprocess_train_evaluation_prefix)
  have "\<forall>a \<in> snd ` set (data_all_sub self). a < length (heap st1)"
    using train_evaluate_call.prems prefix_length[OF p] by fastforce
  from train_evaluate_call.IH[OF this] p show ?case by (meson prefix_order.trans)
next
  case (cross_validation_call sub_ids test_set_sub_num st tables st1 st')
  have p: "prefix (heap st) (heap st1)"
    using wb cross_validation_call.hyps(1) cross_validation_call.prems
    by (rule cross_validation_prefix)
  have "\<forall>a \<in> snd ` set (data_all_sub self). a < length (heap st1)"
    using cross_validation_call.prems prefix_length[OF p] by fastforce
  from cross_validation_call.IH[OF this] p show ?case by (meson prefix_order.trans)
qed

lemma cv_folds_member:
  assumes "(tr, va, te) \<in> set (cv_folds sub_ids k)"
  shows "va = te" and "set tr = set sub_ids - set te"
  using assms by (auto simp: cv_folds_def cv_fold_def Let_def set_setdiff1d)

lemma lookup_agree:
  assumes ad: "map_err (lookup d) ids = Inr addrs"
    and same: "\<forall>(s, a) \<in> set d. s \<in> set ids \<longrightarrow> h1 ! a = h2 ! a"
  shows "map (\<lambda>a. h1 ! a) addrs = map (\<lambda>a. h2 ! a) addrs"
  using ad same
proof (induction ids arbitrary: addrs)
  case Nil then show ?case by simp
next
  case (Cons s ids)
  from Cons.prems(1) obtain a rest where a: "lookup d s = Inr a" and r: "map_err (lookup d) ids = Inr rest"
    and addrs: "addrs = a # rest" by (auto split: sum.splits)
  have "(s, a) \<in> set d" using a by (auto simp: lookup_Inr_iff dest: map_of_SomeD)
  then have "h1 ! a = h2 ! a" using Cons.prems(2) by auto
  moreover have "map (\<lambda>a. h1 ! a) rest = map (\<lambda>a. h2 ! a) rest"
    using r Cons.prems(2) by (intro Cons.IH) auto
  ultimately show ?case by (simp add: addrs)
qed

section \<open>Exceptions of the scorer reach the caller\<close>

lemma map_err_isl: "x \<in> set xs \<Longrightarrow> isl (f x) \<Longrightarrow> isl (map_err f xs)"
proof (induction xs)
  case (Cons a xs)
  then show ?case by (cases "f a"; cases "map_err f xs") (auto simp: map_err_Cons_and_then)
qed simp

lemma score_one_field_degenerate:
  assumes yt: "lookup y_true output_name = Inr yt" and ytc: "np_col yt col = Inr ytc"
    and m: "weight_mask weights_of_subject ytc output_name col = Inr w"
    and i: "i < length ytc" "i < length w" and d: "length (filter (\<lambda>b. b) (w ! i)) < 2"
  shows "isl (score_one_field y_true y_pred weights_of_subject output_name col field_name)"
proof -
  have "get_column_score ytc ypc w \<noteq> Inr cs" for ypc cs
    using column_steps_degenerate[OF i d, of ypc]
    by (cases "column_steps ytc ypc w") (simp_all add: get_column_score_def)
  moreover have "(case map_of weights_of_subject output_name of
        None \<Rightarrow> Inr (map (map (\<lambda>_. True)) ytc)
      | Some wt \<Rightarrow> and_then (np_col wt col) (\<lambda>wc. Inr (map (map (\<lambda>v. v = Fin 1)) wc))) = Inr w"
    using m by (simp add: weight_mask_def)
  ultimately show ?thesis
    by (auto simp: score_one_field_def yt ytc intro!: isl_and_then)
qed

lemma get_all_scores_degenerate:
  assumes f: "(output_name, col, field_name) \<in> set (field_columns yf)"
    and yt: "lookup y_true output_name = Inr yt" and ytc: "np_col yt col = Inr ytc"
    and m: "weight_mask weights_of_subject ytc output_name col = Inr w"
    and i: "i < length ytc" "i < length w" and d: "length (filter (\<lambda>b. b) (w ! i)) < 2"
  shows "isl (get_all_scores yf y_true y_pred weights_of_subject)"
  unfolding get_all_scores_def
  apply (rule map_err_isl[OF f])
  using score_one_field_degenerate[OF yt ytc m i d] by simp

lemma deref_writes_only:
  assumes "writes_only A h1 h2" and "prefix h0 h1"
    and "\<forall>b \<in> snd ` set d. b < length h0 \<and> b \<notin> A"
  shows "deref h2 d = deref h0 d"
proof -
  have "h2 ! b = h0 ! b" if "b \<in> snd ` set d" for b
  proof -
    from that assms(3) have b: "b < length h0" "b \<notin> A" by auto
    then have "b < length h1" using prefix_length[OF assms(2)] by simp
    then have "h2 ! b = h1 ! b" using assms(1) b by (simp add: writes_only_def)
    then show ?thesis using prefix_nth[OF assms(2) b(1)] by simp
  qed
  then show ?thesis by (force simp: deref_def)
qed

lemma evaluate_subject_scores:
  assumes wb: "well_behaved cap"
    and r: "evaluate_subject cap self model name a st = Inr (res, st')"
    and a: "a < length (heap st)"
  shows "\<exists>y_true w y_pred sc.
      subject_values self (heap st ! a) (y_fields self) = Inr y_true
    \<and> subject_values self (heap st ! a) (weights self) = Inr w
    \<and> get_all_scores (y_fields self) y_true y_pred w = Inr sc"
proof -
  from r obtain x st1 where gx: "get_raw_data_dict self a (x_fields self) st = Inr (x, st1)"
    and r1: "and_then (get_raw_data_dict self a (y_fields self) st1) (\<lambda>(test_sub_y, st).
     and_then (get_raw_data_dict self a (weights self) st) (\<lambda>(test_sub_weight, st).
     and_then (preprocess_validation_test_data x test_sub_y st) (\<lambda>((test_sub_x, test_sub_y), st).
     and_then (predict cap model test_sub_x (heap st)) (\<lambda>(pred_sub_y, h).
       (let st = st\<lparr>heap := h\<rparr>
        in and_then (get_all_scores (y_fields self) (deref (heap st) test_sub_y)
                       (deref (heap st) pred_sub_y) (deref (heap st) test_sub_weight)) (\<lambda>all_scores.
             Inr (map (\<lambda>scores. \<lparr>r2 = r2 scores, r2_all = r2_all scores, rmse = rmse scores,
                                  mae = mae scores, r_rmse = r_rmse scores,
                                  cor_value = cor_value scores, output = output scores,
                                  field = field scores, subject = name\<rparr>) all_scores,
                  st))))))) = Inr (res, st')"
    unfolding evaluate_subject_def by (rule and_then_InrE2)
  from get_raw_data_dict_Inr[OF gx a] have p01: "prefix (heap st) (heap st1)"
    and fx: "\<forall>b \<in> snd ` set x. b < length (heap st1)" by auto
  have a1: "a < length (heap st1)" using a prefix_length[OF p01] by simp
  from r1 obtain y st2 where gy: "get_raw_data_dict self a (y_fields self) st1 = Inr (y, st2)"
    and r2: "and_then (get_raw_data_dict self a (weights self) st2) (\<lambda>(test_sub_weight, st).
     and_then (preprocess_validation_test_data x y st) (\<lambda>((test_sub_x, test_sub_y), st).
     and_then (predict cap model test_sub_x (heap st)) (\<lambda>(pred_sub_y, h).
       (let st = st\<lparr>heap := h\<rparr>
        in and_then (get_all_scores (y_fields self) (deref (heap st) test_sub_y)
                       (deref (heap st) pred_sub_y) (deref (heap st) test_sub_weight)) (\<lambda>all_scores.
             Inr (map (\<lambda>scores. \<lparr>r2 = r2 scores, r2_all = r2_all scores, rmse = rmse scores,
                                  mae = mae scores, r_rmse = r_rmse scores,
                                  cor_value = cor_value scores, output = output scores,
                                  field = field scores, subject = name\<rparr>) all_scores,
                  st)))))) = Inr (res, st')"
    by (rule and_then_InrE2)
  have p12: "prefix (heap st1) (heap st2)" using gy a1 by (rule get_raw_data_dict_prefix)
  from get_raw_data_dict_Inr[OF gy a1] obtain ys where
    ys: "raw_arrays (data_fields self) (heap st1 ! a) (y_fields self) = Inr ys"
    and dy: "deref (heap st2) y = value_dict (y_fields self) ys []"
    and fy: "\<forall>b \<in> snd ` set y. length (heap st1) \<le> b \<and> b < length (heap st2)" by auto
  have a2: "a < length (heap st2)" using a1 prefix_length[OF p12] by simp
  from r2 obtain wt st3 where gw: "get_raw_data_dict self a (weights self) st2 = Inr (wt, st3)"
    and r3: "and_then (preprocess_validation_test_data x y st3) (\<lambda>((test_sub_x, test_sub_y), st).
     and_then (predict cap model test_sub_x (heap st)) (\<lambda>(pred_sub_y, h).
       (let st = st\<lparr>heap := h\<rparr>
        in and_then (get_all_scores (y_fields self) (deref (heap st) test_sub_y)
                       (deref (heap st) pred_sub_y) (deref (heap st) wt)) (\<lambda>all_scores.
             Inr (map (\<lambda>scores. \<lparr>r2 = r2 scores, r2_all = r2_all scores, rmse = rmse scores,
                                  mae = mae scores, r_rmse = r_rmse scores,
                                  cor_value = cor_value scores, output = output scores,
                                  field = field scores, subject = name\<rparr>) all_scores,
                  st))))) = Inr (res, st')"
    by (rule and_then_InrE2)
  have p23: "prefix (heap st2) (heap st3)" using gw a2 by (rule get_raw_data_dict_prefix)
  from get_raw_data_dict_Inr[OF gw a2] obtain ws where
    ws: "raw_arrays (data_fields self) (heap st2 ! a) (weights self) = Inr ws"
    and dw: "deref (heap st3) wt = value_dict (weights self) ws []"
    and fw: "\<forall>b \<in> snd ` set wt. length (heap st2) \<le> b \<and> b < length (heap st3)" by auto
  from r3 obtain x' y' st4 where pp: "preprocess_validation_test_data x y st3 = Inr ((x', y'), st4)"
    and r4: "and_then (predict cap model x' (heap st4)) (\<lambda>(pred_sub_y, h).
       (let st = st4\<lparr>heap := h\<rparr>
        in and_then (get_all_scores (y_fields self) (deref (heap st) y')
                       (deref (heap st) pred_sub_y) (deref (heap st) wt)) (\<lambda>all_scores.
             Inr (map (\<lambda>scores. \<lparr>r2 = r2 scores, r2_all = r2_all scores, rmse = rmse scores,
                                  mae = mae scores, r_rmse = r_rmse scores,
                                  cor_value = cor_value scores, output = output scores,
                                  field = field scores, subject = name\<rparr>) all_scores,
                  st)))) = Inr (res, st')"
    by (auto simp: and_then_Inr_iff)
  note pp' = preprocess_validation_test_data_Inr[OF pp]
  from r4 obtain pred h sc where pr: "predict cap model x' (heap st4) = Inr (pred, h)"
    and sc: "get_all_scores (y_fields self) (deref h y') (deref h pred) (deref h wt) = Inr sc"
    and res: "res = map (\<lambda>scores. \<lparr>r2 = r2 scores, r2_all = r2_all scores, rmse = rmse scores,
                                  mae = mae scores, r_rmse = r_rmse scores,
                                  cor_value = cor_value scores, output = output scores,
                                  field = field scores, subject = name\<rparr>) sc"
    by (auto simp: and_then_Inr_iff Let_def)
  have wo: "writes_only (snd ` set x) (heap st4) h" using wb pr pp'(1) by (auto simp: well_behaved_def)
  have p24: "prefix (heap st2) (heap st4)" using p23 pp'(3) by (rule prefix_order.trans)
  have "\<forall>b \<in> snd ` set y. b < length (heap st2) \<and> b \<notin> snd ` set x" using fx fy by fastforce
  with wo p24 have "deref h y = deref (heap st2) y" by (rule deref_writes_only)
  then have y: "deref h y' = value_dict (y_fields self) ys []" using dy pp'(2) by simp
  have l12: "length (heap st1) \<le> length (heap st2)" using prefix_length[OF p12] .
  have "\<forall>b \<in> snd ` set wt. b < length (heap st3) \<and> b \<notin> snd ` set x" using fx fw l12 by fastforce
  with wo pp'(3) have "deref h wt = deref (heap st3) wt" by (rule deref_writes_only)
  then have w: "deref h wt = value_dict (weights self) ws []" using dw by simp
  have "heap st1 ! a = heap st ! a" using p01 a by (rule prefix_nth)
  moreover have "heap st2 ! a = heap st ! a" using prefix_nth[OF p12 a1] prefix_nth[OF p01 a] by simp
  ultimately have "subject_values self (heap st ! a) (y_fields self) = Inr (value_dict (y_fields self) ys [])"
    and "subject_values self (heap st ! a) (weights self) = Inr (value_dict (weights self) ws [])"
    using ys ws by (simp_all add: subject_values_def)
  then show ?thesis using sc y w by metis
qed

lemma map_err_zip:
  "map_err f xs = Inr ys \<Longrightarrow> x \<in> set xs \<Longrightarrow> f x = Inr y \<Longrightarrow> (x, y) \<in> set (zip xs ys)"
proof (induction xs arbitrary: ys)
  case (Cons a xs)
  from Cons.prems(1) obtain b rest where b: "f a = Inr b" and r: "map_err f xs = Inr rest"
    and ys: "ys = b # rest" by (auto split: sum.splits)
  show ?case
  proof (cases "x = a")
    case True then show ?thesis using b Cons.prems(3) ys by simp
  next
    case False
    then have "(x, y) \<in> set (zip xs rest)" using Cons.IH[OF r] Cons.prems by simp
    then show ?thesis by (simp add: ys)
  qed
qed simp

lemma evaluation_loop_raises:
  assumes wb: "well_behaved cap"
    and bad: "\<And>st. a < length (heap st) \<Longrightarrow> heap st ! a = t \<Longrightarrow>
        isl (evaluate_subject cap self model name a st)"
  shows "(name, a) \<in> set subs \<Longrightarrow> \<forall>b \<in> snd ` set subs. b < length (heap st) \<Longrightarrow>
     heap st ! a = t \<Longrightarrow> isl (evaluation_loop cap self model subs acc st)"
proof (induction subs arbitrary: acc st)
  case Nil then show ?case by simp
next
  case (Cons g subs)
  obtain name' a' where g: "g = (name', a')" by (cases g)
  have a: "a < length (heap st)" using Cons.prems(1,2) by force
  have a': "a' < length (heap st)" using Cons.prems(2) g by simp
  show ?case
  proof (cases "evaluate_subject cap self model name' a' st")
    case (Inl e) then show ?thesis by (simp add: g)
  next
    case (Inr r)
    obtain sc st1 where r: "r = (sc, st1)" by (cases r)
    have e: "evaluate_subject cap self model name' a' st = Inr (sc, st1)" using Inr r by simp
    have "g \<noteq> (name, a)" using bad[OF a Cons.prems(3)] e g by auto
    then have mem: "(name, a) \<in> set subs" using Cons.prems(1) by simp
    have p: "prefix (heap st) (heap st1)" using wb e a' by (rule evaluate_subject_prefix)
    have v: "\<forall>b \<in> snd ` set subs. b < length (heap st1)"
      using Cons.prems(2) prefix_length[OF p] by fastforce
    have "heap st1 ! a = t" using prefix_nth[OF p a] Cons.prems(3) by simp
    from Cons.IH[OF mem v this] show ?thesis by (simp add: g e)
  qed
qed

lemma model_evaluation_raises:
  assumes wb: "well_behaved cap"
    and bad: "\<And>st name. a < length (heap st) \<Longrightarrow> heap st ! a = t \<Longrightarrow>
        isl (evaluate_subject cap self model name a st)"
    and s: "s \<in> set test_sub_ids" "lookup (data_all_sub self) s = Inr a"
    and valid: "\<forall>b \<in> snd ` set (data_all_sub self). b < length (heap st)"
    and t: "heap st ! a = t"
  shows "isl (model_evaluation cap self model test_sub_ids st)"
proof (cases "map_err (lookup (data_all_sub self)) test_sub_ids")
  case (Inl e) then show ?thesis by (simp add: model_evaluation_def)
next
  case (Inr addrs)
  have "(s, a) \<in> set (zip test_sub_ids addrs)" using Inr s by (rule map_err_zip)
  moreover have "\<forall>b \<in> set addrs. b < length (heap st)" using Inr valid by (rule lookup_addrs)
  then have "\<forall>b \<in> snd ` set (zip test_sub_ids addrs). b < length (heap st)"
    by (auto dest: set_zip_rightD)
  ultimately have "isl (evaluation_loop cap self model (zip test_sub_ids addrs) [] st)"
    using t by (intro evaluation_loop_raises[OF wb bad])
  then show ?thesis by (simp add: model_evaluation_def Inr)
qed

lemma preprocess_train_evaluation_raises:
  assumes wb: "well_behaved cap"
    and bad: "\<And>st name model. a < length (heap st) \<Longrightarrow> heap st ! a = t \<Longrightarrow>
        isl (evaluate_subject cap self model name a st)"
    and s: "s \<in> set te" "lookup (data_all_sub self) s = Inr a"
    and valid: "\<forall>b \<in> snd ` set (data_all_sub self). b < length (heap st)"
    and t: "heap st ! a = t"
  shows "isl (preprocess_train_evaluation cap shuffle self tr va te st)"
proof (cases "preprocess_and_train cap shuffle self tr va st")
  case (Inl e) then show ?thesis by (simp add: preprocess_train_evaluation_def)
next
  case (Inr r)
  obtain model st1 where r: "r = (model, st1)" by (cases r)
  have e: "preprocess_and_train cap shuffle self tr va st = Inr (model, st1)" using Inr r by simp
  have p: "prefix (heap st) (heap st1)" using wb e valid by (rule preprocess_and_train_prefix)
  have v: "\<forall>b \<in> snd ` set (data_all_sub self). b < length (heap st1)"
    using valid prefix_length[OF p] by fastforce
  have "(s, a) \<in> set (data_all_sub self)" using s(2) by (auto simp: lookup_Inr_iff dest: map_of_SomeD)
  then have "a < length (heap st)" using valid by force
  then have "heap st1 ! a = t" using prefix_nth[OF p] t by simp
  with wb bad s v have "isl (model_evaluation cap self model te st1)"
    by (intro model_evaluation_raises[where a = a and t = t and s = s]) auto
  then show ?thesis by (simp add: preprocess_train_evaluation_def e)
qed

lemma cross_validation_loop_raises:
  assumes wb: "well_behaved cap"
    and bad: "\<And>st name model. a < length (heap st) \<Longrightarrow> heap st ! a = t \<Longrightarrow>
        isl (evaluate_subject cap self model name a st)"
    and s: "lookup (data_all_sub self) s = Inr a"
  shows "\<exists>f \<in> set folds. s \<in> set (fold_test f) \<Longrightarrow>
     \<forall>b \<in> snd ` set (data_all_sub self). b < length (heap st) \<Longrightarrow>
     heap st ! a = t \<Longrightarrow> isl (cross_validation_loop cap shuffle self folds acc st)"
proof (induction folds arbitrary: acc st)
  case Nil then show ?case by simp
next
  case (Cons f folds)
  obtain tr va te where f: "f = (tr, va, te)" by (cases f)
  show ?case
  proof (cases "preprocess_train_evaluation cap shuffle self tr va te st")
    case (Inl e) then show ?thesis by (simp add: f)
  next
    case (Inr r)
    obtain tres st1 where r: "r = (tres, st1)" by (cases r)
    have e: "preprocess_train_evaluation cap shuffle self tr va te st = Inr (tres, st1)"
      using Inr r by simp
    have "s \<notin> set te"
      using preprocess_train_evaluation_raises[OF wb bad _ s Cons.prems(2,3), of te shuffle tr va] e
      by auto
    then have mem: "\<exists>f \<in> set folds. s \<in> set (fold_test f)"
      using Cons.prems(1) f by (auto simp: fold_test_def)
    have p: "prefix (heap st) (heap st1)"
      using wb e Cons.prems(2) by (rule preprocess_train_evaluation_prefix)
    have v: "\<forall>b \<in> snd ` set (data_all_sub self). b < length (heap st1)"
      using Cons.prems(2) prefix_length[OF p] by fastforce
    have "(s, a) \<in> set (data_all_sub self)" using s by (auto simp: lookup_Inr_iff dest: map_of_SomeD)
    then have "a < length (heap st)" using Cons.prems(2) by force
    then have "heap st1 ! a = t" using prefix_nth[OF p] Cons.prems(3) by simp
    from Cons.IH[OF mem v this] show ?thesis by (simp add: f e)
  qed
qed

lemma cross_validation_raises:
  assumes wb: "well_behaved cap"
    and bad: "\<And>st name model. a < length (heap st) \<Longrightarrow> heap st ! a = t \<Longrightarrow>
        isl (evaluate_subject cap self model name a st)"
    and s: "s \<in> set sub_ids" "lookup (data_all_sub self) s = Inr a"
    and valid: "\<forall>b \<in> snd ` set (data_all_sub self). b < length (heap st)"
    and t: "heap st ! a = t"
  shows "isl (cross_validation cap shuffle self sub_ids k st)"
proof (cases "k = 0")
  case True then show ?thesis by (simp add: cross_validation_def)
next
  case False
  have "sub_ids \<noteq> []" using s(1) by auto
  then have "concat (map fold_test (cv_folds sub_ids k)) = sub_ids"
    using False by (intro cv_folds_parts(2)) auto
  then have "s \<in> set (concat (map fold_test (cv_folds sub_ids k)))" using s(1) by simp
  then have "\<exists>f \<in> set (cv_folds sub_ids k). s \<in> set (fold_test f)" by auto
  then have "isl (cross_validation_loop cap shuffle self (cv_folds sub_ids k) [] st)"
    using valid t by (intro cross_validation_loop_raises[OF wb bad s(2)])
  then show ?thesis using False
    by (cases "cross_validation_loop cap shuffle self (cv_folds sub_ids k) [] st")
       (simp_all add: cross_validation_def)
qed

lemma step_scores_one_sample:
  assumes "np_mask t m = Inr [Fin a]" and "np_mask p m = Inr [Fin b]"
  shows "step_scores t p m = Inl ValueError"
  using assms
  by (simp add: step_scores_def r2_score_def check_targets_def mse_def mean_def
        np_max_def np_min_def pearsonr_def Let_def)

section \<open>The table of mean results\<close>

lemma cross_validation_loop_fold_runs:
  "cross_validation_loop cap shuffle self folds acc st =
     and_then (fold_runs cap shuffle self folds st) (\<lambda>(frs, st'). Inr (acc @ concat frs, st'))"
proof (induction folds arbitrary: acc st)
  case Nil then show ?case by simp
next
  case (Cons f folds)
  obtain tr va te where f: "f = (tr, va, te)" by (cases f)
  show ?case
  proof (cases "preprocess_train_evaluation cap shuffle self tr va te st")
    case (Inl e) then show ?thesis by (simp add: f)
  next
    case (Inr r)
    obtain tres st1 where r: "r = (tres, st1)" by (cases r)
    show ?thesis
      by (cases "fold_runs cap shuffle self folds st1") (auto simp: f Inr r Cons.IH)
  qed
qed

lemma fold_runs_length:
  "fold_runs cap shuffle self folds st = Inr (frs, st') \<Longrightarrow> length frs = length folds"
proof (induction folds arbitrary: frs st)
  case Nil then show ?case by simp
next
  case (Cons f folds)
  obtain tr va te where f: "f = (tr, va, te)" by (cases f)
  from Cons.prems show ?case unfolding f by (auto simp: and_then_Inr_iff Cons.IH)
qed

lemma mean_metric_Inr:
  "mean_metric metric field_results = Inr v \<Longrightarrow> v = np_round3 (np_mean (concat (map metric field_results)))"
  by (auto simp: mean_metric_def np_concatenate1_def and_then_Inr_iff split: if_splits)

lemma map_err_eq_map:
  "map_err f xs = Inr ys \<Longrightarrow> (\<And>x y. x \<in> set xs \<Longrightarrow> f x = Inr y \<Longrightarrow> y = g x) \<Longrightarrow> ys = map g xs"
  by (induction xs arbitrary: ys) (auto split: sum.splits)

lemma mean_results_Inr:
  assumes "mean_results yf results = Inr means"
  shows "means = map (\<lambda>(output_name, field_name).
            \<lparr>m_output = output_name, m_field = field_name,
             m_r2 = concatenated_mean r2 output_name field_name results,
             m_rmse = concatenated_mean rmse output_name field_name results,
             m_mae = concatenated_mean mae output_name field_name results,
             m_r_rmse = concatenated_mean r_rmse output_name field_name results,
             m_cor_value = concatenated_mean cor_value output_name field_name results\<rparr>)
          (field_pairs yf)"
  using assms unfolding mean_results_def
  apply (rule map_err_eq_map)
  apply (auto simp: Let_def and_then_Inr_iff concatenated_mean_def dest!: mean_metric_Inr)
  done

lemma steps_cv:
  "map_sum id (\<lambda>((rs, ms), st). (map subject rs, map mae rs, map m_mae ms))
     (cross_validation demo_capability id steps_model [''s1'', ''s2''] 1 steps_state)
   = Inr ([''s1'', ''s2''], [[Fin (3 / 2)], [Fin (9 / 2), Fin 1]], [Fin (2333 / 1000)])"
  by code_simp

section \<open>Claim C5: the folds of cross-validation\<close>



section \<open>Claim C8: the length of the combined record\<close>

lemma sync_and_crop_rows:
  assumes "sync_and_crop_data_frame sid tid subj trial imu_data vicon_data fe d h w = Inr md"
  shows "length (rows md) =
     (let a = length (rows (crop imu_data (d - min (- fe) d)));
          b = length (rows (crop vicon_data (0 - min (- fe) d)))
      in min (max a b) (min a b + 1))"
  using assms
  by (auto simp: sync_and_crop_data_frame_def and_then_def Let_def set_column_def loc_upto_def
        pd_concat_axis1_def split: sum.splits)

text \<open>
  C8.  The combined record is meant to have as many rows as the shorter of the two cropped
  streams.  The code slices the concatenated frame with \<^verbatim>\<open>.loc[:min_length]\<close>, a label slice
  that includes the row labelled \<open>min_length\<close>: with an inertial stream of four rows and a
  motion-capture stream of two rows, no crop, the combined record has three rows, the third
  holding NaN in the motion-capture column.
\<close>

theorem sync_and_crop_one_row_too_many:
  "sync_and_crop_data_frame ''subject_id'' ''trial_id'' ''s002_wangdianxin'' ''baseline''
      \<lparr>columns = [''gyro''], rows = [[Fin 1], [Fin 2], [Fin 3], [Fin 4]]\<rparr>
      \<lparr>columns = [''marker''], rows = [[Fin 5], [Fin 6]]\<rparr> 0 0 (Fin 170) (Fin 60)
   = Inr \<lparr>columns = [''gyro'', ''marker'', ''body height'', ''body weight'', ''subject_id'', ''trial_id''],
          rows = [[Fin 1, Fin 5, Fin 170, Fin 60, Fin 0, Fin 0],
                  [Fin 2, Fin 6, Fin 170, Fin 60, Fin 0, Fin 0],
                  [Fin 3, NaN, Fin 170, Fin 60, Fin 0, Fin 0]]\<rparr>
   \<and> min (length (rows (crop \<lparr>columns = [''gyro''], rows = [[Fin 1], [Fin 2], [Fin 3], [Fin 4]]\<rparr> 0)))
          (length (rows (crop \<lparr>columns = [''marker''], rows = [[Fin 5], [Fin 6]]\<rparr> 0))) = 2"
  by (simp add: sync_and_crop_data_frame_def and_then_def Let_def set_column_def loc_upto_def
        pd_concat_axis1_def crop_def row_or_nan_def SUBJECTS_def TRIALS_def
        SUBJECT_HEIGHT_def SUBJECT_WEIGHT_def upt_conv_Cons)

section \<open>Claim C2: the relative RMSE\<close>

text \<open>
  C2.  The relative RMSE of a step is meant to be the RMSE divided by half the combined range
  of the true and the predicted values.  The code writes \<^verbatim>\<open>rmse / (range sum) / 2\<close>, which
  divides by the range sum and then by two.  On the step with true values \<open>0, 2\<close> and
  predictions \<open>1, 3\<close>, all selected, the RMSE is \<open>1\<close> and the range sum is \<open>4\<close>: the code
  reports \<open>1/8\<close>, the stated formula gives \<open>1/2\<close>.
\<close>

theorem r_rmse_divides_by_twice_the_range:
  "get_column_score [[Fin 0, Fin 2]] [[Fin 1, Fin 3]] [[True, True]] =
     Inr \<lparr>r2 = [Fin 0], r2_all = [Fin 0], rmse = [Fin 1], mae = [Fin 1], r_rmse = [Fin (1 / 8)],
          cor_value = [Fin 1]\<rparr>
   \<and> fdiv (Fin 1) (fdiv (Fin (2 + 3 - 0 - 1)) (Fin 2)) = Fin (1 / 2)"
  by (simp add: get_column_score_def step_scores_def and_then_def np_mask_def r2_score_def
        check_targets_def mse_def mean_def pearsonr_def np_max_def np_min_def np_where_def
        np_take_def Let_def upt_conv_Cons np_sqrt_def)

section \<open>Claim C6: the mean results of cross-validation\<close>

text \<open>
  C6.  When \<^verbatim>\<open>cross_validation\<close> returns, the table of mean results has one row for every
  (output, field) pair, and each of its five metrics is the mean, rounded to three decimals,
  of the concatenation of the per-step values of that metric in all records of the pair; the
  records are those of all test subjects of all folds, in the order of the folds.  It is not
  a mean of per-fold or per-subject means: in the small store the subjects have one and two
  steps, and the mean of the concatenated values is 2.333 where the mean of the two
  per-subject means is 2.125.
\<close>

theorem means_of_concatenated_values:
  assumes "cross_validation cap shuffle self sub_ids test_set_sub_num st = Inr ((results, means), st')"
  shows "means = map (\<lambda>(output_name, field_name).
            \<lparr>m_output = output_name, m_field = field_name,
             m_r2 = concatenated_mean r2 output_name field_name results,
             m_rmse = concatenated_mean rmse output_name field_name results,
             m_mae = concatenated_mean mae output_name field_name results,
             m_r_rmse = concatenated_mean r_rmse output_name field_name results,
             m_cor_value = concatenated_mean cor_value output_name field_name results\<rparr>)
          (field_pairs (y_fields self))
     \<and> (\<exists>fold_results.
           fold_runs cap shuffle self (cv_folds sub_ids test_set_sub_num) st = Inr (fold_results, st')
         \<and> length fold_results = length (cv_folds sub_ids test_set_sub_num)
         \<and> results = concat fold_results)"
proof -
  from assms obtain
    l: "cross_validation_loop cap shuffle self (cv_folds sub_ids test_set_sub_num) [] st = Inr (results, st')"
    and m: "mean_results (y_fields self) results = Inr means"
    by (auto simp: cross_validation_def and_then_Inr_iff split: if_splits)
  from l obtain frs where
    f: "fold_runs cap shuffle self (cv_folds sub_ids test_set_sub_num) st = Inr (frs, st')"
    and r: "results = concat frs"
    unfolding cross_validation_loop_fold_runs by (auto simp: and_then_Inr_iff)
  from f have "length frs = length (cv_folds sub_ids test_set_sub_num)" by (rule fold_runs_length)
  with f r mean_results_Inr[OF m] show ?thesis by blast
qed

theorem means_of_concatenated_values_witness:
  "\<exists>results means st'.
      cross_validation demo_capability id steps_model [''s1'', ''s2''] 1 steps_state = Inr ((results, means), st')
    \<and> map subject results = [''s1'', ''s2'']
    \<and> map mae results = [[Fin (3 / 2)], [Fin (9 / 2), Fin 1]]
    \<and> map m_mae means = [concatenated_mean mae ''y'' ''h'' results]
    \<and> concatenated_mean mae ''y'' ''h'' results = Fin (2333 / 1000)
    \<and> np_round3 (np_mean [np_mean [Fin (3 / 2)], np_mean [Fin (9 / 2), Fin 1]]) = Fin (2125 / 1000)"
proof -
  from steps_cv obtain results means st' where
    cv: "cross_validation demo_capability id steps_model [''s1'', ''s2''] 1 steps_state
           = Inr ((results, means), st')"
    and su: "map subject results = [''s1'', ''s2'']"
    and ma: "map mae results = [[Fin (3 / 2)], [Fin (9 / 2), Fin 1]]"
    and mm: "map m_mae means = [Fin (2333 / 1000)]"
    by (cases "cross_validation demo_capability id steps_model [''s1'', ''s2''] 1 steps_state") auto
  have fp: "field_pairs (y_fields steps_model) = [(''y'', ''h'')]" by code_simp
  from means_of_concatenated_values[OF cv]
  have "means = map (\<lambda>(output_name, field_name).
            \<lparr>m_output = output_name, m_field = field_name,
             m_r2 = concatenated_mean r2 output_name field_name results,
             m_rmse = concatenated_mean rmse output_name field_name results,
             m_mae = concatenated_mean mae output_name field_name results,
             m_r_rmse = concatenated_mean r_rmse output_name field_name results,
             m_cor_value = concatenated_mean cor_value output_name field_name results\<rparr>)
          (field_pairs (y_fields steps_model))" by (rule conjunct1)
  then have c: "map m_mae means = [concatenated_mean mae ''y'' ''h'' results]" by (simp add: fp)
  then have v: "concatenated_mean mae ''y'' ''h'' results = Fin (2333 / 1000)" using mm by simp
  have o: "np_round3 (np_mean [np_mean [Fin (3 / 2)], np_mean [Fin (9 / 2), Fin 1]]) = Fin (2125 / 1000)"
    by code_simp
  from cv su ma c v o show ?thesis by (intro exI[of _ results] exI[of _ means] exI[of _ st'] conjI)
qed

section \<open>Claim C7: steps with fewer than two selected samples\<close>

text \<open>
  The claim as stated fails: a step whose weight mask selects one sample, and a step whose mask
  selects no sample, make \<^verbatim>\<open>get_all_scores\<close> raise \<^verbatim>\<open>ValueError\<close>, and a cross-validation over a
  store with such a step ends with that exception instead of a table of scores.
\<close>

theorem degenerate_step_counterexample:
  "get_all_scores (y_fields masked_model)
      [(''y'', [[[Fin 2], [Fin 4]], [[Fin 6], [Fin 8]]])]
      [(''y'', [[[Fin 2], [Fin 4]], [[Fin 6], [Fin 8]]])]
      [(''y'', [[[Fin 1], [Fin 1]], [[Fin 1], [Fin 0]]])] = Inl ValueError
   \<and> get_all_scores (y_fields masked_model)
      [(''y'', [[[Fin 2], [Fin 4]], [[Fin 6], [Fin 8]]])]
      [(''y'', [[[Fin 2], [Fin 4]], [[Fin 6], [Fin 8]]])]
      [(''y'', [[[Fin 1], [Fin 1]], [[Fin 0], [Fin 0]]])] = Inl ValueError
   \<and> cross_validation demo_capability id masked_model [''s1'', ''s2''] 1 masked_state = Inl ValueError"
proof (intro conjI)
  show "get_all_scores (y_fields masked_model)
      [(''y'', [[[Fin 2], [Fin 4]], [[Fin 6], [Fin 8]]])]
      [(''y'', [[[Fin 2], [Fin 4]], [[Fin 6], [Fin 8]]])]
      [(''y'', [[[Fin 1], [Fin 1]], [[Fin 1], [Fin 0]]])] = Inl ValueError"
    by code_simp
  show "get_all_scores (y_fields masked_model)
      [(''y'', [[[Fin 2], [Fin 4]], [[Fin 6], [Fin 8]]])]
      [(''y'', [[[Fin 2], [Fin 4]], [[Fin 6], [Fin 8]]])]
      [(''y'', [[[Fin 1], [Fin 1]], [[Fin 0], [Fin 0]]])] = Inl ValueError"
    by code_simp
  show "cross_validation demo_capability id masked_model [''s1'', ''s2''] 1 masked_state = Inl ValueError"
    by code_simp
qed

text \<open>
  C7, amended.  For every field column scored by \<^verbatim>\<open>get_all_scores\<close>, a step whose weight mask
  selects fewer than two samples makes \<^verbatim>\<open>get_all_scores\<close> raise, whatever the predictions are.
  Nothing catches the exception: when the true values and the weights are those extracted from
  the stored array of a test subject, \<^verbatim>\<open>evaluate_subject\<close>, \<^verbatim>\<open>model_evaluation\<close>,
  \<^verbatim>\<open>preprocess_train_evaluation\<close> and \<^verbatim>\<open>cross_validation\<close> raise too, so no score, and no NaN, is
  recorded for any subject.  When the mask of the step selects exactly one sample, with the
  values \<open>t\<close> and \<open>p\<close>, the step raises \<^verbatim>\<open>ValueError\<close>: the R2 is NaN, the RMSE and the MAE are
  the absolute error of the single point, and it is the Pearson correlation that raises.
\<close>

theorem degenerate_step_aborts_the_run:
  assumes f: "(output_name, col, field_name) \<in> set (field_columns (y_fields self))"
    and yt: "lookup y_true output_name = Inr yt" and ytc: "np_col yt col = Inr ytc"
    and m: "weight_mask w ytc output_name col = Inr wm"
    and i: "i < length ytc" "i < length wm"
    and d: "length (filter (\<lambda>b. b) (wm ! i)) < 2"
  shows "isl (get_all_scores (y_fields self) y_true y_pred w)
    \<and> (well_behaved cap \<and> (\<forall>b \<in> snd ` set (data_all_sub self). b < length (heap st))
        \<and> s \<in> set sub_ids \<and> lookup (data_all_sub self) s = Inr a
        \<and> subject_values self (heap st ! a) (y_fields self) = Inr y_true
        \<and> subject_values self (heap st ! a) (weights self) = Inr w
       \<longrightarrow> isl (evaluate_subject cap self model s a st)
         \<and> isl (model_evaluation cap self model sub_ids st)
         \<and> isl (preprocess_train_evaluation cap shuffle self train_sub_ids validate_sub_ids sub_ids st)
         \<and> isl (cross_validation cap shuffle self sub_ids test_set_sub_num st))
    \<and> (\<forall>t p. np_mask (ytc ! i) (wm ! i) = Inr [Fin t] \<and> np_mask (ypc ! i) (wm ! i) = Inr [Fin p]
        \<longrightarrow> step_scores (ytc ! i) (ypc ! i) (wm ! i) = Inl ValueError
          \<and> r2_score [Fin t] [Fin p] = Inr NaN
          \<and> and_then (mse [Fin t] [Fin p]) (\<lambda>m. Inr (np_sqrt m)) = Inr \<bar>t - p\<bar>
          \<and> mean (map (\<lambda>(t, p). \<bar>t - p\<bar>) (zip [t] [p])) = \<bar>t - p\<bar>
          \<and> pearsonr [Fin t] [Fin p] = Inl ValueError)"
proof (intro conjI impI allI)
  show g: "isl (get_all_scores (y_fields self) y_true y_pred w)" for y_pred
    using f yt ytc m i d by (rule get_all_scores_degenerate)
  {
    assume h: "well_behaved cap \<and> (\<forall>b \<in> snd ` set (data_all_sub self). b < length (heap st))
        \<and> s \<in> set sub_ids \<and> lookup (data_all_sub self) s = Inr a
        \<and> subject_values self (heap st ! a) (y_fields self) = Inr y_true
        \<and> subject_values self (heap st ! a) (weights self) = Inr w"
    then have wb: "well_behaved cap"
      and valid: "\<forall>b \<in> snd ` set (data_all_sub self). b < length (heap st)"
      and s: "s \<in> set sub_ids" "lookup (data_all_sub self) s = Inr a"
      and sy: "subject_values self (heap st ! a) (y_fields self) = Inr y_true"
      and sw: "subject_values self (heap st ! a) (weights self) = Inr w" by auto
    have bad: "isl (evaluate_subject cap self model' name a st')"
      if al: "a < length (heap st')" and same: "heap st' ! a = heap st ! a" for st' name model'
    proof (cases "evaluate_subject cap self model' name a st'")
      case (Inl e) then show ?thesis by simp
    next
      case (Inr r)
      obtain res st2 where "r = (res, st2)" by (cases r)
      with Inr have "evaluate_subject cap self model' name a st' = Inr (res, st2)" by simp
      from evaluate_subject_scores[OF wb this al] obtain y_pred' sc where
        "get_all_scores (y_fields self) y_true y_pred' w = Inr sc"
        using sy sw same by auto
      with g[of y_pred'] show ?thesis by simp
    qed
    have "(s, a) \<in> set (data_all_sub self)" using s(2) by (auto simp: lookup_Inr_iff dest: map_of_SomeD)
    then have a: "a < length (heap st)" using valid by force
    show "isl (evaluate_subject cap self model s a st)" using a refl by (rule bad)
    show "isl (model_evaluation cap self model sub_ids st)"
      using wb bad s valid by (intro model_evaluation_raises[where a = a and t = "heap st ! a" and s = s]) auto
    show "isl (preprocess_train_evaluation cap shuffle self train_sub_ids validate_sub_ids sub_ids st)"
      using wb bad s valid
      by (intro preprocess_train_evaluation_raises[where a = a and t = "heap st ! a" and s = s]) auto
    show "isl (cross_validation cap shuffle self sub_ids test_set_sub_num st)"
      using wb bad s valid
      by (intro cross_validation_raises[where a = a and t = "heap st ! a" and s = s]) auto
  }
  fix t p
  assume "np_mask (ytc ! i) (wm ! i) = Inr [Fin t] \<and> np_mask (ypc ! i) (wm ! i) = Inr [Fin p]"
  then show "step_scores (ytc ! i) (ypc ! i) (wm ! i) = Inl ValueError"
    by (auto intro: step_scores_one_sample)
  show "r2_score [Fin t] [Fin p] = Inr NaN" by (simp add: r2_score_def check_targets_def)
  show "and_then (mse [Fin t] [Fin p]) (\<lambda>m. Inr (np_sqrt m)) = Inr \<bar>t - p\<bar>"
    by (simp add: mse_def check_targets_def mean_def np_sqrt_def)
  show "mean (map (\<lambda>(t, p). \<bar>t - p\<bar>) (zip [t] [p])) = \<bar>t - p\<bar>" by (simp add: mean_def)
  show "pearsonr [Fin t] [Fin p] = Inl ValueError" by (simp add: pearsonr_def)
qed

theorem degenerate_step_aborts_the_run_witness:
  "(''y'', 0, ''g'') \<in> set (field_columns (y_fields masked_model))
   \<and> subject_values masked_model (heap masked_state ! 1) (y_fields masked_model)
        = Inr [(''y'', [[[Fin 2], [Fin 4]], [[Fin 6], [Fin 8]]])]
   \<and> subject_values masked_model (heap masked_state ! 1) (weights masked_model)
        = Inr [(''y'', [[[Fin 1], [Fin 1]], [[Fin 1], [Fin 0]]])]
   \<and> weight_mask [(''y'', [[[Fin 1], [Fin 1]], [[Fin 1], [Fin 0]]])] [[Fin 2, Fin 4], [Fin 6, Fin 8]] ''y'' 0
        = Inr [[True, True], [True, False]]
   \<and> length (filter (\<lambda>b. b) ([[True, True], [True, False]] ! 1)) < 2
   \<and> isl (get_all_scores (y_fields masked_model) [(''y'', [[[Fin 2], [Fin 4]], [[Fin 6], [Fin 8]]])]
          [(''y'', [[[Fin 2], [Fin 4]], [[Fin 6], [Fin 9]]])] [(''y'', [[[Fin 1], [Fin 1]], [[Fin 1], [Fin 0]]])])
   \<and> isl (evaluate_subject demo_capability masked_model [] ''s2'' 1 masked_state)
   \<and> isl (model_evaluation demo_capability masked_model [] [''s1'', ''s2''] masked_state)
   \<and> isl (preprocess_train_evaluation demo_capability id masked_model [''s1''] [] [''s1'', ''s2''] masked_state)
   \<and> isl (cross_validation demo_capability id masked_model [''s1'', ''s2''] 1 masked_state)
   \<and> step_scores [Fin 6, Fin 8] [Fin 6, Fin 9] [True, False] = Inl ValueError
   \<and> r2_score [Fin 6] [Fin 6] = Inr NaN
   \<and> pearsonr [Fin 6] [Fin 6] = Inl ValueError"
proof -
  let ?y = "[(''y'', [[[Fin 2], [Fin 4]], [[Fin 6], [Fin 8]]])]"
  let ?p = "[(''y'', [[[Fin 2], [Fin 4]], [[Fin 6], [Fin 9]]])]"
  let ?w = "[(''y'', [[[Fin 1], [Fin 1]], [[Fin 1], [Fin 0]]])]"
  have h1: "(''y'', 0, ''g'') \<in> set (field_columns (y_fields masked_model))" by code_simp
  have h2: "lookup ?y ''y'' = Inr [[[Fin 2], [Fin 4]], [[Fin 6], [Fin 8]]]" by code_simp
  have h3: "np_col [[[Fin 2], [Fin 4]], [[Fin 6], [Fin 8]]] 0 = Inr [[Fin 2, Fin 4], [Fin 6, Fin 8]]"
    by code_simp
  have h4: "weight_mask ?w [[Fin 2, Fin 4], [Fin 6, Fin 8]] ''y'' 0 = Inr [[True, True], [True, False]]"
    by code_simp
  have h5: "1 < length [[Fin 2, Fin 4], [Fin 6, Fin 8 :: float]]" by simp
  have h6: "1 < length [[True, True], [True, False]]" by simp
  have h7: "length (filter (\<lambda>b. b) ([[True, True], [True, False]] ! 1)) < 2" by simp
  have sy: "subject_values masked_model (heap masked_state ! 1) (y_fields masked_model) = Inr ?y"
    by code_simp
  have sw: "subject_values masked_model (heap masked_state ! 1) (weights masked_model) = Inr ?w"
    by code_simp
  have valid: "\<forall>b \<in> snd ` set (data_all_sub masked_model). b < length (heap masked_state)"
    by (simp add: masked_model_def masked_state_def)
  have s: "''s2'' \<in> set [''s1'', ''s2'']" by simp
  have a: "lookup (data_all_sub masked_model) ''s2'' = Inr 1" by code_simp
  have m1: "np_mask ([[Fin 2, Fin 4], [Fin 6, Fin 8]] ! 1) ([[True, True], [True, False]] ! 1) = Inr [Fin 6]"
    by (simp add: np_mask_def)
  have m2: "np_mask ([[Fin 2, Fin 4], [Fin 6, Fin 9]] ! 1) ([[True, True], [True, False]] ! 1) = Inr [Fin 6]"
    by (simp add: np_mask_def)
  note T = degenerate_step_aborts_the_run[OF h1 h2 h3 h4 h5 h6 h7, where y_pred = ?p
      and cap = demo_capability and st = masked_state and s = "''s2''" and sub_ids = "[''s1'', ''s2'']"
      and a = 1 and model = "[]" and shuffle = id and train_sub_ids = "[''s1'']"
      and validate_sub_ids = "[]" and test_set_sub_num = 1 and ypc = "[[Fin 2, Fin 4], [Fin 6, Fin 9]]"]
  from T have c1: "isl (get_all_scores (y_fields masked_model) ?y ?p ?w)" by (rule conjunct1)
  from T well_behaved_demo valid s a sy sw have c2:
    "isl (evaluate_subject demo_capability masked_model [] ''s2'' 1 masked_state)
     \<and> isl (model_evaluation demo_capability masked_model [] [''s1'', ''s2''] masked_state)
     \<and> isl (preprocess_train_evaluation demo_capability id masked_model [''s1''] [] [''s1'', ''s2''] masked_state)
     \<and> isl (cross_validation demo_capability id masked_model [''s1'', ''s2''] 1 masked_state)"
    by blast
  from T m1 m2 have c3: "step_scores ([[Fin 2, Fin 4], [Fin 6, Fin 8]] ! 1) ([[Fin 2, Fin 4], [Fin 6, Fin 9]] ! 1)
        ([[True, True], [True, False]] ! 1) = Inl ValueError
     \<and> r2_score [Fin 6] [Fin 6] = Inr NaN \<and> pearsonr [Fin 6] [Fin 6] = Inl ValueError"
    by blast
  then have c3': "step_scores [Fin 6, Fin 8] [Fin 6, Fin 9] [True, False] = Inl ValueError
     \<and> r2_score [Fin 6] [Fin 6] = Inr NaN \<and> pearsonr [Fin 6] [Fin 6] = Inl ValueError"
    by simp
  show ?thesis using h1 sy sw h4 h7 c1 c2 c3' by blast
qed

section \<open>Claim C10: no NaN in the normalized output\<close>

text \<open>
  The claim as stated, for every mode, fails for the mode \<^verbatim>\<open>fit\<close>: \<^verbatim>\<open>fit\<close> of the scaler returns
  the scaler itself, the reshape of it raises \<^verbatim>\<open>AttributeError\<close>, and there is no normalized
  output.
\<close>

theorem fit_mode_raises_counterexample:
  "normalize_data [(''y'', 1)] Fit By_all_columns demo_state = Inl AttributeError"
  by code_simp

text \<open>
  C10, amended.  Whenever \<^verbatim>\<open>normalize_data\<close> returns, the mode is \<^verbatim>\<open>transform\<close> or
  \<^verbatim>\<open>fit_transform\<close>, and for every group the array entered in the returned dictionary is the
  result \<open>r\<close> of the group's scaler on the masked input, reshaped to the input's shape, with
  every NaN of \<open>r\<close> replaced by exactly 0 and every other value of \<open>r\<close> kept; so the output
  holds no NaN.  For a rectangular input this is so position by position, and the positions of
  a padding sample and of a NaN of the raw data are NaN in \<open>r\<close> and 0 in the output.
\<close>

theorem normalized_nan_becomes_zero:
  assumes "normalize_data data meth mode st = Inr (scaled, st')"
    and "distinct (map fst data)" and "(name, a) \<in> set data" and "a < length (heap st)"
  shows "meth \<noteq> Fit \<and> (\<exists>a2 sc sc' X Y r.
        map_of scaled name = Some a2 \<and> map_of (data_scalar st) name = Some sc
      \<and> reshape2 (target_columns mode (heap st ! a)) (ravel (mask_sentinel (heap st ! a))) = Inr X
      \<and> call_method sc meth X = Inr (Array Y, sc')
      \<and> reshape3 (shape3 (heap st ! a)) (concat Y) = Inr r
      \<and> heap st' ! a2 = map (map (map (\<lambda>v. if isnan v then Fin 0 else v))) r
      \<and> (\<forall>s \<in> set (heap st' ! a2). \<forall>sample \<in> set s. \<forall>v \<in> set sample. \<not> isnan v)
      \<and> (rectangular (heap st ! a) \<longrightarrow>
           (\<forall>i < length (heap st ! a). \<forall>j < length (heap st ! a ! i). \<forall>k < length (heap st ! a ! i ! j).
              heap st' ! a2 ! i ! j ! k = (if isnan (r ! i ! j ! k) then Fin 0 else r ! i ! j ! k)
            \<and> (isnan (heap st ! a ! i ! j ! k) \<or> sentinel (heap st ! a ! i ! j)
                 \<longrightarrow> isnan (r ! i ! j ! k) \<and> heap st' ! a2 ! i ! j ! k = Fin 0))))"
proof -
  let ?t = "heap st ! a"
  from normalize_loop_group[OF assms(1)[unfolded normalize_data_def] assms(2-4)]
  obtain a2 sc sc' where a2: "map_of scaled name = Some a2"
    and sc: "map_of (data_scalar st) name = Some sc"
    and g: "group_output meth mode ?t sc (heap st' ! a2) sc'" by blast
  from g obtain X Y r where
    X: "reshape2 (target_columns mode ?t) (ravel (mask_sentinel ?t)) = Inr X"
    and cm: "call_method sc meth X = Inr (Array Y, sc')"
    and r: "reshape3 (shape3 ?t) (concat Y) = Inr r" and out: "heap st' ! a2 = nan_to_zero r"
    by (auto simp: group_output_def)
  note cmA = call_method_Array[OF cm]
  have nn: "\<forall>s \<in> set (heap st' ! a2). \<forall>sample \<in> set s. \<forall>v \<in> set sample. \<not> isnan v"
    unfolding out by (rule nan_to_zero_no_nan)
  have pts: "\<forall>i < length ?t. \<forall>j < length (?t ! i). \<forall>k < length (?t ! i ! j).
              heap st' ! a2 ! i ! j ! k = (if isnan (r ! i ! j ! k) then Fin 0 else r ! i ! j ! k)
            \<and> (isnan (?t ! i ! j ! k) \<or> sentinel (?t ! i ! j)
                 \<longrightarrow> isnan (r ! i ! j ! k) \<and> heap st' ! a2 ! i ! j ! k = Fin 0)"
    if rect: "rectangular ?t"
  proof (intro allI impI)
    fix i j k assume i: "i < length ?t" and j: "j < length (?t ! i)" and k: "k < length (?t ! i ! j)"
    note p = scaled_points[OF X cmA(2) r rect i j k]
    show "heap st' ! a2 ! i ! j ! k = (if isnan (r ! i ! j ! k) then Fin 0 else r ! i ! j ! k)
            \<and> (isnan (?t ! i ! j ! k) \<or> sentinel (?t ! i ! j)
                 \<longrightarrow> isnan (r ! i ! j ! k) \<and> heap st' ! a2 ! i ! j ! k = Fin 0)"
      using p by (simp add: out)
  qed
  have "heap st' ! a2 = map (map (map (\<lambda>v. if isnan v then Fin 0 else v))) r"
    using out by (simp add: nan_to_zero_def)
  with a2 sc X cm r nn pts cmA(1) show ?thesis by blast
qed

theorem normalized_nan_becomes_zero_witness:
  "normalize_data [(''x'', 0)] Fit_transform By_each_column demo_state =
     Inr ([(''x'', 4)], demo_normalized_state)
   \<and> distinct (map fst [(''x'', 0::nat)]) \<and> (''x'', 0) \<in> set [(''x'', 0::nat)]
   \<and> 0 < length (heap demo_state) \<and> rectangular (heap demo_state ! 0)
   \<and> sentinel (heap demo_state ! 0 ! 0 ! 1) \<and> isnan (heap demo_state ! 0 ! 0 ! 2 ! 0)
   \<and> Fit_transform \<noteq> Fit
   \<and> (\<exists>r. heap demo_normalized_state ! 4 = map (map (map (\<lambda>v. if isnan v then Fin 0 else v))) r
        \<and> isnan (r ! 0 ! 1 ! 0) \<and> heap demo_normalized_state ! 4 ! 0 ! 1 ! 0 = Fin 0
        \<and> isnan (r ! 0 ! 2 ! 0) \<and> heap demo_normalized_state ! 4 ! 0 ! 2 ! 0 = Fin 0)"
proof -
  have d: "distinct (map fst [(''x'', 0::nat)])" by simp
  have m: "(''x'', 0) \<in> set [(''x'', 0::nat)]" by simp
  have a: "0 < length (heap demo_state)" by (simp add: demo_state_def demo_arrays_def)
  have rect: "rectangular (heap demo_state ! 0)"
    by (simp add: demo_state_def demo_arrays_def rectangular_def shape3_def)
  have t: "heap demo_state ! 0 = [[[Fin 2, Fin 10], [Fin 0, Fin 0], [NaN, Fin 30]]]"
    by (simp add: demo_state_def demo_arrays_def)
  have sen: "sentinel (heap demo_state ! 0 ! 0 ! 1)" by (simp add: t sentinel_def)
  have nan: "isnan (heap demo_state ! 0 ! 0 ! 2 ! 0)" by (simp add: t)
  from normalized_nan_becomes_zero[OF demo_normalize d m a] obtain a2 r where
    a2: "map_of [(''x'', 4::nat)] ''x'' = Some a2"
    and out: "heap demo_normalized_state ! a2 = map (map (map (\<lambda>v. if isnan v then Fin 0 else v))) r"
    and pts: "rectangular (heap demo_state ! 0) \<longrightarrow>
           (\<forall>i < length (heap demo_state ! 0). \<forall>j < length (heap demo_state ! 0 ! i).
            \<forall>k < length (heap demo_state ! 0 ! i ! j).
              heap demo_normalized_state ! a2 ! i ! j ! k = (if isnan (r ! i ! j ! k) then Fin 0 else r ! i ! j ! k)
            \<and> (isnan (heap demo_state ! 0 ! i ! j ! k) \<or> sentinel (heap demo_state ! 0 ! i ! j)
                 \<longrightarrow> isnan (r ! i ! j ! k) \<and> heap demo_normalized_state ! a2 ! i ! j ! k = Fin 0))"
    by blast
  have a2': "a2 = 4" using a2 by simp
  have l: "0 < length (heap demo_state ! 0)" "1 < length (heap demo_state ! 0 ! 0)"
    "2 < length (heap demo_state ! 0 ! 0)" "0 < length (heap demo_state ! 0 ! 0 ! 1)"
    "0 < length (heap demo_state ! 0 ! 0 ! 2)" by (simp_all add: t)
  from pts rect l sen have p1: "isnan (r ! 0 ! 1 ! 0) \<and> heap demo_normalized_state ! 4 ! 0 ! 1 ! 0 = Fin 0"
    unfolding a2' by blast
  from pts rect l nan have p2: "isnan (r ! 0 ! 2 ! 0) \<and> heap demo_normalized_state ! 4 ! 0 ! 2 ! 0 = Fin 0"
    unfolding a2' by blast
  have "Fit_transform \<noteq> Fit" by simp
  with demo_normalize d m a rect sen nan out[unfolded a2'] p1 p2 show ?thesis by blast
qed

section \<open>Claim C4: padding samples through normalization\<close>

text \<open>
  The claim as stated fails for the method \<^verbatim>\<open>fit\<close>: the scaler's \<^verbatim>\<open>fit\<close> returns the scaler,
  \<^verbatim>\<open>normalize_data\<close> calls \<^verbatim>\<open>reshape\<close> on what the method returned, and there is no normalized
  output.
\<close>

theorem fit_mode_has_no_output_counterexample:
  "normalize_data [(''x'', 0)] Fit By_each_column demo_state = Inl AttributeError"
  by code_simp

text \<open>
  C4, amended.  When \<^verbatim>\<open>normalize_data\<close> returns, the method was \<^verbatim>\<open>transform\<close> or
  \<^verbatim>\<open>fit_transform\<close>, and for every group, in either scaling mode, every sample of the group's
  array that is zero in all the group's columns is zero in all columns of the normalized
  array again.  With \<^verbatim>\<open>fit_transform\<close> the scaler the group is left with is the one fitted to
  the samples that are not all zero (when there is one): the padding samples do not enter the
  fitted range.
\<close>

theorem sentinel_samples_stay_zero:
  assumes "normalize_data data meth mode st = Inr (scaled, st')"
    and "distinct (map fst data)" and "(name, a) \<in> set data" and "a < length (heap st)"
    and "rectangular (heap st ! a)"
  shows "meth \<noteq> Fit
     \<and> (\<exists>a2. map_of scaled name = Some a2
          \<and> (\<forall>i < length (heap st ! a). \<forall>j < length (heap st ! a ! i).
                sentinel (heap st ! a ! i ! j) \<longrightarrow>
                  sentinel (heap st' ! a2 ! i ! j) \<and> heap st' ! a2 ! i ! j = heap st ! a ! i ! j))
     \<and> (meth = Fit_transform \<and> (\<exists>s \<in> set (concat (heap st ! a)). \<not> sentinel s) \<longrightarrow>
          (\<exists>sc'. map_of (data_scalar st') name = Some sc'
             \<and> minmax_fit (rows_of mode (filter (\<lambda>s. \<not> sentinel s) (concat (heap st ! a)))) = Inr sc'))"
proof -
  from normalize_loop_group[OF assms(1)[unfolded normalize_data_def] assms(2,3,4)]
  obtain a2 sc sc' where a2: "map_of scaled name = Some a2"
    and sc': "map_of (data_scalar st') name = Some sc'"
    and g: "group_output meth mode (heap st ! a) sc (heap st' ! a2) sc'" by blast
  from g obtain X Y where "call_method sc meth X = Inr (Array Y, sc')"
    by (auto simp: group_output_def)
  then have nf: "meth \<noteq> Fit" by (rule call_method_Array(1))
  have z: "sentinel (heap st' ! a2 ! i ! j) \<and> heap st' ! a2 ! i ! j = heap st ! a ! i ! j"
    if "i < length (heap st ! a)" "j < length (heap st ! a ! i)" "sentinel (heap st ! a ! i ! j)" for i j
    using group_output_sentinel[OF g assms(5) that] that(3) by simp
  have f: "minmax_fit (rows_of mode (filter (\<lambda>s. \<not> sentinel s) (concat (heap st ! a)))) = Inr sc'"
    if "meth = Fit_transform" "\<exists>s \<in> set (concat (heap st ! a)). \<not> sentinel s"
    using group_output_fit[OF g[unfolded that(1)] assms(5) that(2)] .
  show ?thesis using nf a2 z sc' f by blast
qed

theorem sentinel_samples_stay_zero_witness:
  "normalize_data [(''x'', 0)] Fit_transform By_each_column demo_state =
     Inr ([(''x'', 4)], demo_normalized_state)
   \<and> distinct (map fst [(''x'', 0::nat)]) \<and> (''x'', 0) \<in> set [(''x'', 0::nat)]
   \<and> 0 < length (heap demo_state) \<and> rectangular (heap demo_state ! 0)
   \<and> Fit_transform \<noteq> Fit
   \<and> heap demo_state ! 0 ! 0 ! 1 = [Fin 0, Fin 0]
   \<and> heap demo_normalized_state ! 4 ! 0 ! 1 = [Fin 0, Fin 0]"
proof -
  have h: "distinct (map fst [(''x'', 0::nat)])" "(''x'', 0) \<in> set [(''x'', 0::nat)]"
    "0 < length (heap demo_state)" "rectangular (heap demo_state ! 0)"
    by (simp_all add: demo_state_def demo_arrays_def rectangular_def shape3_def)
  from sentinel_samples_stay_zero[OF demo_normalize h]
  have "Fit_transform \<noteq> Fit" by (rule conjunct1)
  moreover have "heap demo_state ! 0 ! 0 ! 1 = [Fin 0, Fin 0]"
    "heap demo_normalized_state ! 4 ! 0 ! 1 = [Fin 0, Fin 0]"
    by (simp_all add: demo_state_def demo_arrays_def demo_normalized_state_def)
  ultimately show ?thesis using demo_normalize h by (intro conjI)
qed

section \<open>Claim C9: the stored arrays are not mutated\<close>

text \<open>
  C9.  Field extraction puts the requested columns in new arrays and normalization works on
  a copy of each group's array, so the references the pluggable model gets are to arrays
  made after the call began.  For a model that writes only to the arrays it is handed and to
  new ones, after any sequence of calls of \<^verbatim>\<open>_get_raw_data_dict\<close>, \<^verbatim>\<open>normalize_data\<close>, the two
  preprocessing methods, \<^verbatim>\<open>preprocess_and_train\<close>, \<^verbatim>\<open>model_evaluation\<close>,
  \<^verbatim>\<open>preprocess_train_evaluation\<close> and \<^verbatim>\<open>cross_validation\<close> every stored subject array, and
  every other array that existed before, holds what it held.  Scoring only reads.
\<close>

theorem stored_arrays_unchanged:
  assumes "well_behaved cap"
    and "\<forall>a \<in> snd ` set (data_all_sub self). a < length (heap st)"
    and "pipeline_run cap shuffle self st st'"
  shows "(\<forall>a \<in> snd ` set (data_all_sub self). heap st' ! a = heap st ! a)
       \<and> prefix (heap st) (heap st')"
proof -
  have p: "prefix (heap st) (heap st')" using assms(1,3,2) by (rule pipeline_run_prefix)
  then show ?thesis using assms(2) by (auto simp: prefix_nth)
qed


theorem stored_arrays_unchanged_witness:
  "well_behaved demo_capability
   \<and> list_all (\<lambda>a. a < length (heap demo_state)) (map snd (data_all_sub demo_model))
   \<and> pipeline_run demo_capability id demo_model demo_state demo_normalized_state
   \<and> map (\<lambda>a. heap demo_normalized_state ! a) (map snd (data_all_sub demo_model))
       = map (\<lambda>a. heap demo_state ! a) (map snd (data_all_sub demo_model))
   \<and> prefix (heap demo_state) (heap demo_normalized_state)"
proof -
  have v: "\<forall>a \<in> snd ` set (data_all_sub demo_model). a < length (heap demo_state)"
    by (simp add: demo_model_def demo_state_def demo_arrays_def)
  have r: "pipeline_run demo_capability id demo_model demo_state demo_normalized_state"
    using demo_normalize pipeline_run.no_call by (rule pipeline_run.normalize_call)
  from stored_arrays_unchanged[OF well_behaved_demo v r]
  have c: "\<forall>a \<in> snd ` set (data_all_sub demo_model). heap demo_normalized_state ! a = heap demo_state ! a"
    and p: "prefix (heap demo_state) (heap demo_normalized_state)" by blast+
  have "map (\<lambda>a. heap demo_normalized_state ! a) (map snd (data_all_sub demo_model))
       = map (\<lambda>a. heap demo_state ! a) (map snd (data_all_sub demo_model))"
    using c by simp
  moreover have "list_all (\<lambda>a. a < length (heap demo_state)) (map snd (data_all_sub demo_model))"
    using v by (simp add: list_all_iff)
  ultimately show ?thesis using well_behaved_demo r p by (intro conjI)
qed

section \<open>Claim C3: the held-out subjects and training\<close>

text \<open>
  The claim as stated fails.  \<^verbatim>\<open>cross_validation\<close> passes the test subjects of a fold as its
  validation subjects, so \<^verbatim>\<open>train_model\<close> is handed the held-out subjects' data as validation
  data.  In the first fold of the small store (test subject \<open>s1\<close>) a model that keeps its
  validation inputs is a different model when only the values of \<open>s1\<close> differ.
\<close>

theorem held_out_data_is_validation_data_counterexample:
  "map_sum id fst (preprocess_and_train peeking_capability id demo_model [''s2'', ''s3''] [''s1''] demo_state)
     = Inr [(''x'', [[[Fin 2, Fin 10], [Fin 0, Fin 0], [NaN, Fin 30]]])]
   \<and> map_sum id fst (preprocess_and_train peeking_capability id demo_model [''s2'', ''s3''] [''s1''] demo_state_other_s1)
     = Inr [(''x'', [[[Fin 7, Fin 70], [Fin 8, Fin 80], [Fin 9, Fin 90]]])]
   \<and> cv_fold [''s1'', ''s2'', ''s3''] 1 0 = ([''s2'', ''s3''], [''s1''], [''s1''])
   \<and> heap demo_state_other_s1 ! 1 = heap demo_state ! 1
   \<and> heap demo_state_other_s1 ! 2 = heap demo_state ! 2"
  by code_simp


text \<open>
  C3, amended.  In every fold of cross-validation the validation subjects are the test
  subjects and the training subjects are disjoint from them.  The training tensors
  \<open>x_train\<close> and \<open>y_train\<close> handed to \<^verbatim>\<open>train_model\<close> are the same in two runs of the fold
  whose stores differ only in the held-out subjects' array values, while the validation
  tensors handed to it are the fields of the held-out subjects' own arrays.
\<close>

theorem training_tensors_ignore_held_out_values:
  assumes fold: "(tr, va, te) \<in> set (cv_folds sub_ids k)"
    and run1: "train_arguments shuffle self tr va st1 = Inr (args1, st1')"
    and run2: "train_arguments shuffle self tr va st2 = Inr (args2, st2')"
    and valid1: "\<forall>a \<in> snd ` set (data_all_sub self). a < length (heap st1)"
    and valid2: "\<forall>a \<in> snd ` set (data_all_sub self). a < length (heap st2)"
    and same: "\<forall>(s, a) \<in> set (data_all_sub self). s \<notin> set te \<longrightarrow> heap st1 ! a = heap st2 ! a"
  shows "va = te \<and> set tr \<inter> set te = {}
     \<and> deref (heap st1') (x_train args1) = deref (heap st2') (x_train args2)
     \<and> deref (heap st1') (y_train args1) = deref (heap st2') (y_train args2)
     \<and> (te \<noteq> [] \<longrightarrow> (\<exists>held_out x y vxs vys.
            map_err (lookup (data_all_sub self)) te = Inr held_out
          \<and> x_validation args1 = Some x \<and> y_validation args1 = Some y
          \<and> raw_arrays (data_fields self) (concat (map (\<lambda>a. heap st1 ! a) held_out)) (x_fields self) = Inr vxs
          \<and> raw_arrays (data_fields self) (concat (map (\<lambda>a. heap st1 ! a) held_out)) (y_fields self) = Inr vys
          \<and> deref (heap st1') x = value_dict (x_fields self) vxs []
          \<and> deref (heap st1') y = value_dict (y_fields self) vys []))"
proof -
  note f = cv_folds_member[OF fold]
  have disj: "set tr \<inter> set te = {}" using f(2) by auto
  from train_arguments_Inr[OF run1 valid1] obtain addrs vaddrs xs ys where
    ad: "map_err (lookup (data_all_sub self)) tr = Inr addrs"
    and vad: "map_err (lookup (data_all_sub self)) va = Inr vaddrs"
    and xs: "raw_arrays (data_fields self) (shuffle (concat (map (\<lambda>a. heap st1 ! a) addrs))) (x_fields self) = Inr xs"
    and ys: "raw_arrays (data_fields self) (shuffle (concat (map (\<lambda>a. heap st1 ! a) addrs))) (y_fields self) = Inr ys"
    and dx: "deref (heap st1') (x_train args1) = value_dict (x_fields self) xs []"
    and dy: "deref (heap st1') (y_train args1) = value_dict (y_fields self) ys []"
    and val: "vaddrs \<noteq> [] \<longrightarrow> (\<exists>x y wt vxs vys vws.
               x_validation args1 = Some x \<and> y_validation args1 = Some y \<and> validation_weight args1 = Some wt
             \<and> raw_arrays (data_fields self) (concat (map (\<lambda>a. heap st1 ! a) vaddrs)) (x_fields self) = Inr vxs
             \<and> raw_arrays (data_fields self) (concat (map (\<lambda>a. heap st1 ! a) vaddrs)) (y_fields self) = Inr vys
             \<and> raw_arrays (data_fields self) (concat (map (\<lambda>a. heap st1 ! a) vaddrs)) (weights self) = Inr vws
             \<and> deref (heap st1') x = value_dict (x_fields self) vxs []
             \<and> deref (heap st1') y = value_dict (y_fields self) vys []
             \<and> deref (heap st1') wt = value_dict (weights self) vws [])"
    by blast
  from train_arguments_Inr[OF run2 valid2] obtain addrs2 xs2 ys2 where
    ad2: "map_err (lookup (data_all_sub self)) tr = Inr addrs2"
    and xs2: "raw_arrays (data_fields self) (shuffle (concat (map (\<lambda>a. heap st2 ! a) addrs2))) (x_fields self) = Inr xs2"
    and ys2: "raw_arrays (data_fields self) (shuffle (concat (map (\<lambda>a. heap st2 ! a) addrs2))) (y_fields self) = Inr ys2"
    and dx2: "deref (heap st2') (x_train args2) = value_dict (x_fields self) xs2 []"
    and dy2: "deref (heap st2') (y_train args2) = value_dict (y_fields self) ys2 []"
    by blast
  have a2: "addrs2 = addrs" using ad ad2 by simp
  have "\<forall>(s, a) \<in> set (data_all_sub self). s \<in> set tr \<longrightarrow> heap st1 ! a = heap st2 ! a"
    using same disj by auto
  with ad have m: "map (\<lambda>a. heap st1 ! a) addrs = map (\<lambda>a. heap st2 ! a) addrs" by (rule lookup_agree)
  have "Inr xs2 = (Inr xs :: error + tensor list)" "Inr ys2 = (Inr ys :: error + tensor list)"
    using xs ys xs2 ys2 unfolding a2 m by (simp_all only:)
  then have "xs2 = xs" "ys2 = ys" by simp_all
  then have eqx: "deref (heap st1') (x_train args1) = deref (heap st2') (x_train args2)"
    and eqy: "deref (heap st1') (y_train args1) = deref (heap st2') (y_train args2)"
    using dx dy dx2 dy2 by simp_all
  have "vaddrs \<noteq> []" if "te \<noteq> []"
    using map_err_length[OF vad] that f(1) by auto
  then have v: "te \<noteq> [] \<longrightarrow> (\<exists>held_out x y vxs vys.
            map_err (lookup (data_all_sub self)) te = Inr held_out
          \<and> x_validation args1 = Some x \<and> y_validation args1 = Some y
          \<and> raw_arrays (data_fields self) (concat (map (\<lambda>a. heap st1 ! a) held_out)) (x_fields self) = Inr vxs
          \<and> raw_arrays (data_fields self) (concat (map (\<lambda>a. heap st1 ! a) held_out)) (y_fields self) = Inr vys
          \<and> deref (heap st1') x = value_dict (x_fields self) vxs []
          \<and> deref (heap st1') y = value_dict (y_fields self) vys [])"
    using val vad f(1) by blast
  show ?thesis using f(1) disj eqx eqy v by blast
qed


theorem training_tensors_ignore_held_out_values_witness:
  "\<exists>args1 st1' args2 st2'.
     ([''s2'', ''s3''], [''s1''], [''s1'']) \<in> set (cv_folds [''s1'', ''s2'', ''s3''] 1)
   \<and> train_arguments id demo_model [''s2'', ''s3''] [''s1''] demo_state = Inr (args1, st1')
   \<and> train_arguments id demo_model [''s2'', ''s3''] [''s1''] demo_state_other_s1 = Inr (args2, st2')
   \<and> heap demo_state_other_s1 ! 0 \<noteq> heap demo_state ! 0
   \<and> deref (heap st1') (x_train args1) = deref (heap st2') (x_train args2)
   \<and> deref (heap st1') (y_train args1) = deref (heap st2') (y_train args2)"
proof -
  have f: "([''s2'', ''s3''], [''s1''], [''s1'']) \<in> set (cv_folds [''s1'', ''s2'', ''s3''] 1)"
    by code_simp
  have "case train_arguments id demo_model [''s2'', ''s3''] [''s1''] demo_state of
          Inl e \<Rightarrow> False | Inr r \<Rightarrow> True" by code_simp
  then obtain args1 st1' where
    run1: "train_arguments id demo_model [''s2'', ''s3''] [''s1''] demo_state = Inr (args1, st1')"
    by (cases "train_arguments id demo_model [''s2'', ''s3''] [''s1''] demo_state") auto
  have "case train_arguments id demo_model [''s2'', ''s3''] [''s1''] demo_state_other_s1 of
          Inl e \<Rightarrow> False | Inr r \<Rightarrow> True" by code_simp
  then obtain args2 st2' where
    run2: "train_arguments id demo_model [''s2'', ''s3''] [''s1''] demo_state_other_s1 = Inr (args2, st2')"
    by (cases "train_arguments id demo_model [''s2'', ''s3''] [''s1''] demo_state_other_s1") auto
  have v1: "\<forall>a \<in> snd ` set (data_all_sub demo_model). a < length (heap demo_state)"
    and v2: "\<forall>a \<in> snd ` set (data_all_sub demo_model). a < length (heap demo_state_other_s1)"
    and same: "\<forall>(s, a) \<in> set (data_all_sub demo_model). s \<notin> set [''s1''] \<longrightarrow>
                 heap demo_state ! a = heap demo_state_other_s1 ! a"
    and other: "heap demo_state_other_s1 ! 0 \<noteq> heap demo_state ! 0"
    by (simp_all add: demo_model_def demo_state_def demo_arrays_def demo_state_other_s1_def)
  from training_tensors_ignore_held_out_values[OF f run1 run2 v1 v2 same]
  have "deref (heap st1') (x_train args1) = deref (heap st2') (x_train args2)"
    and "deref (heap st1') (y_train args1) = deref (heap st2') (y_train args2)" by blast+
  with f run1 run2 other show ?thesis by blast
qed

section \<open>Claim C1: what the model is handed\<close>

text \<open>
  C1.  The model is meant to get the normalized data.  \<^verbatim>\<open>normalize_data\<close> returns a new
  dictionary of scaled copies and leaves its argument as it was; \<^verbatim>\<open>preprocess_train_data\<close> and
  \<^verbatim>\<open>preprocess_validation_test_data\<close> call it, drop what it returns and return their argument.
  Training on subject \<open>s2\<close> of the small store, the model is handed the raw values of the
  group \<open>x\<close>, where the fitted scaler maps them to \<open>0, 0\<close>, \<open>1/2, 2/3\<close> and \<open>1, 1\<close>.
\<close>

theorem train_model_receives_raw_values:
 "map_sum id fst (preprocess_and_train demo_capability id demo_model [''s2''] [] demo_state)
    = Inr [(''x'', [[[Fin 4, Fin 20], [Fin 6, Fin 40], [Fin 8, Fin 50]]])]
  \<and> map_sum id (\<lambda>(d, st). deref (heap st) d)
       (normalize_data [(''x'', 1)] Fit_transform By_each_column demo_state)
    = Inr [(''x'', [[[Fin 0, Fin 0], [Fin (1 / 2), Fin (2 / 3)], [Fin 1, Fin 1]]])]"
  by code_simp

end
